(* ===== verification/Ssh2_Prelude.thy ===== *)
theory Ssh2_Prelude
  imports Main "HOL-Library.Word" "HOL-Library.Monad_Syntax"
begin

text \<open>
  The shared ground of the development.

  Every operation of the module is a function \<open>'s \<Rightarrow> ('a \<times> 's) option\<close>: it takes the
  state and returns a value with the new state, or \<open>None\<close> when the code does not return
  (some of its loops wait for the network for as long as the library asks for it).
  Operations that cannot diverge are total functions \<open>'s \<Rightarrow> 'a \<times> 's\<close> or \<open>'s \<Rightarrow> 's\<close>.
  Sequencing is the \<open>do\<close> notation of the option type with the state passed by hand.

  The theory holds
  \<^item> the outcome predicates \<open>post\<close> (partial correctness) and \<open>returns\<close> (the operation
    returns), with the simplification rules that push them through sequencing;
  \<^item> \<open>retry_loop\<close>, the one loop from which the module builds every wait for the network,
    with its invariant rule and its termination rule;
  \<^item> the return codes and handles of libssh2, and C string helpers.
\<close>

named_theorems post_simps "rules that push post through the structure of an operation"
named_theorems step_defs "definitions of operations without loops, unfolded in proofs"

section \<open>Outcomes\<close>

definition post :: "('a \<times> 's) option \<Rightarrow> ('a \<Rightarrow> 's \<Rightarrow> bool) \<Rightarrow> bool" where
  "post m Q \<longleftrightarrow> (\<forall>a s. m = Some (a, s) \<longrightarrow> Q a s)"

definition returns :: "('a \<times> 's) option \<Rightarrow> bool" where
  "returns m \<longleftrightarrow> (\<exists>a s. m = Some (a, s))"

lemma post_Some [simp, post_simps]: "post (Some (a, s)) Q = Q a s"
  by (simp add: post_def)

lemma post_None [simp, post_simps]: "post None Q"
  by (simp add: post_def)

lemma post_bind [simp, post_simps]:
  "post (Option.bind m f) Q = post m (\<lambda>a s. post (f (a, s)) Q)"
  by (cases m) (auto simp: post_def)

lemma post_if [post_simps]:
  "post (if b then m else n) Q = ((b \<longrightarrow> post m Q) \<and> (\<not> b \<longrightarrow> post n Q))"
  by simp

lemma post_mono: "post m P \<Longrightarrow> (\<And>a s. P a s \<Longrightarrow> Q a s) \<Longrightarrow> post m Q"
  by (auto simp: post_def)

lemma post_conj: "post m P \<Longrightarrow> post m Q \<Longrightarrow> post m (\<lambda>a s. P a s \<and> Q a s)"
  by (auto simp: post_def)

lemma post_bindI: "post m P \<Longrightarrow> (\<And>a s. P a s \<Longrightarrow> post (f (a, s)) Q) \<Longrightarrow> post (Option.bind m f) Q"
  by (auto elim!: post_mono)

lemma post_D: "post m Q \<Longrightarrow> m = Some (a, s) \<Longrightarrow> Q a s"
  by (simp add: post_def)

lemma post_I: "(\<And>a s. m = Some (a, s) \<Longrightarrow> Q a s) \<Longrightarrow> post m Q"
  by (simp add: post_def)

lemma returns_Some [simp]: "returns (Some x)"
  by (cases x) (simp add: returns_def)

lemma returns_None [simp]: "\<not> returns None"
  by (simp add: returns_def)

lemma returns_bind:
  "returns (Option.bind m f) = (returns m \<and> post m (\<lambda>a s. returns (f (a, s))))"
  by (cases m) auto

section \<open>Retrying while the library would block\<close>

text \<open>
  \<open>retry_loop again call wait s\<close> is the loop
  \<^verbatim>\<open>while (again(r = call())) { if (wait()) return -1; }\<close>
  The value is \<open>Some r\<close> for the last result of the call and \<open>None\<close> when the wait
  failed; a wait returns 0 for success.
\<close>

partial_function (option) retry_loop ::
  "('r \<Rightarrow> bool) \<Rightarrow> ('s \<Rightarrow> 'r \<times> 's) \<Rightarrow> ('s \<Rightarrow> (int \<times> 's) option) \<Rightarrow> 's \<Rightarrow> ('r option \<times> 's) option" where
  "retry_loop again call wait s =
     (case call s of (r, s1) \<Rightarrow>
        if again r then
          do { (wr, s2) \<leftarrow> wait s1;
               if wr \<noteq> 0 then Some (None, s2) else retry_loop again call wait s2 }
        else Some (Some r, s1))"

declare retry_loop.simps [code]

lemma retry_loop_done:
  "call s = (r, s1) \<Longrightarrow> \<not> again r \<Longrightarrow> retry_loop again call wait s = Some (Some r, s1)"
  by (subst retry_loop.simps) simp

lemma retry_loop_again:
  "call s = (r, s1) \<Longrightarrow> again r \<Longrightarrow> wait s1 = Some (wr, s2) \<Longrightarrow>
   retry_loop again call wait s = (if wr \<noteq> 0 then Some (None, s2) else retry_loop again call wait s2)"
  by (subst retry_loop.simps) simp

lemma retry_loop_post:
  assumes start: "I s"
    and again: "\<And>s r s1. I s \<Longrightarrow> call s = (r, s1) \<Longrightarrow> again r \<Longrightarrow>
        post (wait s1) (\<lambda>wr s2. if wr \<noteq> 0 then Q None s2 else I s2)"
    and fin: "\<And>s r s1. I s \<Longrightarrow> call s = (r, s1) \<Longrightarrow> \<not> again r \<Longrightarrow> Q (Some r) s1"
  shows "post (retry_loop again call wait s) Q"
proof (rule post_I)
  fix a t
  assume ret: "retry_loop again call wait s = Some (a, t)"
  have "case (a, t) of (a, t) \<Rightarrow> call = call \<longrightarrow> again = again \<longrightarrow> wait = wait \<longrightarrow> I s \<longrightarrow> Q a t"
  proof (rule retry_loop.raw_induct [where P = "\<lambda>ag ca wa s y. case y of (a, t) \<Rightarrow>
        ca = call \<longrightarrow> ag = again \<longrightarrow> wa = wait \<longrightarrow> I s \<longrightarrow> Q a t", OF _ ret])
    fix f ag ca wa s y
    assume IH: "\<And>ag ca wa s y. f ag ca wa s = Some y \<Longrightarrow>
          case y of (a, t) \<Rightarrow> ca = call \<longrightarrow> ag = again \<longrightarrow> wa = wait \<longrightarrow> I s \<longrightarrow> Q a t"
      and eq: "(case ca s of (r, s1) \<Rightarrow>
           if ag r then do { (wr, s2) \<leftarrow> wa s1;
               if wr \<noteq> 0 then Some (None, s2) else f ag ca wa s2 }
           else Some (Some r, s1)) = Some y"
    show "case y of (a, t) \<Rightarrow> ca = call \<longrightarrow> ag = again \<longrightarrow> wa = wait \<longrightarrow> I s \<longrightarrow> Q a t"
    proof (cases y, clarsimp)
      fix a t
      assume y: "y = (a, t)" and args: "ca = call" "ag = again" "wa = wait" and inv: "I s"
      obtain r s1 where c: "call s = (r, s1)" by (cases "call s")
      show "Q a t"
      proof (cases "again r")
        case True
        with eq c args y obtain wr s2 where w: "wait s1 = Some (wr, s2)"
          and r: "(if wr \<noteq> 0 then Some (None, s2) else f again call wait s2) = Some (a, t)"
          by (auto simp: Option.bind_eq_Some_conv)
        from again [OF inv c True] w have "if wr \<noteq> 0 then Q None s2 else I s2"
          by (simp add: post_def)
        with r IH [of again call wait s2 "(a, t)"] show ?thesis by (auto split: if_splits)
      next
        case False
        with eq c args y fin [OF inv c] show ?thesis by auto
      qed
    qed
  qed
  with start show "Q a t" by simp
qed

lemma retry_loop_returns:
  fixes m :: "'s \<Rightarrow> nat"
  assumes start: "I s"
    and again: "\<And>s r s1. I s \<Longrightarrow> call s = (r, s1) \<Longrightarrow> again r \<Longrightarrow>
        returns (wait s1) \<and> post (wait s1) (\<lambda>wr s2. wr = 0 \<longrightarrow> I s2 \<and> m s2 < m s)"
  shows "returns (retry_loop again call wait s)"
  using start
proof (induction "m s" arbitrary: s rule: less_induct)
  case less
  obtain r s1 where c: "call s = (r, s1)" by (cases "call s")
  show ?case
  proof (cases "again r")
    case True
    from again [OF less.prems c True] obtain wr s2
      where w: "wait s1 = Some (wr, s2)" and p: "wr = 0 \<longrightarrow> I s2 \<and> m s2 < m s"
      by (auto simp: returns_def post_def)
    show ?thesis
    proof (cases "wr = 0")
      case True
      with p less.hyps have "returns (retry_loop again call wait s2)" by blast
      with True \<open>again r\<close> c w show ?thesis by (subst retry_loop.simps) simp
    next
      case False
      with \<open>again r\<close> c w show ?thesis by (subst retry_loop.simps) simp
    qed
  next
    case False
    with c show ?thesis by (subst retry_loop.simps) simp
  qed
qed

section \<open>Return codes and handles of libssh2\<close>

text \<open>
  An \<open>int\<close> result of libssh2 is \<open>Eagain\<close> for \<open>LIBSSH2_ERROR_EAGAIN\<close> and \<open>Ret n\<close> for any
  other value: 0 or a count for success, negative for an error. A call that returns a
  handle is read together with the session's last error, as the code does: \<open>NullEagain\<close>
  is a null handle with \<open>LIBSSH2_ERROR_EAGAIN\<close>, \<open>NullErr\<close> a null handle with any other.
\<close>

datatype lrc = Eagain | Ret int

datatype 'h lptr = Got 'h | NullEagain | NullErr

text \<open>A read: would block, error code, or the bytes that were read (none: end of file).\<close>

datatype rd = RdEagain | RdErr int | RdData string

definition is_eagain :: "lrc \<Rightarrow> bool" where
  "is_eagain r \<longleftrightarrow> r = Eagain"

definition is_null_eagain :: "'h lptr \<Rightarrow> bool" where
  "is_null_eagain p = (case p of NullEagain \<Rightarrow> True | _ \<Rightarrow> False)"

lemma is_eagain_simps [simp]: "is_eagain Eagain" "\<not> is_eagain (Ret n)"
  by (simp_all add: is_eagain_def)

lemma is_null_eagain_simps [simp]:
  "is_null_eagain NullEagain" "\<not> is_null_eagain NullErr" "\<not> is_null_eagain (Got h)"
  by (simp_all add: is_null_eagain_def)

section \<open>Strings\<close>

text \<open>A string read through its C pointer ends at the first null byte.\<close>

definition c_str :: "string \<Rightarrow> string" where
  "c_str s = takeWhile (\<lambda>c. c \<noteq> CHR 0x00) s"

lemma c_str_idem [simp]: "c_str (c_str s) = c_str s"
  by (simp add: c_str_def takeWhile_idem)

lemma c_str_id: "CHR 0x00 \<notin> set s \<Longrightarrow> c_str s = s"
  unfolding c_str_def by (auto simp: takeWhile_eq_all_conv)

text \<open>The conversion \<open>%d\<close> of \<open>sprintf\<close>.\<close>

fun dec_nat :: "nat \<Rightarrow> string" where
  "dec_nat n = (if n < 10 then [char_of (48 + n)] else dec_nat (n div 10) @ [char_of (48 + n mod 10)])"

declare dec_nat.simps [simp del]

definition dec_int :: "int \<Rightarrow> string" where
  "dec_int i = (if i < 0 then CHR ''-'' # dec_nat (nat (- i)) else dec_nat (nat i))"

text \<open>\<open>strstr(s, p)\<close> as a truth value.\<close>

fun contains :: "string \<Rightarrow> string \<Rightarrow> bool" where
  "contains s p = (take (length p) s = p \<or> (case s of [] \<Rightarrow> False | _ # t \<Rightarrow> contains t p))"

declare contains.simps [simp del]

lemma contains_iff: "contains s p \<longleftrightarrow> (\<exists>a b. s = a @ p @ b)"
proof (induction s p rule: contains.induct)
  case (1 s p)
  have pre: "take (length p) s = p \<longleftrightarrow> (\<exists>b. s = p @ b)"
    by (metis append_eq_conv_conj)
  show ?case
  proof (cases s)
    case Nil
    then show ?thesis by (subst contains.simps) auto
  next
    case (Cons c t)
    have "(\<exists>a b. s = a @ p @ b) \<longleftrightarrow> (\<exists>b. s = p @ b) \<or> (\<exists>a b. t = a @ p @ b)"
      unfolding Cons by (metis append_Cons append_Nil list.exhaust list.inject)
    with 1 [OF Cons] pre Cons show ?thesis by (subst contains.simps) simp
  qed
qed

text \<open>\<open>strcasecmp\<close> folds the ASCII letters.\<close>

definition ascii_lower :: "char \<Rightarrow> char" where
  "ascii_lower c = (if 65 \<le> (of_char c :: nat) \<and> (of_char c :: nat) \<le> 90
     then char_of ((of_char c :: nat) + 32) else c)"

definition strcaseeq :: "string \<Rightarrow> string \<Rightarrow> bool" where
  "strcaseeq a b \<longleftrightarrow> map ascii_lower a = map ascii_lower b"

lemma ascii_lower_idem [simp]: "ascii_lower (ascii_lower c) = ascii_lower c"
  by (auto simp: ascii_lower_def)

lemma strcaseeq_lower: "strcaseeq (map ascii_lower a) b = strcaseeq a b"
  by (simp add: strcaseeq_def comp_def)

end
