(* ===== verification/Ssh2_Util.thy ===== *)
theory Ssh2_Util
  imports Ssh2_Prelude
begin

text \<open>
  The pure helper functions of \<open>src/src/SSH2Client.cpp\<close> and \<open>src/src/SFTPClient.cpp\<close>:
  file modes and their two renderings, host name normalisation, the names of policies and
  key types, the decisions of a host-key store, fingerprints, method types, and the
  resolution of remote file names.
\<close>

unbundle bit_operations_syntax

section \<open>File modes\<close>

text \<open>The file type field of \<open>st_mode\<close> (POSIX \<open>sys/stat.h\<close>).\<close>

type_synonym mode = "32 word"

definition S_IFMT :: mode where "S_IFMT = 0xF000"
definition S_IFDIR :: mode where "S_IFDIR = 0x4000"
definition S_IFBLK :: mode where "S_IFBLK = 0x6000"
definition S_IFCHR :: mode where "S_IFCHR = 0x2000"
definition S_IFIFO :: mode where "S_IFIFO = 0x1000"
definition S_IFLNK :: mode where "S_IFLNK = 0xA000"
definition S_IFSOCK :: mode where "S_IFSOCK = 0xC000"
definition S_IFREG :: mode where "S_IFREG = 0x8000"

definition file_type_is :: "mode \<Rightarrow> mode \<Rightarrow> bool" where
  "file_type_is ft m \<longleftrightarrow> m AND S_IFMT = ft"

lemmas mode_consts = S_IFMT_def S_IFDIR_def S_IFBLK_def S_IFCHR_def S_IFIFO_def S_IFLNK_def
  S_IFSOCK_def S_IFREG_def

text \<open>\<open>mode2str\<close>: ten characters, three passes of the loop from the last triple up.\<close>

definition mode2str_pass :: "string \<Rightarrow> mode \<Rightarrow> nat \<Rightarrow> string" where
  "mode2str_pass ret tmode i =
     (let ret = (if tmode AND 1 \<noteq> 0 then ret[1 + 2 + i * 3 := CHR ''x''] else ret);
          ret = (if tmode AND 2 \<noteq> 0 then ret[1 + 1 + i * 3 := CHR ''w''] else ret)
      in if tmode AND 4 \<noteq> 0 then ret[1 + 0 + i * 3 := CHR ''r''] else ret)"

fun mode2str_loop :: "string \<Rightarrow> mode \<Rightarrow> nat \<Rightarrow> string" where
  "mode2str_loop ret tmode 0 = ret"
| "mode2str_loop ret tmode (Suc i) =
     mode2str_loop (mode2str_pass ret tmode i) (drop_bit 3 tmode) i"

definition mode2str :: "mode \<Rightarrow> string" where
  "mode2str m =
     (let ret = mode2str_loop ''----------'' m 3;
          ret = (if file_type_is S_IFDIR m then ret[0 := CHR ''d''] else ret);
          ret = (if file_type_is S_IFBLK m then ret[0 := CHR ''b''] else ret);
          ret = (if file_type_is S_IFCHR m then ret[0 := CHR ''c''] else ret);
          ret = (if file_type_is S_IFIFO m then ret[0 := CHR ''p''] else ret);
          ret = (if file_type_is S_IFLNK m then ret[0 := CHR ''l''] else ret)
      in if file_type_is S_IFSOCK m then ret[0 := CHR ''s''] else ret)"

text \<open>\<open>ssh2_mode_to_perm\<close>: the type name and the permission string of a listing.\<close>

definition mode_type :: "mode \<Rightarrow> string \<times> char" where
  "mode_type m =
     (if file_type_is S_IFBLK m then (''BLOCK-DEVICE'', CHR ''b'')
      else if file_type_is S_IFDIR m then (''DIRECTORY'', CHR ''d'')
      else if file_type_is S_IFCHR m then (''CHARACTER-DEVICE'', CHR ''c'')
      else if file_type_is S_IFIFO m then (''FIFO'', CHR ''p'')
      else if file_type_is S_IFLNK m then (''SYMBOLIC-LINK'', CHR ''l'')
      else if file_type_is S_IFSOCK m then (''SOCKET'', CHR ''s'')
      else if file_type_is S_IFREG m then (''REGULAR'', CHR ''-'')
      else (''UNKNOWN'', CHR ''?''))"

definition ssh2_mode_to_perm :: "mode \<Rightarrow> string \<times> string" where
  "ssh2_mode_to_perm m =
     (let (type, c) = mode_type m;
          flag = (\<lambda>b c. if m AND b \<noteq> 0 then c else CHR ''-'');
          exec = (\<lambda>sp x lo up. if m AND sp \<noteq> 0 then (if m AND x \<noteq> 0 then lo else up)
                                else flag x CHR ''x'')
      in (type, [c,
            flag 0x100 CHR ''r'', flag 0x080 CHR ''w'', exec 0x800 0x040 CHR ''s'' CHR ''S'',
            flag 0x020 CHR ''r'', flag 0x010 CHR ''w'', exec 0x400 0x008 CHR ''s'' CHR ''S'',
            flag 0x004 CHR ''r'', flag 0x002 CHR ''w'', exec 0x200 0x001 CHR ''t'' CHR ''T'']))"

text \<open>
  The attributes after \<open>chmod\<close>: bits inside the permission mask of the SFTP protocol come
  from the argument, all others from the file.
\<close>

definition chmod_newmode :: "64 word \<Rightarrow> 64 word \<Rightarrow> 64 word \<Rightarrow> 64 word" where
  "chmod_newmode ugomask perms m = (perms AND (- 1 XOR ugomask)) OR (m AND ugomask)"

lemma if_list_update: "(if b then xs[i := c] else xs) = xs[i := (if b then c else xs ! i)]"
  by simp

lemma mode2str_loop_eq:
  "mode2str_loop ''----------'' m 3 =
     (let flag = (\<lambda>n c. if bit m n then c else CHR ''-'')
      in [CHR ''-'', flag 8 CHR ''r'', flag 7 CHR ''w'', flag 6 CHR ''x'',
          flag 5 CHR ''r'', flag 4 CHR ''w'', flag 3 CHR ''x'',
          flag 2 CHR ''r'', flag 1 CHR ''w'', flag 0 CHR ''x''])"
proof -
  have b: "(x AND 1 = 0) = (\<not> bit x 0)" "(x AND 2 = 0) = (\<not> bit x 1)" "(x AND 4 = 0) = (\<not> bit x 2)"
    for x :: mode
    using and_exp_eq_0_iff_not_bit [of x 0] and_exp_eq_0_iff_not_bit [of x 1]
      and_exp_eq_0_iff_not_bit [of x 2] by simp_all
  show ?thesis
    by (simp only: numeral_3_eq_3 mode2str_loop.simps mode2str_pass_def if_list_update Let_def b)
      (simp add: bit_drop_bit_eq eval_nat_numeral)
qed

lemma mode2str_eq:
  "mode2str m =
     (let flag = (\<lambda>n c. if bit m n then c else CHR ''-'');
          t = snd (mode_type m)
      in [if t = CHR ''?'' then CHR ''-'' else t,
          flag 8 CHR ''r'', flag 7 CHR ''w'', flag 6 CHR ''x'',
          flag 5 CHR ''r'', flag 4 CHR ''w'', flag 3 CHR ''x'',
          flag 2 CHR ''r'', flag 1 CHR ''w'', flag 0 CHR ''x''])"
  unfolding mode2str_def mode2str_loop_eq
  by (simp only: if_list_update Let_def mode_type_def)
     (simp add: file_type_is_def mode_consts)

lemma and_mask_bits:
  "(m AND 0x100 = 0) = (\<not> bit m 8)" "(m AND 0x080 = 0) = (\<not> bit m 7)"
  "(m AND 0x040 = 0) = (\<not> bit m 6)" "(m AND 0x020 = 0) = (\<not> bit m 5)"
  "(m AND 0x010 = 0) = (\<not> bit m 4)" "(m AND 0x008 = 0) = (\<not> bit m 3)"
  "(m AND 0x004 = 0) = (\<not> bit m 2)" "(m AND 0x002 = 0) = (\<not> bit m 1)"
  "(m AND 0x001 = 0) = (\<not> bit m 0)" "(m AND 0x800 = 0) = (\<not> bit m 11)"
  "(m AND 0x400 = 0) = (\<not> bit m 10)" "(m AND 0x200 = 0) = (\<not> bit m 9)" for m :: mode
  using and_exp_eq_0_iff_not_bit [of m 8] and_exp_eq_0_iff_not_bit [of m 7]
    and_exp_eq_0_iff_not_bit [of m 6] and_exp_eq_0_iff_not_bit [of m 5]
    and_exp_eq_0_iff_not_bit [of m 4] and_exp_eq_0_iff_not_bit [of m 3]
    and_exp_eq_0_iff_not_bit [of m 2] and_exp_eq_0_iff_not_bit [of m 1]
    and_exp_eq_0_iff_not_bit [of m 0] and_exp_eq_0_iff_not_bit [of m 11]
    and_exp_eq_0_iff_not_bit [of m 10] and_exp_eq_0_iff_not_bit [of m 9]
  by simp_all

lemma mode_to_perm_agrees:
  assumes "\<not> bit m 9" "\<not> bit m 10" "\<not> bit m 11"
    and "snd (mode_type m) \<noteq> CHR ''?''"
  shows "mode2str m = snd (ssh2_mode_to_perm m)"
  using assms
  by (simp add: mode2str_eq ssh2_mode_to_perm_def Let_def and_mask_bits split: prod.splits)

section \<open>Host names, policies and key types\<close>

definition ssh2_normalize_host :: "string \<Rightarrow> string" where
  "ssh2_normalize_host host =
     (let rv = (if host \<noteq> [] \<and> last host = CHR ''.'' then butlast host else host)
      in map ascii_lower rv)"

definition SSH2_HOSTKEY_REJECT :: int where "SSH2_HOSTKEY_REJECT = 0"
definition SSH2_HOSTKEY_TOFU :: int where "SSH2_HOSTKEY_TOFU = 1"
definition SSH2_HOSTKEY_TOFU_SESSION :: int where "SSH2_HOSTKEY_TOFU_SESSION = 2"

definition SSH2_CLIENT_AUTH_EXPLICIT_FIRST :: int where "SSH2_CLIENT_AUTH_EXPLICIT_FIRST = 0"
definition SSH2_CLIENT_AUTH_PROVIDER_FIRST :: int where "SSH2_CLIENT_AUTH_PROVIDER_FIRST = 1"

definition SSH2_CLIENT_ID_FALLBACK_DISABLED :: int where "SSH2_CLIENT_ID_FALLBACK_DISABLED = 0"
definition SSH2_CLIENT_ID_FALLBACK_AGENT :: int where "SSH2_CLIENT_ID_FALLBACK_AGENT = 1"
definition SSH2_CLIENT_ID_FALLBACK_DEFAULT_KEYS :: int where
  "SSH2_CLIENT_ID_FALLBACK_DEFAULT_KEYS = 2"
definition SSH2_CLIENT_ID_FALLBACK_AGENT_AND_DEFAULT_KEYS :: int where
  "SSH2_CLIENT_ID_FALLBACK_AGENT_AND_DEFAULT_KEYS = 3"

lemmas policy_consts = SSH2_HOSTKEY_REJECT_def SSH2_HOSTKEY_TOFU_def SSH2_HOSTKEY_TOFU_SESSION_def
  SSH2_CLIENT_AUTH_EXPLICIT_FIRST_def SSH2_CLIENT_AUTH_PROVIDER_FIRST_def
  SSH2_CLIENT_ID_FALLBACK_DISABLED_def SSH2_CLIENT_ID_FALLBACK_AGENT_def
  SSH2_CLIENT_ID_FALLBACK_DEFAULT_KEYS_def SSH2_CLIENT_ID_FALLBACK_AGENT_AND_DEFAULT_KEYS_def

definition ssh2_host_key_policy_name :: "int \<Rightarrow> string" where
  "ssh2_host_key_policy_name policy =
     (if policy = SSH2_HOSTKEY_REJECT then ''reject''
      else if policy = SSH2_HOSTKEY_TOFU then ''tofu''
      else if policy = SSH2_HOSTKEY_TOFU_SESSION then ''tofu-session''
      else ''unknown'')"

definition ssh2_client_auth_order_name :: "int \<Rightarrow> string" where
  "ssh2_client_auth_order_name order =
     (if order = SSH2_CLIENT_AUTH_EXPLICIT_FIRST then ''explicit-first''
      else if order = SSH2_CLIENT_AUTH_PROVIDER_FIRST then ''provider-first''
      else ''unknown'')"

definition ssh2_client_identity_fallback_policy_name :: "int \<Rightarrow> string" where
  "ssh2_client_identity_fallback_policy_name policy =
     (if policy = SSH2_CLIENT_ID_FALLBACK_DISABLED then ''disabled''
      else if policy = SSH2_CLIENT_ID_FALLBACK_AGENT then ''agent''
      else if policy = SSH2_CLIENT_ID_FALLBACK_DEFAULT_KEYS then ''default-keys''
      else if policy = SSH2_CLIENT_ID_FALLBACK_AGENT_AND_DEFAULT_KEYS then ''agent-and-default-keys''
      else ''unknown'')"

text \<open>The host key types of libssh2; the library may return a type the module does not know.\<close>

datatype hostkey_type = HK_RSA | HK_DSS | HK_ECDSA_256 | HK_ECDSA_384 | HK_ECDSA_521 | HK_ED25519
  | HK_OTHER int

fun ssh2_hostkey_type_name :: "hostkey_type \<Rightarrow> string" where
  "ssh2_hostkey_type_name HK_RSA = ''ssh-rsa''"
| "ssh2_hostkey_type_name HK_DSS = ''ssh-dss''"
| "ssh2_hostkey_type_name HK_ECDSA_256 = ''ecdsa-sha2-nistp256''"
| "ssh2_hostkey_type_name HK_ECDSA_384 = ''ecdsa-sha2-nistp384''"
| "ssh2_hostkey_type_name HK_ECDSA_521 = ''ecdsa-sha2-nistp521''"
| "ssh2_hostkey_type_name HK_ED25519 = ''ssh-ed25519''"
| "ssh2_hostkey_type_name (HK_OTHER _) = ''unknown''"

text \<open>The key field of a known-hosts entry (plain host name, raw key encoding).\<close>

datatype knownhost_key = KH_SSHRSA | KH_SSHDSS | KH_ECDSA_256 | KH_ECDSA_384 | KH_ECDSA_521
  | KH_ED25519 | KH_UNKNOWN

fun kh_type :: "hostkey_type \<Rightarrow> knownhost_key" where
  "kh_type HK_RSA = KH_SSHRSA"
| "kh_type HK_DSS = KH_SSHDSS"
| "kh_type HK_ECDSA_256 = KH_ECDSA_256"
| "kh_type HK_ECDSA_384 = KH_ECDSA_384"
| "kh_type HK_ECDSA_521 = KH_ECDSA_521"
| "kh_type HK_ED25519 = KH_ED25519"
| "kh_type (HK_OTHER _) = KH_UNKNOWN"

section \<open>Decisions of a host-key store\<close>

definition ssh2_hostkey_decision_exception :: "string \<Rightarrow> string" where
  "ssh2_hostkey_decision_exception decision =
     (if decision = ''unknown'' then ''SSH2-HOSTKEY-UNKNOWN''
      else if decision = ''mismatch'' then ''SSH2-HOSTKEY-MISMATCH''
      else if decision = ''revoked'' then ''SSH2-HOSTKEY-REVOKED''
      else if decision = ''store-error'' then ''SSH2-HOSTKEY-STORE-ERROR''
      else if decision = ''invalid-response'' then ''SSH2-HOSTKEY-INVALID-RESPONSE''
      else if decision = ''provider-error'' then ''SSH2-HOSTKEY-PROVIDER-ERROR''
      else if decision = ''timeout'' then ''SSH2-HOSTKEY-TIMEOUT''
      else ''SSH2-HOSTKEY-INVALID-RESPONSE'')"

definition ssh2_hostkey_decision_success :: "string \<Rightarrow> bool" where
  "ssh2_hostkey_decision_success decision \<longleftrightarrow>
     decision = ''matched'' \<or> decision = ''added'' \<or> decision = ''accepted-session''"

section \<open>Fingerprints\<close>

text \<open>\<open>sprintf("%02X")\<close> of each byte of a hash, separated by colons.\<close>

definition hex_digit :: "nat \<Rightarrow> char" where
  "hex_digit d = (if d < 10 then char_of (48 + d) else char_of (55 + d))"

definition hex2 :: "char \<Rightarrow> string" where
  "hex2 c = (let n = (of_char c :: nat) in [hex_digit (n div 16), hex_digit (n mod 16)])"

fun fp_tail :: "string \<Rightarrow> string" where
  "fp_tail [] = []"
| "fp_tail (b # bs) = CHR '':'' # hex2 b @ fp_tail bs"

fun fp_string :: "string \<Rightarrow> string" where
  "fp_string [] = []"
| "fp_string (b # bs) = hex2 b @ fp_tail bs"

text \<open>The reference decoder used to state that a fingerprint loses nothing.\<close>

definition unhex_digit :: "char \<Rightarrow> nat" where
  "unhex_digit c = (let n = (of_char c :: nat) in if n < 58 then n - 48 else n - 55)"

fun fp_decode :: "string \<Rightarrow> string" where
  "fp_decode (a # b # c # r) = char_of (unhex_digit a * 16 + unhex_digit b) # fp_decode r"
| "fp_decode [a, b] = [char_of (unhex_digit a * 16 + unhex_digit b)]"
| "fp_decode _ = []"

lemma unhex_hex_digit: "d < 16 \<Longrightarrow> unhex_digit (hex_digit d) = d"
  by (auto simp: unhex_digit_def hex_digit_def Let_def)

lemma unhex_hex2:
  "char_of (unhex_digit (hex_digit ((of_char c :: nat) div 16)) * 16
      + unhex_digit (hex_digit ((of_char c :: nat) mod 16))) = c"
proof -
  have "(of_char c :: nat) < 256" by (rule nat_of_char_less_256)
  then have "(of_char c :: nat) div 16 < 16" by linarith
  then show ?thesis by (simp add: unhex_hex_digit)
qed

lemma fp_decode_tail: "fp_decode (hex2 b @ fp_tail bs) = b # bs"
proof (induction bs arbitrary: b)
  case Nil
  then show ?case by (simp add: hex2_def Let_def unhex_hex2)
next
  case (Cons x xs)
  then show ?case using Cons.IH [of x] by (simp add: hex2_def Let_def unhex_hex2)
qed

lemma length_fp_tail: "length (fp_tail bs) = 3 * length bs"
  by (induction bs) (auto simp: hex2_def Let_def)

section \<open>Method types and remote file names\<close>

datatype ssh_method = METHOD_KEX | METHOD_HOSTKEY | METHOD_CRYPT_CS | METHOD_CRYPT_SC
  | METHOD_MAC_CS | METHOD_MAC_SC | METHOD_COMP_CS | METHOD_COMP_SC
  | METHOD_LANG_CS | METHOD_LANG_SC

definition method_table :: "(string \<times> ssh_method) list" where
  "method_table =
     [(''KEX'', METHOD_KEX), (''HOSTKEY'', METHOD_HOSTKEY), (''CRYPT_CS'', METHOD_CRYPT_CS),
      (''CRYPT_SC'', METHOD_CRYPT_SC), (''MAC_CS'', METHOD_MAC_CS), (''MAC_SC'', METHOD_MAC_SC),
      (''COMP_CS'', METHOD_COMP_CS), (''COMP_SC'', METHOD_COMP_SC)]"

fun method_lookup :: "(string \<times> ssh_method) list \<Rightarrow> string \<Rightarrow> string + ssh_method" where
  "method_lookup [] s = Inl ''SSH2-METHOD-ERROR''"
| "method_lookup ((n, m) # t) s = (if strcaseeq s n then Inr m else method_lookup t s)"

definition method_type_from_string :: "string \<Rightarrow> string + ssh_method" where
  "method_type_from_string s = method_lookup method_table s"

text \<open>
  \<open>absolute_filename\<close>: a null name is the empty string, a name that starts with a slash is
  taken as it is, any other is placed below the session's path.
\<close>

definition absolute_filename :: "string \<Rightarrow> string option \<Rightarrow> string" where
  "absolute_filename path f =
     (case f of None \<Rightarrow> []
      | Some n \<Rightarrow> (case n of c # _ \<Rightarrow> if c = CHR ''/'' then n else path @ ''/'' @ n
                   | [] \<Rightarrow> path @ ''/'' @ n))"

section \<open>Properties\<close>

text \<open>
  The two renderings of a file mode agree: on every mode of a known file
  type without setuid, setgid and sticky bits, the string of \<open>mode2str\<close> (used by
  \<open>scpGet\<close>) is the permission string of \<open>ssh2_mode_to_perm\<close> (used by \<open>listFull\<close>).
\<close>

lemma mode2str_agrees_with_perm:
  assumes "\<not> bit m 9" "\<not> bit m 10" "\<not> bit m 11"
    and "snd (mode_type m) \<noteq> CHR ''?''"
  shows "mode2str m = snd (ssh2_mode_to_perm m)"
  using assms by (rule mode_to_perm_agrees)

lemma mode2str_agrees_with_perm_example:
  "mode2str 0x41ED = snd (ssh2_mode_to_perm 0x41ED)
     \<and> snd (ssh2_mode_to_perm 0x41ED) = ''drwxr-xr-x''"
proof
  show "mode2str 0x41ED = snd (ssh2_mode_to_perm 0x41ED)"
    by (rule mode2str_agrees_with_perm)
      (simp_all add: mode_type_def file_type_is_def mode_consts)
  show "snd (ssh2_mode_to_perm 0x41ED) = ''drwxr-xr-x''"
    by (simp add: ssh2_mode_to_perm_def mode_type_def file_type_is_def mode_consts Let_def)
qed

text \<open>
  \<open>chmod\<close> changes exactly the permission bits: a bit inside the mask is the
  one asked for, a bit outside it is the one the file had, whatever the mask is.
\<close>

lemma chmod_newmode_bits:
  "bit (chmod_newmode ugomask perms m) n =
     (if bit ugomask n then bit m n else bit perms n)"
  by (cases "n < 64") (auto simp: chmod_newmode_def bit_simps dest: bit_imp_le_length)

text \<open>
  C25 (roundtrip). A fingerprint string determines the hash it was printed from, and has
  three characters per byte less the missing separator.
\<close>

theorem fingerprint_roundtrip:
  "fp_decode (fp_string bs) = bs \<and> length (fp_string bs) = 3 * length bs - 1"
proof (cases bs)
  case Nil
  then show ?thesis by simp
next
  case (Cons b bs')
  then have "length (fp_string bs) = 3 * length bs - 1"
    by (simp add: length_fp_tail hex2_def Let_def)
  with Cons show ?thesis by (simp add: fp_decode_tail)
qed

text \<open>
  Host name normalisation gives a canonical name: it contains no upper
  case letter, it ignores letter case and one trailing dot, and normalising twice changes
  nothing unless the name ended in two dots.
\<close>

lemma normalize_host_canonical:
  "(\<forall>c \<in> set (ssh2_normalize_host h). ascii_lower c = c)
   \<and> ssh2_normalize_host (map ascii_lower h) = ssh2_normalize_host h
   \<and> (last (CHR ''x'' # h) \<noteq> CHR ''.'' \<longrightarrow> ssh2_normalize_host (h @ ''.'') = ssh2_normalize_host h)
   \<and> (last (CHR ''x'' # butlast h) \<noteq> CHR ''.'' \<longrightarrow>
        ssh2_normalize_host (ssh2_normalize_host h) = ssh2_normalize_host h)"
proof -
  have dot: "ascii_lower c = CHR ''.'' \<longleftrightarrow> c = CHR ''.''" for c
  proof
    assume l: "ascii_lower c = CHR ''.''"
    show "c = CHR ''.''"
    proof (rule ccontr)
      assume "c \<noteq> CHR ''.''"
      with l have r: "65 \<le> (of_char c :: nat)" "(of_char c :: nat) \<le> 90"
        and e: "char_of ((of_char c :: nat) + 32) = CHR ''.''"
        by (auto simp: ascii_lower_def split: if_splits)
      from e have "((of_char c :: nat) + 32) mod 256 = 46"
        using of_char_of [of "(of_char c :: nat) + 32"] by simp
      with r show False by simp
    qed
  qed (simp add: ascii_lower_def)
  have lastm: "xs \<noteq> [] \<Longrightarrow> last (map ascii_lower xs) = CHR ''.'' \<longleftrightarrow> last xs = CHR ''.''" for xs
    by (simp add: last_map dot)
  show ?thesis
    by (auto simp: ssh2_normalize_host_def Let_def lastm map_butlast comp_def
        simp flip: map_butlast)
qed

lemma normalize_host_canonical_example:
  "ssh2_normalize_host ''GitHub.COM.'' = ''github.com''
   \<and> ssh2_normalize_host (ssh2_normalize_host ''GitHub.COM.'') = ssh2_normalize_host ''GitHub.COM.''"
proof
  show "ssh2_normalize_host ''GitHub.COM.'' = ''github.com''" by code_simp
  have "last (CHR ''x'' # butlast ''GitHub.COM.'') \<noteq> CHR ''.''" by simp
  then show "ssh2_normalize_host (ssh2_normalize_host ''GitHub.COM.'') = ssh2_normalize_host ''GitHub.COM.''"
    using normalize_host_canonical [of "''GitHub.COM.''"] by blast
qed

end
