(* ===== verification/Ssh2_Defaults.thy ===== *)
theory Ssh2_Defaults
  imports Ssh2_Util
begin

text \<open>
  The process-global host key defaults of \<open>src/src/ssh2-module.cpp\<close>: the record
  \<open>Ssh2HostKeyDefaults\<close>, the parser of the environment variables
  \<open>QORE_SSH2_DEFAULT_*\<close> that gives the baseline when the module is loaded, and the setters
  and getters that are called later. Every function of the code holds the defaults' lock for
  its whole body, so each is one step on the record.
\<close>

section \<open>State and operations\<close>

record hk_defaults =
  def_verify :: bool
  def_policy :: int
  def_kh_mode :: int
  def_kh_path :: string

definition SSH2_KH_DEFAULT_AUTO :: int where "SSH2_KH_DEFAULT_AUTO = 0"
definition SSH2_KH_DEFAULT_DISABLED :: int where "SSH2_KH_DEFAULT_DISABLED = 1"
definition SSH2_KH_DEFAULT_EXPLICIT :: int where "SSH2_KH_DEFAULT_EXPLICIT = 2"

lemmas kh_consts = SSH2_KH_DEFAULT_AUTO_def SSH2_KH_DEFAULT_DISABLED_def SSH2_KH_DEFAULT_EXPLICIT_def

definition ssh2_defaults_init :: hk_defaults where
  "ssh2_defaults_init = \<lparr>def_verify = True, def_policy = SSH2_HOSTKEY_TOFU,
     def_kh_mode = SSH2_KH_DEFAULT_AUTO, def_kh_path = []\<rparr>"

definition ssh2_parse_env_bool :: "string option \<Rightarrow> bool \<Rightarrow> bool" where
  "ssh2_parse_env_bool val def =
     (case val of None \<Rightarrow> def
      | Some v \<Rightarrow>
          if v = [] then def
          else if strcaseeq v ''1'' \<or> strcaseeq v ''true'' \<or> strcaseeq v ''yes''
              \<or> strcaseeq v ''on'' then True
          else if strcaseeq v ''0'' \<or> strcaseeq v ''false'' \<or> strcaseeq v ''no''
              \<or> strcaseeq v ''off'' then False
          else def)"

definition parse_env_policy :: "string \<Rightarrow> int \<Rightarrow> int" where
  "parse_env_policy v def =
     (if strcaseeq v ''reject'' \<or> strcaseeq v ''0'' then SSH2_HOSTKEY_REJECT
      else if strcaseeq v ''tofu'' \<or> strcaseeq v ''1'' then SSH2_HOSTKEY_TOFU
      else if strcaseeq v ''tofu-session'' \<or> strcaseeq v ''tofu_session''
          \<or> strcaseeq v ''session'' \<or> strcaseeq v ''2'' then SSH2_HOSTKEY_TOFU_SESSION
      else def)"

text \<open>The arguments are the values of the three variables, \<open>None\<close> for one that is not set.\<close>

definition ssh2_init_host_key_defaults ::
  "string option \<Rightarrow> string option \<Rightarrow> string option \<Rightarrow> hk_defaults \<Rightarrow> hk_defaults" where
  "ssh2_init_host_key_defaults verify_env policy_env known_hosts_env d =
     (let d = (case verify_env of None \<Rightarrow> d
               | Some v \<Rightarrow> d\<lparr>def_verify := ssh2_parse_env_bool (Some v) (def_verify d)\<rparr>);
          d = (case policy_env of None \<Rightarrow> d
               | Some v \<Rightarrow> d\<lparr>def_policy := parse_env_policy v (def_policy d)\<rparr>)
      in case known_hosts_env of None \<Rightarrow> d
         | Some v \<Rightarrow>
             if v \<noteq> [] then d\<lparr>def_kh_mode := SSH2_KH_DEFAULT_EXPLICIT, def_kh_path := v\<rparr>
             else d\<lparr>def_kh_mode := SSH2_KH_DEFAULT_DISABLED, def_kh_path := []\<rparr>)"

definition ssh2_set_default_verify_host_key :: "bool \<Rightarrow> hk_defaults \<Rightarrow> hk_defaults" where
  "ssh2_set_default_verify_host_key v d = d\<lparr>def_verify := v\<rparr>"

definition valid_policy :: "int \<Rightarrow> bool" where
  "valid_policy p \<longleftrightarrow>
     p = SSH2_HOSTKEY_REJECT \<or> p = SSH2_HOSTKEY_TOFU \<or> p = SSH2_HOSTKEY_TOFU_SESSION"

definition ssh2_set_default_host_key_policy :: "int \<Rightarrow> hk_defaults \<Rightarrow> int \<times> hk_defaults" where
  "ssh2_set_default_host_key_policy policy d =
     (if policy \<noteq> SSH2_HOSTKEY_REJECT \<and> policy \<noteq> SSH2_HOSTKEY_TOFU
         \<and> policy \<noteq> SSH2_HOSTKEY_TOFU_SESSION then (-1, d)
      else (0, d\<lparr>def_policy := policy\<rparr>))"

text \<open>The path is only written when the mode is explicit; the caller's string is kept otherwise.\<close>

definition ssh2_get_default_known_hosts :: "string \<Rightarrow> hk_defaults \<Rightarrow> int \<times> string" where
  "ssh2_get_default_known_hosts path d =
     (def_kh_mode d, if def_kh_mode d = SSH2_KH_DEFAULT_EXPLICIT then def_kh_path d else path)"

definition ssh2_set_default_known_hosts ::
  "int \<Rightarrow> string option \<Rightarrow> hk_defaults \<Rightarrow> hk_defaults" where
  "ssh2_set_default_known_hosts mode path d =
     (let d = d\<lparr>def_kh_mode := mode\<rparr>
      in case path of
           Some p \<Rightarrow> (if mode = SSH2_KH_DEFAULT_EXPLICIT then d\<lparr>def_kh_path := p\<rparr>
                      else d\<lparr>def_kh_path := []\<rparr>)
         | None \<Rightarrow> d\<lparr>def_kh_path := []\<rparr>)"

section \<open>Reachable defaults\<close>

text \<open>
  The defaults a process can have: the static initial value, the environment read once when
  the module is loaded, and any sequence of setter calls. The wrapper of the last setter
  (\<open>SSH2Base::setDefaultKnownHostsFile\<close>) passes one of the three modes.
\<close>

inductive defaults_reachable :: "hk_defaults \<Rightarrow> bool" where
  loaded: "defaults_reachable (ssh2_init_host_key_defaults ve pe ke ssh2_defaults_init)"
| set_verify: "defaults_reachable d \<Longrightarrow> defaults_reachable (ssh2_set_default_verify_host_key v d)"
| set_policy: "defaults_reachable d \<Longrightarrow>
     defaults_reachable (snd (ssh2_set_default_host_key_policy p d))"
| set_known_hosts: "defaults_reachable d \<Longrightarrow> mode \<in> {SSH2_KH_DEFAULT_AUTO,
     SSH2_KH_DEFAULT_DISABLED, SSH2_KH_DEFAULT_EXPLICIT} \<Longrightarrow>
     defaults_reachable (ssh2_set_default_known_hosts mode path d)"

definition defaults_inv :: "hk_defaults \<Rightarrow> bool" where
  "defaults_inv d \<longleftrightarrow> valid_policy (def_policy d)
     \<and> def_kh_mode d \<in> {SSH2_KH_DEFAULT_AUTO, SSH2_KH_DEFAULT_DISABLED, SSH2_KH_DEFAULT_EXPLICIT}
     \<and> (def_kh_mode d \<noteq> SSH2_KH_DEFAULT_EXPLICIT \<longrightarrow> def_kh_path d = [])"

lemma parse_env_policy_valid: "valid_policy def \<Longrightarrow> valid_policy (parse_env_policy v def)"
  by (simp add: parse_env_policy_def valid_policy_def)

lemma defaults_inv_init:
  "defaults_inv d \<Longrightarrow> defaults_inv (ssh2_init_host_key_defaults ve pe ke d)"
  by (auto simp: ssh2_init_host_key_defaults_def defaults_inv_def Let_def kh_consts
      parse_env_policy_valid split: option.splits)

lemma defaults_inv_reachable: "defaults_reachable d \<Longrightarrow> defaults_inv d"
proof (induction rule: defaults_reachable.induct)
  case (loaded ve pe ke)
  have "defaults_inv ssh2_defaults_init"
    by (simp add: defaults_inv_def ssh2_defaults_init_def valid_policy_def kh_consts)
  then show ?case by (rule defaults_inv_init)
qed (auto simp: defaults_inv_def ssh2_set_default_verify_host_key_def
      ssh2_set_default_host_key_policy_def ssh2_set_default_known_hosts_def valid_policy_def
      Let_def split: option.splits)

section \<open>Properties\<close>

text \<open>
  C23 (invariant). Whatever the environment holds and whatever setters are called with, the
  process-global host key policy is one of the three policies, the known-hosts mode is one
  of the three modes, and a path is stored only in the explicit mode.
\<close>

theorem defaults_always_valid:
  assumes "defaults_reachable d"
  shows "valid_policy (def_policy d)
     \<and> def_kh_mode d \<in> {SSH2_KH_DEFAULT_AUTO, SSH2_KH_DEFAULT_DISABLED, SSH2_KH_DEFAULT_EXPLICIT}
     \<and> (def_kh_mode d \<noteq> SSH2_KH_DEFAULT_EXPLICIT \<longrightarrow> def_kh_path d = [])"
  using defaults_inv_reachable [OF assms] by (simp add: defaults_inv_def)

theorem defaults_always_valid_witness:
  "valid_policy (def_policy (snd (ssh2_set_default_host_key_policy 7
     (ssh2_init_host_key_defaults None (Some ''Session'') (Some ''/k'') ssh2_defaults_init))))"
  using defaults_always_valid
    [OF defaults_reachable.set_policy [OF defaults_reachable.loaded
       [of None "Some ''Session''" "Some ''/k''"]], of 7] by blast

text \<open>
  C24 (safety). A misspelt environment never turns host key verification off or weakens the
  policy: verification is off after loading only if the variable holds one of the four
  spellings of false, and the policy differs from persistent trust-on-first-use only if the
  variable names another policy.
\<close>

theorem env_defaults_fail_safe:
  "(\<not> def_verify (ssh2_init_host_key_defaults ve pe ke ssh2_defaults_init) \<longleftrightarrow>
      (\<exists>v. ve = Some v \<and> (\<exists>f \<in> {''0'', ''false'', ''no'', ''off''}. strcaseeq v f)))
   \<and> (def_policy (ssh2_init_host_key_defaults ve pe ke ssh2_defaults_init) = SSH2_HOSTKEY_TOFU_SESSION \<longleftrightarrow>
      (\<exists>v. pe = Some v \<and>
         (\<exists>f \<in> {''tofu-session'', ''tofu_session'', ''session'', ''2''}. strcaseeq v f)))"
proof -
  have b: "\<not> ssh2_parse_env_bool (Some v) True \<longleftrightarrow>
      (\<exists>f \<in> {''0'', ''false'', ''no'', ''off''}. strcaseeq v f)" for v
    by (auto simp: ssh2_parse_env_bool_def strcaseeq_def ascii_lower_def)
  have p: "parse_env_policy v SSH2_HOSTKEY_TOFU = SSH2_HOSTKEY_TOFU_SESSION \<longleftrightarrow>
      (\<exists>f \<in> {''tofu-session'', ''tofu_session'', ''session'', ''2''}. strcaseeq v f)" for v
    by (auto simp: parse_env_policy_def policy_consts strcaseeq_def ascii_lower_def)
  have ne: "SSH2_HOSTKEY_TOFU \<noteq> SSH2_HOSTKEY_TOFU_SESSION" by (simp add: policy_consts)
  show ?thesis
    by (simp add: ssh2_init_host_key_defaults_def ssh2_defaults_init_def Let_def b p ne
        split: option.splits)
qed

end
