(* ===== verification/Ssh2_Env.thy ===== *)
theory Ssh2_Env
  imports Ssh2_Defaults
begin

text \<open>
  The state of a client object and the code it runs on.

  \<open>'w client\<close> is the private data of one \<open>SSH2Client\<close> or \<open>SFTPClient\<close> object
  (\<open>src/src/SSH2Client.h\<close>, \<open>src/src/SFTPClient.h\<close>), with the channel and listener objects
  created from it, the exception sink, and the world outside the module. \<open>env\<close> is that
  world's code as a parameter: libssh2, Qore's socket, sandbox and value conversions, the
  operating system, the build options, and the \<open>Qore\<close> objects that are called back. No
  behaviour of it is fixed here; a theorem that relies on documented behaviour says so.
\<close>

section \<open>Values of the Qore language that the callbacks return\<close>

datatype qvalue =
    QNothing
  | QString string
  | QInt int
  | QBool bool
  | QBinary string
  | QDate int
  | QHash "(string \<times> qvalue) list"
  | QList "qvalue list"
  | QOther string

definition hash_get :: "(string \<times> qvalue) list \<Rightarrow> string \<Rightarrow> qvalue" where
  "hash_get h k = (case map_of h k of None \<Rightarrow> QNothing | Some v \<Rightarrow> v)"

text \<open>The types that the members of a \<open>hashdecl\<close> are declared with; \<open>TOpt\<close> is the star of \<open>*string\<close>.\<close>

datatype qtype =
    TString
  | TInt
  | TBool
  | TBinary
  | TDate
  | THash qtype
  | TList qtype
  | TOpt qtype

type_synonym hashdecl = "(string \<times> qtype) list"

section \<open>Results of the operating system and of libssh2\<close>

datatype errno = ENOENT | EEXIST | ENOTDIR | EOTHER int

datatype stat_result = StatOk mode | StatErr errno

datatype fsmode = QSEC_READ | QSEC_WRITE | QSEC_CREATE

text \<open>
  The result of \<open>libssh2_knownhost_checkp()\<close>; the code compares it with three constants and
  continues on any other value.
\<close>

datatype kh_check = CHECK_MATCH | CHECK_MISMATCH | CHECK_NOTFOUND | CHECK_FAILURE | CHECK_OTHER int

text \<open>The session errors that the code tells apart, and the SFTP status codes likewise.\<close>

datatype serr = ERR_SOCKET_SEND | ERR_SOCKET_RECV | ERR_SOCKET_DISCONNECT | ERR_SOCKET_TIMEOUT
  | ERR_SFTP_PROTOCOL | ERR_OTHER int

datatype fxerr = FX_NO_CONNECTION | FX_CONNECTION_LOST | FX_NO_SUCH_FILE | FX_OTHER int

text \<open>The hashes of a host key that the module asks for.\<close>

datatype hash_alg = HASH_MD5 | HASH_SHA1 | HASH_SHA256

text \<open>\<open>LIBSSH2_SFTP_ATTRIBUTES\<close>, and the flags of the fields that are valid.\<close>

record attrs =
  att_flags :: "64 word"
  att_filesize :: "64 word"
  att_uid :: "64 word"
  att_gid :: "64 word"
  att_permissions :: "64 word"
  att_atime :: "64 word"
  att_mtime :: "64 word"

definition LIBSSH2_SFTP_ATTR_UIDGID :: "64 word" where "LIBSSH2_SFTP_ATTR_UIDGID = 2"

definition LIBSSH2_SFTP_ATTR_PERMISSIONS :: "64 word" where "LIBSSH2_SFTP_ATTR_PERMISSIONS = 4"

text \<open>The result of reading a directory: would block, error, end, or an entry.\<close>

datatype rdir = DirEagain | DirErr int | DirEnd | DirEntry string attrs

definition is_dir_eagain :: "rdir \<Rightarrow> bool" where
  "is_dir_eagain r = (case r of DirEagain \<Rightarrow> True | _ \<Rightarrow> False)"

definition is_rd_eagain :: "rd \<Rightarrow> bool" where
  "is_rd_eagain r = (case r of RdEagain \<Rightarrow> True | _ \<Rightarrow> False)"

definition is_stat_eagain :: "lrc \<times> 'a \<Rightarrow> bool" where
  "is_stat_eagain r = is_eagain (fst r)"

lemma is_rd_eagain_simps [simp]:
  "is_rd_eagain RdEagain" "\<not> is_rd_eagain (RdErr e)" "\<not> is_rd_eagain (RdData d)"
  "is_dir_eagain DirEagain" "\<not> is_dir_eagain (DirErr e)" "\<not> is_dir_eagain DirEnd"
  "\<not> is_dir_eagain (DirEntry n a)" "is_stat_eagain (r, x) = is_eagain r"
  by (simp_all add: is_rd_eagain_def is_dir_eagain_def is_stat_eagain_def)

text \<open>The SFTP requests without a handle that return an \<open>int\<close>.\<close>

datatype sftp_req =
    ReqMkdir string int
  | ReqRmdir string
  | ReqRename string string
  | ReqUnlink string
  | ReqSymlink string string
  | ReqSetstat string attrs

text \<open>
  The requests on a channel that are one libssh2 call returning an \<open>int\<close>, with their
  arguments.
\<close>

datatype chan_req =
    ReqSetenv string string
  | ReqPty string "string option" int int int int
  | ReqShell
  | ReqWaitEof
  | ReqSendEof
  | ReqExec string
  | ReqSubsystem string
  | ReqClose
  | ReqWaitClosed
  | ReqX11 int bool "string option" "string option"
  | ReqExtendedNormal
  | ReqExtendedMerge
  | ReqExtendedIgnore
  | ReqPtySize int int int int
  | ReqSignal string
  | ReqAuthAgent

text \<open>The memory that libssh2 allocates and the module frees.\<close>

datatype lib_ptr = PtrString string | PtrAlgs "string list"

section \<open>The client object\<close>

text \<open>
  Pointers are modelled by what the code asks of them: \<open>ssh_session\<close> and \<open>sftp_session\<close> are
  true when the pointer is not null, objects (\<open>QoreObject*\<close>, channels, listeners) are
  numbers. \<open>session_blocking\<close> is the blocking flag of the libssh2 session. \<open>agent_live\<close> and
  \<open>nh_live\<close> say that an agent handle or a known-hosts context created from the session has
  not been freed, and \<open>handle_outlives\<close> is a history variable: it is set when the client gives
  the session up while one of them is live. Giving it up frees it, except when the free would
  block and the wait for it fails: then the code leaks it. \<open>is_sftp\<close> is the dynamic class of the object.
  \<open>xsink\<close> lists the codes of the exceptions raised so far.
\<close>

record 'w client =
  sshhost :: string
  sshuser :: string
  sshpass :: string
  sshkeys_pub :: string
  sshkeys_priv :: string
  sshkeys_priv_data :: string
  sshkeys_pub_data :: string
  sshkeys_passphrase :: string
  known_hosts_file :: string
  verify_host_key :: bool
  host_key_policy :: int
  host_key_store :: "nat option"
  client_identity_provider :: "nat option"
  client_auth_order :: int
  client_identity_fallback_policy :: int
  method_prefs :: "(int \<times> string) list"
  ssh_banner :: string
  sshport :: "32 word"
  keepalive_interval :: int
  use_agent :: bool
  explicit_key_files :: bool
  explicit_key_data :: bool
  auto_key_files :: bool
  auth_methods :: string
  sshauthenticatedwith :: "string option"
  connect_in_progress :: bool
  poll_op_in_progress :: bool
  channel_set :: "nat list"
  listener_set :: "nat list"
  sock :: "int option"
  session_fd_hold :: bool
  ssh_session :: bool
  is_sftp :: bool
  sftppath :: string
  sftp_session :: bool
  session_blocking :: bool
  chan_open :: "nat \<Rightarrow> bool"
  lsn_open :: "nat \<Rightarrow> bool"
  next_id :: nat
  agent_live :: bool
  nh_live :: bool
  handle_outlives :: bool
  xsink :: "string list"
  world :: 'w

section \<open>The environment\<close>

text \<open>
  \<open>'s\<close> is the whole state: the callbacks to \<open>Qore\<close> objects run with the client's lock
  released, so they may use the client itself. The callbacks return \<open>None\<close> when the called
  code raised an exception. \<open>os_write\<close> and \<open>is_read\<close> are the streams a caller passes: a write
  says whether it raised, a read gives the bytes or \<open>None\<close> when it raised; \<open>local_\<close>\<dots> are the
  operations of \<open>QoreFile\<close>, which raise \<open>file_exn\<close> when they do not succeed, and \<open>list_sort\<close>
  is the sorting of Qore lists. \<open>new_hash\<close> is the hash that Qore creates for a declaration and
  \<open>object_ref\<close> and \<open>object_deref\<close> take and release a reference to an object. A session that is only created to be
  queried is told from the client's own by a flag (true: the temporary one).
  The fields ending in \<open>_exn\<close> are the codes of exceptions that
  code outside the module raises.
\<close>

record ('w, 's) env =
  have_knownhost_api :: bool
  have_agent_api :: bool
  have_publickey_frommemory :: bool
  have_keepalive :: bool
  have_supported_algs :: bool
  have_trace :: bool
  method_defined :: "ssh_method \<Rightarrow> bool"
  no_filesystem :: bool
  sandboxed :: bool
  fs_allowed :: "string \<Rightarrow> fsmode list \<Rightarrow> 'w \<Rightarrow> bool"
  unix_allowed :: "string \<Rightarrow> 'w \<Rightarrow> bool"
  tcp_allowed :: "string \<Rightarrow> string \<Rightarrow> 'w \<Rightarrow> bool"
  sun_path_size :: nat
  resolve :: "string \<Rightarrow> int \<Rightarrow> 'w \<Rightarrow> string list option \<times> 'w"
  fs_exn :: string
  net_exn :: string
  resolve_exn :: string
  cancel_exn :: string
  connect_exn :: string
  convert_exn :: string
  check_cancel :: "'w \<Rightarrow> bool \<times> 'w"
  getpwuid :: "(string \<times> string) option"
  path_is_readable :: "string \<Rightarrow> 'w \<Rightarrow> bool"
  stat_path :: "string \<Rightarrow> 'w \<Rightarrow> stat_result"
  mkdir_path :: "string \<Rightarrow> nat \<Rightarrow> 'w \<Rightarrow> errno option \<times> 'w"
  getenv_auth_sock :: "'w \<Rightarrow> string option"
  monotonic_nanos :: "'w \<Rightarrow> int"
  to_qstring :: "qvalue \<Rightarrow> string option"
  to_qbool :: "qvalue \<Rightarrow> bool"
  connectINET :: "string \<Rightarrow> 32 word \<Rightarrow> int \<Rightarrow> 'w \<Rightarrow> int option \<times> 'w"
  hold_descriptor :: "int \<Rightarrow> 'w \<Rightarrow> bool \<times> 'w"
  async_io_wait :: "int \<Rightarrow> bool \<Rightarrow> bool \<Rightarrow> 'w \<Rightarrow> int \<times> 'w"
  start_connect :: "string \<Rightarrow> 'w \<Rightarrow> (string + bool) \<times> 'w"
  continue_connect :: "'w \<Rightarrow> (string + int) \<times> 'w"
  connect_fd :: "'w \<Rightarrow> int option"
  connect_extra :: "'w \<Rightarrow> (int \<times> bool \<times> bool) list"
  connect_timeout :: "'w \<Rightarrow> int"
  o_nonblock :: "32 word"
  fcntl_getfl :: "int \<Rightarrow> 'w \<Rightarrow> 32 word"
  fcntl_setfl :: "int \<Rightarrow> 32 word \<Rightarrow> 'w \<Rightarrow> int \<times> 'w"
  session_init :: "'w \<Rightarrow> bool \<times> 'w"
  session_method_pref :: "int \<Rightarrow> string \<Rightarrow> 'w \<Rightarrow> 'w"
  session_banner_set :: "string \<Rightarrow> 'w \<Rightarrow> 'w"
  session_handshake :: "int option \<Rightarrow> 'w \<Rightarrow> lrc \<times> 'w"
  block_directions :: "'w \<Rightarrow> bool \<times> bool"
  session_disconnect :: "'w \<Rightarrow> lrc \<times> 'w"
  session_free :: "'w \<Rightarrow> lrc \<times> 'w"
  session_last_errno :: "'w \<Rightarrow> serr"
  session_hostkey :: "'w \<Rightarrow> (string \<times> hostkey_type) option"
  hostkey_hash :: "hash_alg \<Rightarrow> 'w \<Rightarrow> string option"
  session_methods :: "ssh_method \<Rightarrow> 'w \<Rightarrow> string option"
  temp_session_init :: "'w \<Rightarrow> bool \<times> 'w"
  temp_session_free :: "'w \<Rightarrow> 'w"
  supported_algs :: "bool \<Rightarrow> int \<Rightarrow> 'w \<Rightarrow> (int + string list) \<times> 'w"
  lib_free :: "bool \<Rightarrow> lib_ptr \<Rightarrow> 'w \<Rightarrow> 'w"
  session_trace :: "int \<Rightarrow> 'w \<Rightarrow> 'w"
  session_banner_get :: "'w \<Rightarrow> string option"
  keepalive_config :: "int \<Rightarrow> 'w \<Rightarrow> 'w"
  knownhost_init :: "'w \<Rightarrow> bool \<times> 'w"
  knownhost_free :: "'w \<Rightarrow> 'w"
  knownhost_readfile :: "string \<Rightarrow> 'w \<Rightarrow> int \<times> 'w"
  knownhost_checkp :: "string \<Rightarrow> 32 word \<Rightarrow> string \<Rightarrow> knownhost_key \<Rightarrow> 'w \<Rightarrow> kh_check"
  knownhost_addc :: "string \<Rightarrow> string \<Rightarrow> knownhost_key \<Rightarrow> 'w \<Rightarrow> int \<times> 'w"
  knownhost_writefile :: "string \<Rightarrow> 'w \<Rightarrow> int \<times> 'w"
  userauth_list :: "string \<Rightarrow> 'w \<Rightarrow> string lptr \<times> 'w"
  userauth_password :: "string \<Rightarrow> string \<Rightarrow> 'w \<Rightarrow> lrc \<times> 'w"
  userauth_keyboard_interactive :: "string \<Rightarrow> (nat \<Rightarrow> string list) \<Rightarrow> 'w \<Rightarrow> lrc \<times> 'w"
  userauth_publickey_fromfile :: "string \<Rightarrow> string option \<Rightarrow> string \<Rightarrow> string \<Rightarrow> 'w \<Rightarrow> lrc \<times> 'w"
  userauth_publickey_frommemory :: "string \<Rightarrow> string option \<Rightarrow> string \<Rightarrow> string \<Rightarrow> 'w \<Rightarrow> lrc \<times> 'w"
  agent_init :: "'w \<Rightarrow> bool \<times> 'w"
  agent_connect :: "string \<Rightarrow> 'w \<Rightarrow> int \<times> 'w"
  agent_list_identities :: "'w \<Rightarrow> int \<times> 'w"
  agent_get_identity :: "nat option \<Rightarrow> 'w \<Rightarrow> nat option \<times> 'w"
  agent_userauth :: "string \<Rightarrow> nat \<Rightarrow> 'w \<Rightarrow> lrc \<times> 'w"
  agent_disconnect :: "'w \<Rightarrow> 'w"
  agent_free :: "'w \<Rightarrow> 'w"
  channel_open_session :: "'w \<Rightarrow> unit lptr \<times> 'w"
  channel_direct_tcpip :: "string \<Rightarrow> int \<Rightarrow> string \<Rightarrow> int \<Rightarrow> 'w \<Rightarrow> unit lptr \<times> 'w"
  channel_direct_streamlocal :: "string \<Rightarrow> string \<Rightarrow> int \<Rightarrow> 'w \<Rightarrow> unit lptr \<times> 'w"
  channel_forward_listen :: "string \<Rightarrow> int \<Rightarrow> int \<Rightarrow> 'w \<Rightarrow> int lptr \<times> 'w"
  channel_forward_accept :: "nat \<Rightarrow> 'w \<Rightarrow> unit lptr \<times> 'w"
  channel_forward_cancel :: "nat \<Rightarrow> 'w \<Rightarrow> 'w"
  scp_recv :: "string \<Rightarrow> 'w \<Rightarrow> unit lptr \<times> 'w"
  scp_send :: "string \<Rightarrow> int \<Rightarrow> nat \<Rightarrow> int \<Rightarrow> int \<Rightarrow> 'w \<Rightarrow> unit lptr \<times> 'w"
  channel_free :: "nat \<Rightarrow> 'w \<Rightarrow> 'w"
  channel_request :: "nat \<Rightarrow> chan_req \<Rightarrow> 'w \<Rightarrow> lrc \<times> 'w"
  channel_eof :: "nat \<Rightarrow> 'w \<Rightarrow> bool"
  channel_exit_signal :: "nat \<Rightarrow> 'w \<Rightarrow> (int \<times> string option \<times> string option \<times> string option) \<times> 'w"
  channel_exit_status :: "nat \<Rightarrow> 'w \<Rightarrow> int"
  channel_read :: "nat \<Rightarrow> int \<Rightarrow> nat \<Rightarrow> 'w \<Rightarrow> rd \<times> 'w"
  channel_write :: "nat \<Rightarrow> int \<Rightarrow> string \<Rightarrow> 'w \<Rightarrow> lrc \<times> 'w"
  os_write :: "string \<Rightarrow> 'w \<Rightarrow> bool \<times> 'w"
  is_read :: "nat \<Rightarrow> 'w \<Rightarrow> string option \<times> 'w"
  stream_exn :: string
  sftp_init :: "'w \<Rightarrow> unit lptr \<times> 'w"
  sftp_shutdown :: "'w \<Rightarrow> lrc \<times> 'w"
  sftp_last_error :: "'w \<Rightarrow> fxerr"
  sftp_realpath :: "string \<Rightarrow> 'w \<Rightarrow> rd \<times> 'w"
  sftp_stat :: "string \<Rightarrow> 'w \<Rightarrow> (lrc \<times> attrs) \<times> 'w"
  sftp_open_read :: "string \<Rightarrow> 64 word \<Rightarrow> 'w \<Rightarrow> unit lptr \<times> 'w"
  sftp_read :: "nat \<Rightarrow> 'w \<Rightarrow> rd \<times> 'w"
  sftp_close_handle :: "'w \<Rightarrow> lrc \<times> 'w"
  sftp_request :: "sftp_req \<Rightarrow> 'w \<Rightarrow> lrc \<times> 'w"
  sftp_opendir :: "string \<Rightarrow> 'w \<Rightarrow> unit lptr \<times> 'w"
  sftp_readdir :: "'w \<Rightarrow> rdir \<times> 'w"
  sftp_readlink :: "string \<Rightarrow> 'w \<Rightarrow> rd \<times> 'w"
  sftp_lstat :: "string \<Rightarrow> 'w \<Rightarrow> (lrc \<times> attrs) \<times> 'w"
  sftp_statvfs :: "string \<Rightarrow> 'w \<Rightarrow> (lrc \<times> int list) \<times> 'w"
  sftp_open_write :: "string \<Rightarrow> int \<Rightarrow> 'w \<Rightarrow> unit lptr \<times> 'w"
  sftp_write :: "string \<Rightarrow> 'w \<Rightarrow> lrc \<times> 'w"
  new_hash :: "hashdecl \<Rightarrow> (string \<times> qvalue) list"
  object_ref :: "nat \<Rightarrow> 'w \<Rightarrow> 'w"
  object_deref :: "nat \<Rightarrow> 'w \<Rightarrow> 'w"
  list_sort :: "string list \<Rightarrow> string list"
  local_open_write :: "string \<Rightarrow> int \<Rightarrow> 'w \<Rightarrow> bool \<times> 'w"
  local_write :: "string \<Rightarrow> 'w \<Rightarrow> bool \<times> 'w"
  local_open_read :: "string \<Rightarrow> 'w \<Rightarrow> bool \<times> 'w"
  local_fstat :: "'w \<Rightarrow> (int \<times> 64 word) option"
  local_read :: "nat \<Rightarrow> 'w \<Rightarrow> string option \<times> 'w"
  file_exn :: string
  store_call :: "nat \<Rightarrow> string \<Rightarrow> (string \<times> qvalue) list \<Rightarrow> (string \<times> qvalue) list \<Rightarrow>
    's \<Rightarrow> qvalue option \<times> 's"
  provider_candidates :: "nat \<Rightarrow> (string \<times> qvalue) list \<Rightarrow> 's \<Rightarrow> qvalue option \<times> 's"
  provider_material :: "nat \<Rightarrow> (string \<times> qvalue) list \<Rightarrow> (string \<times> qvalue) list \<Rightarrow>
    's \<Rightarrow> qvalue option \<times> 's"

type_synonym ('w, 'm) cst = "('w, 'm) client_scheme"
type_synonym ('w, 'm) cenv = "('w, ('w, 'm) client_scheme) env"

text \<open>A call into the world: it changes nothing of the client.\<close>

definition call_ext :: "('w \<Rightarrow> 'r \<times> 'w) \<Rightarrow> ('w, 'm) cst \<Rightarrow> 'r \<times> ('w, 'm) cst" where
  "call_ext f s = (case f (world s) of (r, w) \<Rightarrow> (r, s\<lparr>world := w\<rparr>))"

definition run_ext :: "('w \<Rightarrow> 'w) \<Rightarrow> ('w, 'm) cst \<Rightarrow> ('w, 'm) cst" where
  "run_ext f s = s\<lparr>world := f (world s)\<rparr>"

lemma call_ext_eq: "call_ext f s = (r, t) \<Longrightarrow> \<exists>w. f (world s) = (r, w) \<and> t = s\<lparr>world := w\<rparr>"
  by (auto simp: call_ext_def split: prod.splits)

lemma call_ext_eq_pair: "call_ext f s = (fst (f (world s)), s\<lparr>world := snd (f (world s))\<rparr>)"
  by (simp add: call_ext_def case_prod_unfold)

text \<open>
  Raising an exception; the flag says that the caller passed an exception sink, as the code
  tests with \<open>xsink && ...\<close>.
\<close>

definition raise :: "bool \<Rightarrow> string \<Rightarrow> ('w, 'm) cst \<Rightarrow> ('w, 'm) cst" where
  "raise have_xsink code s = (if have_xsink then s\<lparr>xsink := xsink s @ [code]\<rparr> else s)"

text \<open>\<open>qore_check_cancel()\<close> raises an exception when the thread was cancelled.\<close>

definition qore_check_cancel :: "('w, 'm) cenv \<Rightarrow> ('w, 'm) cst \<Rightarrow> bool \<times> ('w, 'm) cst" where
  "qore_check_cancel E s =
     (case call_ext (check_cancel E) s of (b, s) \<Rightarrow> (b, if b then raise True (cancel_exn E) s else s))"

end
