(* ===== verification/Ssh2_Example.thy ===== *)
theory Ssh2_Example
  imports Ssh2_Env
begin

text \<open>
  A concrete environment and client for the witnesses. Its world counts how often the library
  will still report that it would block; while that is positive, every call that can block
  does, and each successful wait for the socket lowers it. All other calls succeed, and the
  calls that matter for the order of events are written to a log. The witnesses override the
  single behaviour they are about.
\<close>

record tworld =
  pending :: nat
  log :: "string list"

definition logged :: "string \<Rightarrow> tworld \<Rightarrow> tworld" where
  "logged m w = w\<lparr>log := log w @ [m]\<rparr>"

definition blocks :: "string \<Rightarrow> lrc \<Rightarrow> tworld \<Rightarrow> lrc \<times> tworld" where
  "blocks m r w = (if pending w > 0 then (Eagain, w) else (r, logged m w))"

definition pblocks :: "string \<Rightarrow> 'h \<Rightarrow> tworld \<Rightarrow> 'h lptr \<times> tworld" where
  "pblocks m h w = (if pending w > 0 then (NullEagain, w) else (Got h, logged m w))"

definition wait0 :: "int \<Rightarrow> bool \<Rightarrow> bool \<Rightarrow> tworld \<Rightarrow> int \<times> tworld" where
  "wait0 tmo rd wr w = (if pending w > 0 then (1, w\<lparr>pending := pending w - 1\<rparr>) else (0, w))"

definition attrs0 :: attrs where
  "attrs0 = \<lparr>att_flags = 15, att_filesize = 3, att_uid = 0, att_gid = 0, att_permissions = 0x81A4,
     att_atime = 0, att_mtime = 0\<rparr>"

definition env0 :: "(tworld, 's) env" where
  "env0 = \<lparr>
     have_knownhost_api = True, have_agent_api = True, have_publickey_frommemory = True,
     have_keepalive = True, have_supported_algs = True, have_trace = True, method_defined = (\<lambda>_. True),
     no_filesystem = False, sandboxed = False,
     fs_allowed = (\<lambda>_ _ _. True), unix_allowed = (\<lambda>_ _. True), tcp_allowed = (\<lambda>_ _ _. True),
     sun_path_size = 108, resolve = (\<lambda>h p w. (Some [h], w)),
     fs_exn = ''FILESYSTEM-ACCESS-DENIED'', net_exn = ''NETWORK-ACCESS-DENIED'',
     resolve_exn = ''QOREADDRINFO-GETINFO-ERROR'', cancel_exn = ''THREAD-CANCELLED'',
     connect_exn = ''SOCKET-CONNECT-ERROR'', convert_exn = ''ENCODING-CONVERSION-ERROR'',
     check_cancel = (\<lambda>w. (False, w)), getpwuid = Some (''joe'', ''/home/joe''),
     path_is_readable = (\<lambda>_ _. True), stat_path = (\<lambda>_ _. StatErr ENOENT),
     mkdir_path = (\<lambda>_ _ w. (None, w)), getenv_auth_sock = (\<lambda>_. Some ''/agent''),
     monotonic_nanos = (\<lambda>_. 0),
     to_qstring = (\<lambda>v. case v of QString s \<Rightarrow> Some s | _ \<Rightarrow> Some []),
     to_qbool = (\<lambda>v. case v of QBool b \<Rightarrow> b | _ \<Rightarrow> False),
     connectINET = (\<lambda>h p t w. (Some 5, w)), hold_descriptor = (\<lambda>fd w. (False, w)),
     async_io_wait = wait0, start_connect = (\<lambda>t w. (Inr True, w)),
     continue_connect = (\<lambda>w. (Inr 0, w)), connect_fd = (\<lambda>_. Some 5),
     connect_extra = (\<lambda>_. []), connect_timeout = (\<lambda>_. -1),
     o_nonblock = 0x800, fcntl_getfl = (\<lambda>fd w. 2), fcntl_setfl = (\<lambda>fd f w. (0, w)), session_init = (\<lambda>w. (True, logged ''init'' w)),
     session_method_pref = (\<lambda>_ _ w. w), session_banner_set = (\<lambda>_ w. w),
     session_handshake = (\<lambda>fd. blocks ''handshake'' (Ret 0)),
     block_directions = (\<lambda>_. (True, False)), session_disconnect = blocks ''disconnect'' (Ret 0),
     session_free = blocks ''free'' (Ret 0), session_last_errno = (\<lambda>_. ERR_OTHER (-1)),
     session_hostkey = (\<lambda>_. Some (''KEY'', HK_ED25519)),
     hostkey_hash = (\<lambda>_ _. None), session_methods = (\<lambda>_ _. Some ''none''),
     temp_session_init = (\<lambda>w. (True, logged ''temp-init'' w)),
     temp_session_free = logged ''temp-free'', supported_algs = (\<lambda>_ _ w. (Inr [''aes128-ctr''], logged ''algs'' w)),
     lib_free = (\<lambda>_ _. logged ''lib-free''), session_trace = (\<lambda>_. logged ''trace''),
     session_banner_get = (\<lambda>_. Some ''SSH-2.0''), keepalive_config = (\<lambda>_ w. w),
     knownhost_init = (\<lambda>w. (True, w)), knownhost_free = (\<lambda>w. w),
     knownhost_readfile = (\<lambda>_ w. (1, w)), knownhost_checkp = (\<lambda>_ _ _ _ _. CHECK_MATCH),
     knownhost_addc = (\<lambda>_ _ _ w. (0, w)), knownhost_writefile = (\<lambda>_ w. (0, w)),
     userauth_list = (\<lambda>u. pblocks ''authlist'' ''publickey,password''),
     userauth_password = (\<lambda>u p. blocks ''password'' (Ret 0)),
     userauth_keyboard_interactive = (\<lambda>u f. blocks ''kbd'' (Ret 0)),
     userauth_publickey_fromfile = (\<lambda>u a b c. blocks ''pubkey-file'' (Ret 0)),
     userauth_publickey_frommemory = (\<lambda>u a b c. blocks ''pubkey-memory'' (Ret 0)),
     agent_init = (\<lambda>w. (True, w)), agent_connect = (\<lambda>_ w. (0, w)),
     agent_list_identities = (\<lambda>w. (0, w)),
     agent_get_identity = (\<lambda>p w. (case p of None \<Rightarrow> Some 0 | Some _ \<Rightarrow> None, w)),
     agent_userauth = (\<lambda>u i. blocks ''agent'' (Ret 0)), agent_disconnect = (\<lambda>w. w),
     agent_free = (\<lambda>w. w), channel_open_session = pblocks ''open-session'' (),
     channel_direct_tcpip = (\<lambda>_ _ _ _. pblocks ''direct-tcpip'' ()),
     channel_direct_streamlocal = (\<lambda>_ _ _. pblocks ''direct-streamlocal'' ()),
     channel_forward_listen = (\<lambda>_ _ _. pblocks ''forward-listen'' 2222),
     channel_forward_accept = (\<lambda>_. pblocks ''forward-accept'' ()),
     channel_forward_cancel = (\<lambda>_. logged ''forward-cancel''),
     scp_recv = (\<lambda>_. pblocks ''scp-recv'' ()), scp_send = (\<lambda>_ _ _ _ _. pblocks ''scp-send'' ()),
     channel_free = (\<lambda>_. logged ''channel-free''),
     channel_request = (\<lambda>_ _. blocks ''request'' (Ret 0)), channel_eof = (\<lambda>_ _. False),
     channel_exit_signal = (\<lambda>_ w. ((0, Some ''TERM'', None, Some []), w)),
     channel_exit_status = (\<lambda>_ _. 0), channel_read = (\<lambda>_ _ _ w. (RdData [], w)),
     channel_write = (\<lambda>_ _ d. blocks ''write'' (Ret (int (length d)))),
     os_write = (\<lambda>d w. (False, logged d w)), is_read = (\<lambda>n w. (Some (take n ''xyz''), w)),
     stream_exn = ''STREAM-ERROR'', sftp_init = pblocks ''sftp-init'' (), sftp_shutdown = blocks ''sftp-shutdown'' (Ret 0),
     sftp_last_error = (\<lambda>_. FX_OTHER 4), sftp_realpath = (\<lambda>_ w. (RdData ''/home/joe'', w)),
     sftp_stat = (\<lambda>_ w. ((Ret 0, attrs0), w)),
     sftp_open_read = (\<lambda>_ _. pblocks ''open'' ()), sftp_read = (\<lambda>n w. (RdData (take n ''abc''), w)),
     sftp_close_handle = blocks ''close'' (Ret 0), sftp_request = (\<lambda>_. blocks ''sftp-request'' (Ret 0)),
     sftp_opendir = (\<lambda>_. pblocks ''opendir'' ()), sftp_readdir = (\<lambda>w. (DirEnd, w)),
     sftp_readlink = (\<lambda>_ w. (RdData ''/target'', w)), sftp_lstat = (\<lambda>_ w. ((Ret 0, attrs0), w)),
     sftp_statvfs = (\<lambda>_ w. ((Ret 0, [4096]), w)), sftp_open_write = (\<lambda>_ _. pblocks ''open-write'' ()),
     sftp_write = (\<lambda>d. blocks ''sftp-write'' (Ret (int (length d)))), new_hash = (\<lambda>_. []),
     object_ref = (\<lambda>_. logged ''ref''),
     object_deref = (\<lambda>_. logged ''deref''), list_sort = (\<lambda>l. l),
     local_open_write = (\<lambda>_ _ w. (True, w)), local_write = (\<lambda>d w. (True, logged d w)),
     local_open_read = (\<lambda>_ w. (True, w)), local_fstat = (\<lambda>_. Some (0x81A4, 3)),
     local_read = (\<lambda>n w. (Some (take n ''xyz''), w)), file_exn = ''FILE-OPEN2-ERROR'',
     store_call = (\<lambda>_ _ _ _ s. (Some (QHash [(''decision'', QString ''matched'')]), s)),
     provider_candidates = (\<lambda>_ _ s. (Some (QList []), s)),
     provider_material = (\<lambda>_ _ _ s. (None, s))\<rparr>"

abbreviation tenv :: "(tworld, tworld client) env" where
  "tenv \<equiv> env0"

definition client0 :: "tworld client" where
  "client0 = \<lparr>
     sshhost = ''h'', sshuser = ''joe'', sshpass = ''pw'', sshkeys_pub = [], sshkeys_priv = [],
     sshkeys_priv_data = [], sshkeys_pub_data = [], sshkeys_passphrase = [],
     known_hosts_file = ''/k'', verify_host_key = True, host_key_policy = 1,
     host_key_store = None, client_identity_provider = None, client_auth_order = 0,
     client_identity_fallback_policy = 0, method_prefs = [], ssh_banner = [], sshport = 22,
     keepalive_interval = 60, use_agent = False, explicit_key_files = False,
     explicit_key_data = False, auto_key_files = False, auth_methods = [],
     sshauthenticatedwith = None, connect_in_progress = False, poll_op_in_progress = False,
     channel_set = [], listener_set = [], sock = None, session_fd_hold = False,
     ssh_session = False, is_sftp = False, sftppath = [], sftp_session = False,
     session_blocking = False, chan_open = (\<lambda>_. False), lsn_open = (\<lambda>_. False), next_id = 0,
     agent_live = False, nh_live = False, handle_outlives = False, xsink = [],
     world = \<lparr>pending = 0, log = []\<rparr>\<rparr>"

text \<open>The same client with an established session, as an \<open>SSH2Client\<close> and as an \<open>SFTPClient\<close>.\<close>

definition client_up :: "tworld client" where
  "client_up = client0\<lparr>ssh_session := True, sock := Some 5, session_fd_hold := True,
     session_blocking := True, sshauthenticatedwith := Some ''password''\<rparr>"

definition sftp_up :: "tworld client" where
  "sftp_up = client_up\<lparr>is_sftp := True, sftp_session := True, sftppath := ''/home/joe''\<rparr>"

lemmas example_defs = env0_def client0_def client_up_def sftp_up_def attrs0_def blocks_def
  pblocks_def wait0_def logged_def

end
