(* ===== verification/Ssh2_Client.thy ===== *)
theory Ssh2_Client
  imports Ssh2_Example
begin

text \<open>
  The connection core of \<open>SSH2Client\<close> and \<open>SFTPClient\<close>: waiting for the socket, the
  registries of channels and listeners, and \<open>disconnectUnlocked()\<close>, which every failure path
  of the module runs. Its effect is stated once, as the function \<open>disc_state\<close>; the proofs of
  the other theories use that equation.
\<close>

section \<open>Connection state\<close>

definition DEFAULT_TIMEOUT_MS :: int where "DEFAULT_TIMEOUT_MS = 10000"

definition sshSessionActiveUnlocked :: "('w, 'm) cst \<Rightarrow> bool" where
  "sshSessionActiveUnlocked s \<longleftrightarrow> connect_in_progress s \<or> poll_op_in_progress s \<or> ssh_session s"

definition sshConnectedUnlocked :: "('w, 'm) cst \<Rightarrow> bool" where
  "sshConnectedUnlocked s \<longleftrightarrow> ssh_session s \<and> \<not> connect_in_progress s \<and> sock s \<noteq> None"

definition checkPollOpUnlocked :: "bool \<Rightarrow> ('w, 'm) cst \<Rightarrow> int \<times> ('w, 'm) cst" where
  "checkPollOpUnlocked x s =
     (if poll_op_in_progress s then (-1, raise x ''SSH2-POLL-IN-PROGRESS'' s) else (0, s))"

definition setBlockingUnlocked :: "bool \<Rightarrow> ('w, 'm) cst \<Rightarrow> ('w, 'm) cst" where
  "setBlockingUnlocked b s = (if ssh_session s then s\<lparr>session_blocking := b\<rparr> else s)"

definition closeTransportUnlocked :: "('w, 'm) cst \<Rightarrow> ('w, 'm) cst" where
  "closeTransportUnlocked s = s\<lparr>sock := None, session_fd_hold := False\<rparr>"

text \<open>
  \<open>closeIo()\<close>: called by the async I/O controller without the lock; the session and its hold
  on the descriptor stay.
\<close>

definition closeIo :: "('w, 'm) cst \<Rightarrow> ('w, 'm) cst" where
  "closeIo s = s\<lparr>sock := None\<rparr>"

section \<open>Waiting for the socket\<close>

definition waitSocketRaw :: "('w, 'm) cenv \<Rightarrow> int \<Rightarrow> ('w, 'm) cst \<Rightarrow> int \<times> ('w, 'm) cst" where
  "waitSocketRaw E tmo s =
     (case block_directions E (world s) of (rd, wr) \<Rightarrow> call_ext (async_io_wait E tmo rd wr) s)"

text \<open>
  The helper that is told before a disconnect (\<open>AbstractDisconnectionHelper\<close>); \<open>None\<close> is the
  null pointer.
\<close>

type_synonym ('w, 'm) adh = "(('w, 'm) cst \<Rightarrow> (int \<times> ('w, 'm) cst) option) option"

definition preDisconnect :: "('w, 'm) adh \<Rightarrow> ('w, 'm) cst \<Rightarrow> (int \<times> ('w, 'm) cst) option" where
  "preDisconnect adh s = (case adh of None \<Rightarrow> Some (0, s) | Some f \<Rightarrow> f s)"

text \<open>
  \<open>waitSocketUnlocked()\<close> with the disconnection as a parameter: \<open>disconnectUnlocked()\<close> itself
  waits with \<open>in_disconnect\<close> set, and then no disconnection is made from here.
\<close>

definition waitSocket_with ::
  "(bool \<Rightarrow> int \<Rightarrow> ('w, 'm) adh \<Rightarrow> bool \<Rightarrow> ('w, 'm) cst \<Rightarrow> (int \<times> ('w, 'm) cst) option) \<Rightarrow>
   ('w, 'm) cenv \<Rightarrow> bool \<Rightarrow> string \<Rightarrow> string \<Rightarrow> int \<Rightarrow> bool \<Rightarrow> ('w, 'm) adh \<Rightarrow> ('w, 'm) cst \<Rightarrow>
   (int \<times> ('w, 'm) cst) option" where
  "waitSocket_with disc E x toerr err tmo in_disconnect adh s =
     (let dtmo = max tmo DEFAULT_TIMEOUT_MS;
          (cancelled, s) = (if \<not> in_disconnect \<and> x then qore_check_cancel E s else (False, s))
      in if cancelled then do { (_, s) \<leftarrow> disc True dtmo adh x s; Some (-1, s) }
         else
           (case waitSocketRaw E tmo s of (rc, s) \<Rightarrow>
              if rc = 0 then
                (let s = raise x toerr s
                 in if in_disconnect then Some (-1, s)
                    else do { (_, s) \<leftarrow> disc True dtmo adh x s; Some (-1, s) })
              else if rc < 0 then
                (let s = raise x err s
                 in if in_disconnect then Some (-1, s)
                    else do { (_, s) \<leftarrow> disc True dtmo adh x s; Some (-1, s) })
              else Some (0, s)))"

definition wait_in_disconnect ::
  "('w, 'm) cenv \<Rightarrow> bool \<Rightarrow> string \<Rightarrow> string \<Rightarrow> int \<Rightarrow> ('w, 'm) cst \<Rightarrow> (int \<times> ('w, 'm) cst) option" where
  "wait_in_disconnect E x toerr err tmo s =
     waitSocket_with (\<lambda>_ _ _ _ s. Some (0, s)) E x toerr err tmo True None s"

section \<open>Channels and listeners\<close>

text \<open>\<open>SSH2Channel::closeUnlocked()\<close> and \<open>SSH2Listener::cancelUnlocked()\<close>.\<close>

definition channel_closeUnlocked :: "('w, 'm) cenv \<Rightarrow> nat \<Rightarrow> ('w, 'm) cst \<Rightarrow> ('w, 'm) cst" where
  "channel_closeUnlocked E c s =
     (run_ext (channel_free E c) s)\<lparr>chan_open := (chan_open s)(c := False)\<rparr>"

definition listenerDeletedUnlocked :: "nat \<Rightarrow> ('w, 'm) cst \<Rightarrow> ('w, 'm) cst" where
  "listenerDeletedUnlocked l s = s\<lparr>listener_set := removeAll l (listener_set s)\<rparr>"

definition channelDeletedUnlocked :: "nat \<Rightarrow> ('w, 'm) cst \<Rightarrow> ('w, 'm) cst" where
  "channelDeletedUnlocked c s = s\<lparr>channel_set := removeAll c (channel_set s)\<rparr>"

definition listener_cancelUnlocked :: "('w, 'm) cenv \<Rightarrow> nat \<Rightarrow> ('w, 'm) cst \<Rightarrow> ('w, 'm) cst" where
  "listener_cancelUnlocked E l s =
     (if lsn_open s l then
        (let s = listenerDeletedUnlocked l s
         in (run_ext (channel_forward_cancel E l) s)\<lparr>lsn_open := (lsn_open s)(l := False)\<rparr>)
      else s)"

text \<open>
  The new channel object is registered with the lock held; its number is fresh, as the
  address of a new object is.
\<close>

definition registerChannelUnlockedRaw :: "('w, 'm) cst \<Rightarrow> nat \<times> ('w, 'm) cst" where
  "registerChannelUnlockedRaw s =
     (let c = next_id s
      in (c, s\<lparr>chan_open := (chan_open s)(c := True), channel_set := channel_set s @ [c],
               next_id := Suc c\<rparr>))"

section \<open>Disconnecting\<close>

definition BlockingHelper_ctor :: "('w, 'm) cst \<Rightarrow> ('w, 'm) cst" where
  "BlockingHelper_ctor s = setBlockingUnlocked False s"

definition BlockingHelper_dtor :: "('w, 'm) cst \<Rightarrow> ('w, 'm) cst" where
  "BlockingHelper_dtor s = setBlockingUnlocked True s"

text \<open>\<open>SFTPClient::doShutdown()\<close>; the blocking mode is restored when the helper goes out of scope.\<close>

definition doShutdown :: "('w, 'm) cenv \<Rightarrow> int \<Rightarrow> bool \<Rightarrow> ('w, 'm) cst \<Rightarrow> (int \<times> ('w, 'm) cst) option" where
  "doShutdown E tmo x s =
     (if sftp_session s then
        do { (_, s) \<leftarrow> retry_loop is_eagain (call_ext (sftp_shutdown E))
               (wait_in_disconnect E x ''SFTPCLIENT-TIMEOUT'' ''SFTPCLIENT-DISCONNECT'' tmo)
               (BlockingHelper_ctor s);
             Some (0, BlockingHelper_dtor (s\<lparr>sftp_session := False\<rparr>)) }
      else Some (0, s))"

text \<open>
  The session is given up: it was freed, or it is leaked because the wait for the free failed.
  In both cases the pointer is cleared, and an agent handle or a known-hosts context created
  from the session that is still live now outlives the client's session.
\<close>

definition session_given_up :: "('w, 'm) cst \<Rightarrow> ('w, 'm) cst" where
  "session_given_up s = s\<lparr>ssh_session := False,
     handle_outlives := handle_outlives s \<or> agent_live s \<or> nh_live s\<rparr>"

definition ssh_disconnectUnlocked ::
  "('w, 'm) cenv \<Rightarrow> bool \<Rightarrow> int \<Rightarrow> ('w, 'm) adh \<Rightarrow> bool \<Rightarrow> ('w, 'm) cst \<Rightarrow> (int \<times> ('w, 'm) cst) option" where
  "ssh_disconnectUnlocked E force tmo adh x s =
     (let s = fold (listener_cancelUnlocked E) (listener_set s) s;
          s = s\<lparr>listener_set := []\<rparr>;
          s = fold (channel_closeUnlocked E) (channel_set s) s;
          s = s\<lparr>channel_set := []\<rparr>;
          wait = wait_in_disconnect E x ''SSH2CLIENT-TIMEOUT'' ''SSSHCLIENT-DISCONNECT'' tmo
      in do {
        (_, s) \<leftarrow>
          (if \<not> ssh_session s then
             Some (0 :: int, if \<not> force then raise x ''SSH2CLIENT-NOT-CONNECTED'' s else s)
           else do {
             (_, s) \<leftarrow> preDisconnect adh s;
             (_, s) \<leftarrow> retry_loop is_eagain (call_ext (session_disconnect E)) wait
                        (setBlockingUnlocked False s);
             (_, s) \<leftarrow> retry_loop is_eagain (call_ext (session_free E)) wait s;
             Some (0, session_given_up s) });
        Some (0, closeTransportUnlocked (s\<lparr>sshauthenticatedwith := None\<rparr>)) })"

definition sftp_disconnectUnlocked ::
  "('w, 'm) cenv \<Rightarrow> bool \<Rightarrow> int \<Rightarrow> ('w, 'm) adh \<Rightarrow> bool \<Rightarrow> ('w, 'm) cst \<Rightarrow> (int \<times> ('w, 'm) cst) option" where
  "sftp_disconnectUnlocked E force tmo adh x s =
     do { (_, s) \<leftarrow> preDisconnect adh s;
          (_, s) \<leftarrow> doShutdown E tmo x s;
          ssh_disconnectUnlocked E force tmo None x s }"

text \<open>The virtual call.\<close>

definition disconnectUnlocked ::
  "('w, 'm) cenv \<Rightarrow> bool \<Rightarrow> int \<Rightarrow> ('w, 'm) adh \<Rightarrow> bool \<Rightarrow> ('w, 'm) cst \<Rightarrow> (int \<times> ('w, 'm) cst) option" where
  "disconnectUnlocked E force tmo adh x s =
     (if is_sftp s then sftp_disconnectUnlocked E force tmo adh x s
      else ssh_disconnectUnlocked E force tmo adh x s)"

text \<open>\<open>disconnectUnlocked(true)\<close>: the default timeout, no helper and no exception sink.\<close>

definition force_disconnect :: "('w, 'm) cenv \<Rightarrow> ('w, 'm) cst \<Rightarrow> (int \<times> ('w, 'm) cst) option" where
  "force_disconnect E s = disconnectUnlocked E True DEFAULT_TIMEOUT_MS None False s"

definition waitSocketUnlocked ::
  "('w, 'm) cenv \<Rightarrow> string \<Rightarrow> string \<Rightarrow> int \<Rightarrow> ('w, 'm) adh \<Rightarrow> bool \<Rightarrow> ('w, 'm) cst \<Rightarrow>
   (int \<times> ('w, 'm) cst) option" where
  "waitSocketUnlocked E toerr err tmo adh x s =
     waitSocket_with (disconnectUnlocked E) E x toerr err tmo False adh s"

text \<open>\<open>SSH2Client::disconnect()\<close>, the public operation.\<close>

definition disconnect :: "('w, 'm) cenv \<Rightarrow> bool \<Rightarrow> int \<Rightarrow> bool \<Rightarrow> ('w, 'm) cst \<Rightarrow> (int \<times> ('w, 'm) cst) option" where
  "disconnect E force tmo x s =
     (case checkPollOpUnlocked x s of (rc, s) \<Rightarrow>
        if rc \<noteq> 0 then Some (-1, s)
        else if connect_in_progress s then Some (-1, raise x ''SSH2-CONNECT-IN-PROGRESS'' s)
        else disconnectUnlocked E force tmo None x s)"

text \<open>
  The destructors: in \<open>~SSH2Client()\<close> the object is an \<open>SSH2Client\<close> whatever its dynamic class
  was, so the call of \<open>disconnectUnlocked()\<close> there is the one of that class, and
  \<open>~SFTPClient()\<close> has shut the SFTP session down before.
\<close>

definition deref_object :: "('w, 'm) cenv \<Rightarrow> nat option \<Rightarrow> ('w, 'm) cst \<Rightarrow> ('w, 'm) cst" where
  "deref_object E ob s = (case ob of None \<Rightarrow> s | Some n \<Rightarrow> run_ext (object_deref E n) s)"

definition ref_object :: "('w, 'm) cenv \<Rightarrow> nat option \<Rightarrow> ('w, 'm) cst \<Rightarrow> ('w, 'm) cst" where
  "ref_object E ob s = (case ob of None \<Rightarrow> s | Some n \<Rightarrow> run_ext (object_ref E n) s)"

definition SSH2Client_destructor :: "('w, 'm) cenv \<Rightarrow> ('w, 'm) cst \<Rightarrow> (unit \<times> ('w, 'm) cst) option" where
  "SSH2Client_destructor E s =
     do { (_, s) \<leftarrow> ssh_disconnectUnlocked E True DEFAULT_TIMEOUT_MS None False s;
          Some ((), deref_object E (host_key_store s) (deref_object E (client_identity_provider s) s)) }"

definition SFTPClient_destructor :: "('w, 'm) cenv \<Rightarrow> ('w, 'm) cst \<Rightarrow> (unit \<times> ('w, 'm) cst) option" where
  "SFTPClient_destructor E s =
     do { (_, s) \<leftarrow> doShutdown E DEFAULT_TIMEOUT_MS False s;
          SSH2Client_destructor E s }"

definition client_destructor :: "('w, 'm) cenv \<Rightarrow> ('w, 'm) cst \<Rightarrow> (unit \<times> ('w, 'm) cst) option" where
  "client_destructor E s = (if is_sftp s then SFTPClient_destructor E s else SSH2Client_destructor E s)"

section \<open>Input and output steps\<close>

text \<open>
  \<open>core s\<close> is the state without the world and the exceptions; \<open>io_step x s t\<close> says that only
  these two changed from \<open>s\<close> to \<open>t\<close>, that exceptions were only added, and none without a
  sink.
\<close>

definition core :: "('w, 'm) cst \<Rightarrow> ('w, 'm) cst" where
  "core s = s\<lparr>world := undefined, xsink := []\<rparr>"

lemma core_eq_sel:
  assumes "core t = core s"
  shows "sshhost t = sshhost s" "sshuser t = sshuser s" "sshpass t = sshpass s" "sshkeys_pub t =
    sshkeys_pub s" "sshkeys_priv t = sshkeys_priv s" "sshkeys_priv_data t = sshkeys_priv_data
    s" "sshkeys_pub_data t = sshkeys_pub_data s" "sshkeys_passphrase t = sshkeys_passphrase s"
    "known_hosts_file t = known_hosts_file s" "verify_host_key t = verify_host_key s"
    "host_key_policy t = host_key_policy s" "host_key_store t = host_key_store s"
    "client_identity_provider t = client_identity_provider s" "client_auth_order t =
    client_auth_order s" "client_identity_fallback_policy t = client_identity_fallback_policy
    s" "method_prefs t = method_prefs s" "ssh_banner t = ssh_banner s" "sshport t = sshport s"
    "keepalive_interval t = keepalive_interval s" "use_agent t = use_agent s"
    "explicit_key_files t = explicit_key_files s" "explicit_key_data t = explicit_key_data s"
    "auto_key_files t = auto_key_files s" "auth_methods t = auth_methods s"
    "sshauthenticatedwith t = sshauthenticatedwith s" "connect_in_progress t =
    connect_in_progress s" "poll_op_in_progress t = poll_op_in_progress s" "channel_set t =
    channel_set s" "listener_set t = listener_set s" "sock t = sock s" "session_fd_hold t =
    session_fd_hold s" "ssh_session t = ssh_session s" "is_sftp t = is_sftp s" "sftppath t =
    sftppath s" "sftp_session t = sftp_session s" "session_blocking t = session_blocking s"
    "chan_open t = chan_open s" "lsn_open t = lsn_open s" "next_id t = next_id s" "agent_live
    t = agent_live s" "nh_live t = nh_live s" "handle_outlives t = handle_outlives s"
    "client.more t = client.more s"
  using assms by (cases s rule: client.cases_scheme; cases t rule: client.cases_scheme; simp add: core_def)+

lemma core_upd [simp]:
  "core (s\<lparr>world := w\<rparr>) = core s" "core (s\<lparr>xsink := e\<rparr>) = core s"
  "core (core s) = core s" "core (raise x c s) = core s" "core (run_ext f s) = core s"
  by (simp_all add: core_def raise_def run_ext_def)

definition io_step :: "bool \<Rightarrow> ('w, 'm) cst \<Rightarrow> ('w, 'm) cst \<Rightarrow> bool" where
  "io_step x s t \<longleftrightarrow> core t = core s \<and> (\<exists>e. xsink t = xsink s @ e) \<and> (x \<or> xsink t = xsink s)"

lemma io_step_refl [simp, intro]: "io_step x s s"
  by (simp add: io_step_def)

lemma io_step_trans [trans]: "io_step x s t \<Longrightarrow> io_step x t u \<Longrightarrow> io_step x s u"
  by (auto simp: io_step_def)

lemma io_step_weaken: "io_step False s t \<Longrightarrow> io_step x s t"
  by (simp add: io_step_def)

lemma io_step_world [simp, intro]: "io_step x s (s\<lparr>world := w\<rparr>)"
  by (simp add: io_step_def)

lemma io_step_raise [simp, intro]: "io_step x s (raise x c s)"
  by (simp add: io_step_def raise_def core_def)

lemma io_step_call: "call_ext f s = (r, t) \<Longrightarrow> io_step x s t"
  by (auto dest!: call_ext_eq)

lemma io_step_run [simp, intro]: "io_step x s (run_ext f s)"
  by (simp add: run_ext_def)

lemma io_step_core: "io_step x s t \<Longrightarrow> core t = core s"
  by (simp add: io_step_def)

lemma io_step_xsink:
  "io_step x s t \<Longrightarrow> length (xsink s) \<le> length (xsink t)"
  "io_step False s t \<Longrightarrow> xsink t = xsink s"
  by (auto simp: io_step_def)

lemma waitSocketRaw_io: "waitSocketRaw E tmo s = (r, t) \<Longrightarrow> io_step x s t"
  by (auto simp: waitSocketRaw_def io_step_call split: prod.splits)

lemma wait_in_disconnect_post:
  "post (wait_in_disconnect E x toerr err tmo s) (\<lambda>r t. io_step x s t)"
proof -
  obtain rc t where w: "waitSocketRaw E tmo s = (rc, t)" by (cases "waitSocketRaw E tmo s")
  have "io_step x s t" by (rule waitSocketRaw_io [OF w])
  then show ?thesis
    by (auto simp: wait_in_disconnect_def waitSocket_with_def w Let_def
        intro: io_step_trans io_step_raise)
qed

lemma retry_in_disconnect_post:
  "post (retry_loop is_eagain (call_ext f) (wait_in_disconnect E x toerr err tmo) s)
     (\<lambda>r t. io_step x s t)"
proof (rule retry_loop_post [where I = "\<lambda>t. io_step x s t"])
  fix t r u
  assume "io_step x s t" and c: "call_ext f t = (r, u)"
  then have u: "io_step x s u" by (blast intro: io_step_trans io_step_call)
  then show "post (wait_in_disconnect E x toerr err tmo u)
      (\<lambda>wr v. if wr \<noteq> 0 then io_step x s v else io_step x s v)"
    using wait_in_disconnect_post [of E x toerr err tmo u]
    by (auto elim!: post_mono intro: io_step_trans)
  from u show "io_step x s u" .
qed simp

section \<open>What disconnecting does\<close>

definition disc_state :: "('w, 'm) cst \<Rightarrow> ('w, 'm) cst" where
  "disc_state s = s\<lparr>
     listener_set := [], lsn_open := (\<lambda>l. lsn_open s l \<and> l \<notin> set (listener_set s)),
     channel_set := [], chan_open := (\<lambda>c. chan_open s c \<and> c \<notin> set (channel_set s)),
     ssh_session := False, session_blocking := (session_blocking s \<and> \<not> ssh_session s),
     handle_outlives := (handle_outlives s \<or> (ssh_session s \<and> (agent_live s \<or> nh_live s))),
     sftp_session := (sftp_session s \<and> \<not> is_sftp s),
     sshauthenticatedwith := None, sock := None, session_fd_hold := False\<rparr>"

lemma fold_channel_close:
  "fold (channel_closeUnlocked E) cs s =
     s\<lparr>chan_open := (\<lambda>c. chan_open s c \<and> c \<notin> set cs),
       world := fold (channel_free E) cs (world s)\<rparr>"
proof (induction cs arbitrary: s)
  case Nil
  then show ?case by simp
next
  case (Cons c cs)
  have "(\<lambda>d. ((chan_open s)(c := False)) d \<and> d \<notin> set cs)
      = (\<lambda>d. chan_open s d \<and> d \<notin> set (c # cs))" by auto
  with Cons show ?case by (simp add: channel_closeUnlocked_def run_ext_def)
qed

lemma listener_cancel_core:
  "core (listener_cancelUnlocked E l s) = core (s\<lparr>lsn_open := (\<lambda>k. lsn_open s k \<and> k \<noteq> l),
     listener_set := (if lsn_open s l then removeAll l (listener_set s) else listener_set s)\<rparr>)
   \<and> xsink (listener_cancelUnlocked E l s) = xsink s"
proof (cases "lsn_open s l")
  case True
  have "(lsn_open s)(l := False) = (\<lambda>k. lsn_open s k \<and> k \<noteq> l)" using True by (auto simp: fun_eq_iff)
  with True show ?thesis
    by (simp add: listener_cancelUnlocked_def listenerDeletedUnlocked_def run_ext_def Let_def core_def)
next
  case False
  then have "(\<lambda>k. lsn_open s k \<and> k \<noteq> l) = lsn_open s" by (auto simp: fun_eq_iff)
  with False show ?thesis by (simp add: listener_cancelUnlocked_def)
qed

lemma core_upd_cong:
  assumes "core t = core s"
  shows "core (t\<lparr>lsn_open := f, listener_set := l\<rparr>) = core (s\<lparr>lsn_open := f, listener_set := l\<rparr>)"
    "core (t\<lparr>listener_set := l\<rparr>) = core (s\<lparr>listener_set := l\<rparr>)"
  using assms by (cases s rule: client.cases_scheme; cases t rule: client.cases_scheme; simp add: core_def)+

lemma fold_listener_cancel:
  "\<exists>ls'. core (fold (listener_cancelUnlocked E) ls s) =
     core (s\<lparr>lsn_open := (\<lambda>k. lsn_open s k \<and> k \<notin> set ls), listener_set := ls'\<rparr>)
   \<and> xsink (fold (listener_cancelUnlocked E) ls s) = xsink s"
proof (induction ls arbitrary: s)
  case Nil
  show ?case by (rule exI [of _ "listener_set s"]) simp
next
  case (Cons l ls)
  let ?t = "listener_cancelUnlocked E l s"
  obtain ls2 where 2: "core (fold (listener_cancelUnlocked E) ls ?t) =
      core (?t\<lparr>lsn_open := (\<lambda>k. lsn_open ?t k \<and> k \<notin> set ls), listener_set := ls2\<rparr>)"
      "xsink (fold (listener_cancelUnlocked E) ls ?t) = xsink ?t" using Cons by blast
  have t: "core ?t = core (s\<lparr>lsn_open := (\<lambda>k. lsn_open s k \<and> k \<noteq> l),
     listener_set := (if lsn_open s l then removeAll l (listener_set s) else listener_set s)\<rparr>)"
    and x: "xsink ?t = xsink s"
    using listener_cancel_core [of E l s] by blast+
  from core_eq_sel [OF t] have "(\<lambda>k. lsn_open ?t k \<and> k \<notin> set ls)
      = (\<lambda>k. lsn_open s k \<and> k \<notin> set (l # ls))" by auto
  with 2 core_upd_cong(1) [OF t] x show ?case by (auto intro!: exI [of _ ls2])
qed

lemma registries_cleared:
  assumes "s1 = fold (listener_cancelUnlocked E) (listener_set s) s"
    and "s2 = s1\<lparr>listener_set := []\<rparr>"
    and "s3 = (fold (channel_closeUnlocked E) (channel_set s2) s2)\<lparr>channel_set := []\<rparr>"
  shows "core s3 = core (s\<lparr>listener_set := [], lsn_open := (\<lambda>l. lsn_open s l \<and> l \<notin> set (listener_set s)),
     channel_set := [], chan_open := (\<lambda>c. chan_open s c \<and> c \<notin> set (channel_set s))\<rparr>)
     \<and> xsink s3 = xsink s"
proof -
  obtain ls' where l: "core s1 = core (s\<lparr>lsn_open := (\<lambda>k. lsn_open s k \<and> k \<notin> set (listener_set s)),
      listener_set := ls'\<rparr>)" and x: "xsink s1 = xsink s"
    using fold_listener_cancel [of E "listener_set s" s] assms(1) by blast
  have 2: "core s2 = core (s\<lparr>lsn_open := (\<lambda>k. lsn_open s k \<and> k \<notin> set (listener_set s)),
      listener_set := []\<rparr>)"
    using core_upd_cong(2) [OF l, of "[]"] assms(2) by simp
  from core_eq_sel [OF 2] have c: "channel_set s2 = channel_set s" "chan_open s2 = chan_open s"
    by simp_all
  have "core s3 = (core s2)\<lparr>chan_open := (\<lambda>d. chan_open s2 d \<and> d \<notin> set (channel_set s2)),
      channel_set := []\<rparr>"
    unfolding assms(3) fold_channel_close by (simp add: core_def)
  then show ?thesis unfolding 2 c using assms(2,3) x by (simp add: core_def fold_channel_close)
qed

lemma core_eq_iff: "core t = core s \<longleftrightarrow> t = s\<lparr>world := world t, xsink := xsink t\<rparr>"
  by (cases s rule: client.cases_scheme; cases t rule: client.cases_scheme; simp add: core_def)

lemma io_stepE:
  assumes "io_step x s t"
  obtains w e where "t = s\<lparr>world := w, xsink := xsink s @ e\<rparr>" and "x \<or> e = []"
proof -
  from assms obtain e where e: "xsink t = xsink s @ e" "x \<or> xsink t = xsink s"
    and c: "core t = core s" by (auto simp: io_step_def)
  from c have "t = s\<lparr>world := world t, xsink := xsink s @ e\<rparr>"
    unfolding core_eq_iff using e(1) by simp
  then show ?thesis using e by (intro that [of e "world t"]) auto
qed

lemma io_step_disc:
  "io_step x s t \<Longrightarrow> io_step x (disc_state s) (disc_state t)"
  by (erule io_stepE) (auto simp: io_step_def disc_state_def core_def)

lemma doShutdown_post:
  "post (doShutdown E tmo x s) (\<lambda>r t. io_step x (s\<lparr>sftp_session := False,
     session_blocking := (if sftp_session s \<and> ssh_session s then True else session_blocking s)\<rparr>) t)"
proof (cases "sftp_session s")
  case True
  have "post (retry_loop is_eagain (call_ext (sftp_shutdown E))
      (wait_in_disconnect E x ''SFTPCLIENT-TIMEOUT'' ''SFTPCLIENT-DISCONNECT'' tmo)
      (BlockingHelper_ctor s)) (\<lambda>r t. io_step x (BlockingHelper_ctor s) t)"
    by (rule retry_in_disconnect_post)
  moreover have "io_step x (BlockingHelper_ctor s) t \<Longrightarrow> io_step x (s\<lparr>sftp_session := False,
     session_blocking := (if sftp_session s \<and> ssh_session s then True else session_blocking s)\<rparr>)
     (BlockingHelper_dtor (t\<lparr>sftp_session := False\<rparr>))" for t
    using True by (elim io_stepE) (auto simp: BlockingHelper_ctor_def BlockingHelper_dtor_def
        setBlockingUnlocked_def io_step_def core_def)
  ultimately show ?thesis
    unfolding doShutdown_def using True by (auto elim!: post_mono)
next
  case False
  then have "s\<lparr>sftp_session := False\<rparr> = s" by simp
  then have "io_step x (s\<lparr>sftp_session := False\<rparr>) s" by (simp only: io_step_refl)
  with False show ?thesis by (simp add: doShutdown_def)
qed

lemma ssh_disconnect_post:
  assumes "is_sftp s \<longrightarrow> \<not> sftp_session s"
  shows "post (ssh_disconnectUnlocked E force tmo None x s)
    (\<lambda>r t. r = 0 \<and> io_step x (disc_state s) t \<and> (force \<and> \<not> ssh_session s \<longrightarrow> xsink t = xsink s))"
proof -
  define s1 where "s1 = fold (listener_cancelUnlocked E) (listener_set s) s"
  define s2 where "s2 = s1\<lparr>listener_set := []\<rparr>"
  define s3 where "s3 = (fold (channel_closeUnlocked E) (channel_set s2) s2)\<lparr>channel_set := []\<rparr>"
  let ?s = "s\<lparr>listener_set := [], lsn_open := (\<lambda>l. lsn_open s l \<and> l \<notin> set (listener_set s)),
     channel_set := [], chan_open := (\<lambda>c. chan_open s c \<and> c \<notin> set (channel_set s))\<rparr>"
  have io: "io_step False ?s s3"
    using registries_cleared [OF s1_def s2_def s3_def] by (simp add: io_step_def)
  then obtain w where s3: "s3 = ?s\<lparr>world := w\<rparr>" by (rule io_stepE) auto
  let ?w = "wait_in_disconnect E x ''SSH2CLIENT-TIMEOUT'' ''SSSHCLIENT-DISCONNECT'' tmo"
  have loop: "post (retry_loop is_eagain (call_ext f) ?w u) (\<lambda>r t. io_step x u t)" for f u
    by (rule retry_in_disconnect_post)
  have body: "ssh_session s3 \<Longrightarrow> post (retry_loop is_eagain (call_ext (session_disconnect E)) ?w
      (setBlockingUnlocked False s3)) (\<lambda>r u. post (retry_loop is_eagain (call_ext (session_free E)) ?w u)
      (\<lambda>r t. io_step x (setBlockingUnlocked False s3) t))"
    by (rule post_mono [OF loop]) (blast intro: post_mono [OF loop] io_step_trans)
  have fin: "io_step x (setBlockingUnlocked False s3) t \<Longrightarrow> ssh_session s3 \<Longrightarrow>
      io_step x (disc_state s)
        (closeTransportUnlocked ((session_given_up t)\<lparr>sshauthenticatedwith := None\<rparr>))" for t
    using assms
    by (erule_tac io_stepE) (auto simp: s3 setBlockingUnlocked_def session_given_up_def
        closeTransportUnlocked_def disc_state_def io_step_def core_def)
  show ?thesis
  proof (cases "ssh_session s")
    case True
    then have "ssh_session s3" by (simp add: s3)
    with body [OF this] fin show ?thesis
      unfolding ssh_disconnectUnlocked_def s1_def [symmetric] Let_def s2_def [symmetric] s3_def [symmetric]
      using True by (auto simp: preDisconnect_def elim!: post_mono)
  next
    case False
    then show ?thesis
      unfolding ssh_disconnectUnlocked_def s1_def [symmetric] Let_def s2_def [symmetric] s3_def [symmetric]
      using assms by (auto simp: s3 closeTransportUnlocked_def disc_state_def io_step_def core_def raise_def)
  qed
qed

lemma disconnectUnlocked_post:
  "post (disconnectUnlocked E force tmo None x s) (\<lambda>r t. r = 0 \<and> io_step x (disc_state s) t)"
proof (cases "is_sftp s")
  case True
  have d: "post (doShutdown E tmo x s) (\<lambda>r t. io_step x (s\<lparr>sftp_session := False,
     session_blocking := (if sftp_session s \<and> ssh_session s then True else session_blocking s)\<rparr>) t)"
    by (rule doShutdown_post)
  show ?thesis
    unfolding disconnectUnlocked_def sftp_disconnectUnlocked_def preDisconnect_def
    using True
  proof (simp, intro post_mono [OF d])
    fix r t
    assume t: "io_step x (s\<lparr>sftp_session := False,
      session_blocking := (if sftp_session s \<and> ssh_session s then True else session_blocking s)\<rparr>) t"
    then have "\<not> sftp_session t" by (auto elim: io_stepE)
    then have p: "post (ssh_disconnectUnlocked E force tmo None x t) (\<lambda>r u. r = 0 \<and> io_step x (disc_state t) u)"
      by (auto intro: post_mono [OF ssh_disconnect_post])
    have "io_step x (disc_state s) (disc_state t)"
      using t True by (elim io_stepE) (simp add: disc_state_def io_step_def core_def)
    with p show "post (ssh_disconnectUnlocked E force tmo None x t)
        (\<lambda>r u. r = 0 \<and> io_step x (disc_state s) u)"
      by (auto elim!: post_mono intro: io_step_trans)
  qed
next
  case False
  then show ?thesis
    unfolding disconnectUnlocked_def by (auto intro: post_mono [OF ssh_disconnect_post])
qed

lemma force_disconnect_post:
  "post (force_disconnect E s) (\<lambda>r t. r = 0 \<and> io_step False (disc_state s) t)"
  unfolding force_disconnect_def by (rule disconnectUnlocked_post)

lemma waitSocketUnlocked_post:
  "post (waitSocketUnlocked E toerr err tmo None x s)
     (\<lambda>r t. (r = 0 \<and> io_step False s t) \<or>
            (r = -1 \<and> io_step x (disc_state s) t \<and> (x \<longrightarrow> length (xsink s) < length (xsink t))))"
proof -
  have disc: "post (disconnectUnlocked E True n None x u) (\<lambda>r t. io_step x (disc_state s) t \<and>
      (x \<longrightarrow> length (xsink s) < length (xsink t)))"
    if "io_step x s u" "x \<longrightarrow> length (xsink s) < length (xsink u)" for u n
  proof (rule post_mono [OF disconnectUnlocked_post])
    fix r t
    assume "r = 0 \<and> io_step x (disc_state u) t"
    then have "io_step x (disc_state u) t" by simp
    moreover from this have "length (xsink u) \<le> length (xsink t)"
      using io_step_xsink(1) [of x "disc_state u" t] by (simp add: disc_state_def)
    ultimately show "io_step x (disc_state s) t \<and> (x \<longrightarrow> length (xsink s) < length (xsink t))"
      using that(2) io_step_trans [OF io_step_disc [OF that(1)]] by auto
  qed
  obtain b s1 where c: "(if x then qore_check_cancel E s else (False, s)) = (b, s1)" by fastforce
  then have c1: "io_step x s s1" "b \<Longrightarrow> x \<longrightarrow> length (xsink s) < length (xsink s1)"
     "\<not> b \<Longrightarrow> io_step False s s1"
    by (auto simp: qore_check_cancel_def call_ext_eq_pair io_step_def raise_def core_def split: if_splits)
  obtain rc s2 where w: "waitSocketRaw E tmo s1 = (rc, s2)" by (cases "waitSocketRaw E tmo s1")
  have s2: "\<not> b \<Longrightarrow> io_step False s s2" using waitSocketRaw_io [OF w] c1 io_step_trans by blast
  have r: "\<not> b \<Longrightarrow> io_step x s (raise x c s2) \<and> (x \<longrightarrow> length (xsink s) < length (xsink (raise x c s2)))" for c
    using s2 by (auto simp: raise_def io_step_def)
  show ?thesis
    unfolding waitSocketUnlocked_def waitSocket_with_def
    using c w s2 disc [OF c1(1)] c1(2) disc [of "raise x toerr s2"] disc [of "raise x err s2"]
      r [of toerr] r [of err]
    by (auto simp: Let_def elim!: post_mono)
qed

section \<open>Returning\<close>

text \<open>
  The loops above repeat a libssh2 call for as long as it reports that it would block and the
  socket becomes ready. They end when the library cannot ask for that forever: \<open>settling m E\<close>
  says that a measure of the world (how much traffic the library still waits for) goes down
  whenever a wait for the socket succeeds, and up in no call that reports it would block.
\<close>

definition quiet :: "('w \<Rightarrow> nat) \<Rightarrow> ('w \<Rightarrow> 'r \<times> 'w) \<Rightarrow> bool" where
  "quiet m f \<longleftrightarrow> (\<forall>w. m (snd (f w)) \<le> m w)"

definition settling :: "('w \<Rightarrow> nat) \<Rightarrow> ('w, 's) env \<Rightarrow> bool" where
  "settling m E \<longleftrightarrow>
     (\<forall>tmo rd wr w. 0 < fst (async_io_wait E tmo rd wr w) \<longrightarrow> m (snd (async_io_wait E tmo rd wr w)) < m w)
     \<and> quiet m (check_cancel E) \<and> quiet m (session_disconnect E) \<and> quiet m (session_free E)
     \<and> quiet m (sftp_shutdown E) \<and> (\<forall>fd. quiet m (session_handshake E fd))
     \<and> (\<forall>u. quiet m (userauth_list E u)) \<and> (\<forall>u p. quiet m (userauth_password E u p))
     \<and> (\<forall>u f. quiet m (userauth_keyboard_interactive E u f))
     \<and> (\<forall>u a b c. quiet m (userauth_publickey_fromfile E u a b c))
     \<and> (\<forall>u a b c. quiet m (userauth_publickey_frommemory E u a b c))
     \<and> (\<forall>u i. quiet m (agent_userauth E u i))"

lemma waitSocketRaw_settles:
  "settling m E \<Longrightarrow> waitSocketRaw E tmo s = (rc, t) \<Longrightarrow> 0 < rc \<Longrightarrow> m (world t) < m (world s)"
  by (force simp: settling_def waitSocketRaw_def call_ext_eq_pair split: prod.splits)

lemma wait_in_disconnect_returns:
  assumes "settling m E"
  shows "returns (wait_in_disconnect E x toerr err tmo s) \<and>
    post (wait_in_disconnect E x toerr err tmo s) (\<lambda>r t. r = 0 \<longrightarrow> m (world t) < m (world s))"
proof -
  obtain rc t where w: "waitSocketRaw E tmo s = (rc, t)" by (cases "waitSocketRaw E tmo s")
  with waitSocketRaw_settles [OF assms w] show ?thesis
    by (auto simp: wait_in_disconnect_def waitSocket_with_def Let_def)
qed

lemma retry_in_disconnect_returns:
  assumes "settling m E" and "quiet m f"
  shows "returns (retry_loop is_eagain (call_ext f) (wait_in_disconnect E x toerr err tmo) s)"
proof (rule retry_loop_returns [where I = "\<lambda>_. True" and m = "\<lambda>s. m (world s)"])
  fix s :: "('a, 'b) client_scheme" and r u
  assume "call_ext f s = (r, u)"
  then have "m (world u) \<le> m (world s)"
    using assms(2) by (auto simp: quiet_def call_ext_eq_pair)
  then show "returns (wait_in_disconnect E x toerr err tmo u) \<and>
    post (wait_in_disconnect E x toerr err tmo u) (\<lambda>wr t. wr = 0 \<longrightarrow> True \<and> m (world t) < m (world s))"
    using wait_in_disconnect_returns [OF assms(1), of x toerr err tmo u]
    by (auto elim!: post_mono)
qed simp

lemma ssh_disconnect_returns:
  "settling m E \<Longrightarrow> returns (ssh_disconnectUnlocked E force tmo None x s)"
  unfolding ssh_disconnectUnlocked_def Let_def preDisconnect_def
  by (auto simp: returns_bind settling_def intro!: post_I
      retry_in_disconnect_returns [of m E, unfolded settling_def])

lemma disconnectUnlocked_returns:
  assumes "settling m E"
  shows "returns (disconnectUnlocked E force tmo None x s)"
proof -
  have "returns (doShutdown E tmo x u)" for u :: "('a, 'b) client_scheme"
    using assms retry_in_disconnect_returns [OF assms]
    by (auto simp: doShutdown_def returns_bind settling_def intro!: post_I)
  with ssh_disconnect_returns [OF assms] show ?thesis
    unfolding disconnectUnlocked_def sftp_disconnectUnlocked_def preDisconnect_def
    by (auto simp: returns_bind intro!: post_I)
qed

lemma waitSocketUnlocked_returns:
  assumes "settling m E"
  shows "returns (waitSocketUnlocked E toerr err tmo None x s) \<and>
    post (waitSocketUnlocked E toerr err tmo None x s) (\<lambda>r t. r = 0 \<longrightarrow> m (world t) < m (world s))"
proof -
  obtain b s1 where c: "(if x then qore_check_cancel E s else (False, s)) = (b, s1)" by fastforce
  then have le: "m (world s1) \<le> m (world s)"
    using assms by (auto simp: settling_def quiet_def qore_check_cancel_def call_ext_eq_pair raise_def
        split: if_splits)
  obtain rc s2 where w: "waitSocketRaw E tmo s1 = (rc, s2)" by (cases "waitSocketRaw E tmo s1")
  have d: "returns (disconnectUnlocked E True n None x u)" for n u
    by (rule disconnectUnlocked_returns [OF assms])
  show ?thesis
    unfolding waitSocketUnlocked_def waitSocket_with_def
    using c w d waitSocketRaw_settles [OF assms w] le
    by (auto simp: Let_def returns_bind intro!: post_I)
qed

lemma retry_wait_returns:
  assumes "settling m E" and "\<And>s r t. call s = (r, t) \<Longrightarrow> m (world t) \<le> m (world s)"
  shows "returns (retry_loop again call (waitSocketUnlocked E toerr err tmo None x) s)"
proof (rule retry_loop_returns [where I = "\<lambda>_. True" and m = "\<lambda>s. m (world s)"])
  fix s :: "('a, 'b) client_scheme" and r u
  assume "call s = (r, u)"
  then have "m (world u) \<le> m (world s)" by (rule assms(2))
  then show "returns (waitSocketUnlocked E toerr err tmo None x u) \<and>
    post (waitSocketUnlocked E toerr err tmo None x u) (\<lambda>wr t. wr = 0 \<longrightarrow> True \<and> m (world t) < m (world s))"
    using waitSocketUnlocked_returns [OF assms(1), of toerr err tmo x u]
    by (auto elim!: post_mono)
qed simp

lemma quiet_call: "quiet m f \<Longrightarrow> call_ext f s = (r, t) \<Longrightarrow> m (world t) \<le> m (world s)"
  by (auto simp: quiet_def call_ext_eq_pair)

text \<open>
  The loop of a blocking operation: the call is repeated with the socket waited for; either it
  gives its result and nothing of the client changed, or a wait failed and the client is
  disconnected.
\<close>

lemma retry_wait_post_gen:
  assumes io: "\<And>s r t. call s = (r, t) \<Longrightarrow> io_step False s t"
  shows "post (retry_loop again call (waitSocketUnlocked E toerr err tmo None x) s)
     (\<lambda>r t. (\<exists>v. r = Some v \<and> \<not> again v \<and> io_step False s t) \<or>
            (r = None \<and> io_step x (disc_state s) t \<and> (x \<longrightarrow> length (xsink s) < length (xsink t))))"
proof (rule retry_loop_post [where I = "\<lambda>t. io_step False s t"])
  fix t r u
  assume st: "io_step False s t" and c: "call t = (r, u)"
  then have u: "io_step False s u" by (blast intro: io_step_trans io)
  { assume "\<not> again r"
    with u show "(\<exists>v. Some r = Some v \<and> \<not> again v \<and> io_step False s u) \<or>
      (Some r = None \<and> io_step x (disc_state s) u \<and> (x \<longrightarrow> length (xsink s) < length (xsink u)))"
      by simp }
  have d: "io_step x (disc_state s) (disc_state u)"
    by (rule io_step_disc [OF io_step_weaken [OF u]])
  show "post (waitSocketUnlocked E toerr err tmo None x u) (\<lambda>wr v. if wr \<noteq> 0
      then (\<exists>v'. None = Some v' \<and> \<not> again v' \<and> io_step False s v) \<or>
        (None = None \<and> io_step x (disc_state s) v \<and> (x \<longrightarrow> length (xsink s) < length (xsink v)))
      else io_step False s v)"
  proof (rule post_mono [OF waitSocketUnlocked_post])
    fix wr :: int and v
    assume "(wr = 0 \<and> io_step False u v) \<or>
        (wr = -1 \<and> io_step x (disc_state u) v \<and> (x \<longrightarrow> length (xsink u) < length (xsink v)))"
    then show "if wr \<noteq> 0
      then (\<exists>v'. None = Some v' \<and> \<not> again v' \<and> io_step False s v) \<or>
        (None = None \<and> io_step x (disc_state s) v \<and> (x \<longrightarrow> length (xsink s) < length (xsink v)))
      else io_step False s v"
      using u d io_step_trans io_step_xsink(2) [OF u] by (auto intro: io_step_trans)
  qed
qed simp

lemma retry_wait_post:
  "post (retry_loop again (call_ext f) (waitSocketUnlocked E toerr err tmo None x) s)
     (\<lambda>r t. (\<exists>v. r = Some v \<and> \<not> again v \<and> io_step False s t) \<or>
            (r = None \<and> io_step x (disc_state s) t \<and> (x \<longrightarrow> length (xsink s) < length (xsink t))))"
  by (rule retry_wait_post_gen) (rule io_step_call)

section \<open>The connection invariant\<close>

text \<open>
  Between operations: exactly the open channels and listeners are registered, each once; a
  channel, a listener, an SFTP session, an open socket and an authentication belong to a
  session; and the descriptor is held exactly while a session can use it.
\<close>

definition conn_inv :: "('w, 'm) cst \<Rightarrow> bool" where
  "conn_inv s \<longleftrightarrow>
     distinct (channel_set s) \<and> (\<forall>c. chan_open s c \<longleftrightarrow> c \<in> set (channel_set s))
     \<and> (\<forall>c \<in> set (channel_set s). c < next_id s)
     \<and> distinct (listener_set s) \<and> (\<forall>l. lsn_open s l \<longleftrightarrow> l \<in> set (listener_set s))
     \<and> (\<forall>l \<in> set (listener_set s). l < next_id s)
     \<and> (\<not> ssh_session s \<longrightarrow> channel_set s = [] \<and> listener_set s = [] \<and> \<not> sftp_session s
          \<and> sshauthenticatedwith s = None \<and> sock s = None)
     \<and> (session_fd_hold s \<longleftrightarrow> ssh_session s)
     \<and> (sftp_session s \<longrightarrow> is_sftp s)
     \<and> \<not> nh_live s"

lemma conn_inv_core:
  assumes "core t = core s"
  shows "conn_inv t = conn_inv s"
  by (simp add: conn_inv_def core_eq_sel [OF assms])

lemma conn_inv_io: "io_step x s t \<Longrightarrow> conn_inv t = conn_inv s"
  by (rule conn_inv_core) (rule io_step_core)

lemma conn_inv_disc [simp]: "conn_inv s \<Longrightarrow> conn_inv (disc_state s)"
  by (auto simp: conn_inv_def disc_state_def)

lemma disc_state_sel [simp]:
  "\<not> ssh_session (disc_state s)" "sock (disc_state s) = None" "\<not> session_fd_hold (disc_state s)"
  "channel_set (disc_state s) = []" "listener_set (disc_state s) = []"
  "sshauthenticatedwith (disc_state s) = None" "xsink (disc_state s) = xsink s"
  "poll_op_in_progress (disc_state s) = poll_op_in_progress s"
  "connect_in_progress (disc_state s) = connect_in_progress s"
  "is_sftp (disc_state s) = is_sftp s" "agent_live (disc_state s) = agent_live s"
  "nh_live (disc_state s) = nh_live s" "world (disc_state s) = world s"
  "client_identity_provider (disc_state s) = client_identity_provider s"
  "sftppath (disc_state s) = sftppath s"
  "client.more (disc_state s) = client.more s" "next_id (disc_state s) = next_id s"
  by (simp_all add: disc_state_def)

lemma disc_state_idem [simp]: "disc_state (disc_state s) = disc_state s"
  by (simp add: disc_state_def)

text \<open>A disconnected client: the description the failure paths are stated with.\<close>

definition is_disconnected :: "('w, 'm) cst \<Rightarrow> bool" where
  "is_disconnected s \<longleftrightarrow> \<not> ssh_session s \<and> \<not> sftp_session s \<and> sock s = None \<and> \<not> session_fd_hold s
     \<and> (\<forall>c. \<not> chan_open s c) \<and> (\<forall>l. \<not> lsn_open s l) \<and> channel_set s = [] \<and> listener_set s = []
     \<and> sshauthenticatedwith s = None"

lemma disc_state_disconnected: "conn_inv s \<Longrightarrow> is_disconnected (disc_state s)"
  by (auto simp: is_disconnected_def conn_inv_def disc_state_def)

lemma is_disconnected_io:
  assumes "io_step x s t"
  shows "is_disconnected t = is_disconnected s"
  by (simp add: is_disconnected_def core_eq_sel [OF io_step_core [OF assms]])

lemma disc_step:
  assumes "conn_inv s" and "io_step x (disc_state s) t"
  shows "is_disconnected t" "conn_inv t"
  using assms disc_state_disconnected [OF assms(1)] is_disconnected_io [OF assms(2)]
    conn_inv_io [OF assms(2)] by auto

lemma coreE:
  assumes "core t = core s"
  obtains w e where "t = s\<lparr>world := w, xsink := e\<rparr>"
  using assms unfolding core_eq_iff by blast

lemma core_disc:
  assumes "core t = core s"
  shows "core (disc_state t) = core (disc_state s)"
  using assms by (elim coreE) (simp add: disc_state_def core_def)

lemma disc_core:
  assumes "conn_inv s" and "core t = core (disc_state s)"
  shows "is_disconnected t" "conn_inv t"
proof -
  have "conn_inv t = conn_inv (disc_state s)" by (rule conn_inv_core [OF assms(2)])
  then show "conn_inv t" using assms(1) by simp
  have "is_disconnected t = is_disconnected (disc_state s)"
    by (simp add: is_disconnected_def core_eq_sel [OF assms(2)])
  then show "is_disconnected t" using disc_state_disconnected [OF assms(1)] by simp
qed

lemma client_destructor_eq:
  "client_destructor E s =
     do { (_, s) \<leftarrow> force_disconnect E s;
          Some ((), deref_object E (host_key_store s) (deref_object E (client_identity_provider s) s)) }"
  by (simp add: client_destructor_def SFTPClient_destructor_def SSH2Client_destructor_def
      force_disconnect_def disconnectUnlocked_def sftp_disconnectUnlocked_def preDisconnect_def case_prod_unfold)

lemma deref_object_io: "io_step x s (deref_object E ob s)"
  by (simp add: deref_object_def split: option.split)

lemma disconnectUnlocked_total:
  assumes "settling m E"
  shows "\<exists>t. disconnectUnlocked E force tmo None x s = Some (0, t) \<and> io_step x (disc_state s) t"
proof -
  obtain r t where d: "disconnectUnlocked E force tmo None x s = Some (r, t)"
    using disconnectUnlocked_returns [OF assms, of force tmo x s] by (auto simp: returns_def)
  with post_D [OF disconnectUnlocked_post d] show ?thesis by simp
qed

lemma disconnect_total:
  assumes "conn_inv s" "settling m E" "\<not> poll_op_in_progress s" "\<not> connect_in_progress s"
  shows "\<exists>t. disconnect E force tmo x s = Some (0, t) \<and> is_disconnected t \<and> conn_inv t"
  using disconnectUnlocked_total [OF assms(2), of force tmo x s] disc_step [OF assms(1)] assms(3,4)
  by (auto simp: disconnect_def checkPollOpUnlocked_def)

lemma client_destructor_total:
  assumes inv: "conn_inv s" and "settling m E"
  shows "\<exists>t. client_destructor E s = Some ((), t) \<and> is_disconnected t \<and> xsink t = xsink s"
proof -
  obtain t where t: "force_disconnect E s = Some (0, t)" "io_step False (disc_state s) t"
    using disconnectUnlocked_total [OF assms(2), of True DEFAULT_TIMEOUT_MS False s] by (auto simp: force_disconnect_def)
  define u where "u = deref_object E (host_key_store t) (deref_object E (client_identity_provider t) t)"
  have u: "io_step False (disc_state s) u"
    unfolding u_def by (blast intro: io_step_trans deref_object_io t(2))
  with disc_step [OF inv u] io_step_xsink(2) [OF u] t(1) show ?thesis
    by (auto simp: client_destructor_eq u_def)
qed

text \<open>
  C12 (liveness). \<open>disconnect()\<close> returns, with 0, whenever no connection attempt and no poll
  operation is in progress and the library does not ask to wait forever; afterwards no
  session, no SFTP session, no open channel or listener is left, the socket is closed, the
  hold on its descriptor is released, and the connection invariant holds. The destructor of
  either class returns in every state, releases the same and raises nothing.
\<close>

theorem disconnect_releases_everything:
  assumes inv: "conn_inv s" and live: "settling m E"
  shows "(\<not> poll_op_in_progress s \<and> \<not> connect_in_progress s \<longrightarrow>
      (\<exists>t. disconnect E force tmo x s = Some (0, t) \<and> is_disconnected t \<and> conn_inv t))
    \<and> (\<exists>t. client_destructor E s = Some ((), t) \<and> is_disconnected t \<and> xsink t = xsink s)"
  using disconnect_total [OF inv live] client_destructor_total [OF inv live] by blast

lemma settling_env0: "settling pending (env0 :: (tworld, 's) env)"
  by (simp add: settling_def quiet_def example_defs)

definition sftp_with_channel :: "tworld client" where
  "sftp_with_channel = sftp_up\<lparr>channel_set := [0], chan_open := (\<lambda>c. c = 0), next_id := 1,
     host_key_store := Some 7, world := \<lparr>pending = 2, log = []\<rparr>\<rparr>"

theorem disconnect_releases_everything_witness:
  "(\<exists>t. disconnect env0 False 100 True sftp_with_channel = Some (0, t) \<and> is_disconnected t \<and> conn_inv t)
   \<and> (\<exists>t. client_destructor env0 sftp_with_channel = Some ((), t) \<and> is_disconnected t \<and> xsink t = [])"
proof -
  have "conn_inv sftp_with_channel" "\<not> poll_op_in_progress sftp_with_channel"
    "\<not> connect_in_progress sftp_with_channel" "xsink sftp_with_channel = []"
    by (simp_all add: conn_inv_def sftp_with_channel_def example_defs)
  with disconnect_releases_everything [of sftp_with_channel pending env0 False 100 True, OF _ settling_env0]
  show ?thesis by simp
qed

text \<open>
  While a connection attempt or a poll operation owns the session, \<open>disconnect()\<close>
  refuses with the matching exception and changes nothing else.
\<close>

lemma disconnect_refused_while_owned:
  assumes "poll_op_in_progress s \<or> connect_in_progress s"
  shows "disconnect E force tmo True s = Some (-1, s\<lparr>xsink := xsink s @
     [if poll_op_in_progress s then ''SSH2-POLL-IN-PROGRESS'' else ''SSH2-CONNECT-IN-PROGRESS'']\<rparr>)"
  using assms by (auto simp: disconnect_def checkPollOpUnlocked_def raise_def)

lemma disconnect_refused_while_owned_example:
  "disconnect env0 True 0 True (client_up\<lparr>connect_in_progress := True\<rparr>) =
     Some (-1, client_up\<lparr>connect_in_progress := True, xsink := [''SSH2-CONNECT-IN-PROGRESS'']\<rparr>)"
  using disconnect_refused_while_owned [of "client_up\<lparr>connect_in_progress := True\<rparr>" env0 True 0]
  by (simp add: example_defs)

end
