(* ===== verification/Ssh2_Config.thy ===== *)
theory Ssh2_Config
  imports Ssh2_Client
begin

text \<open>
  The configuration of a client object (\<open>src/src/SSH2Client.cpp\<close>, \<open>src/src/SSH2Client.h\<close>): the
  checks of the sandbox, the two constructors with the discovery of keys and of the
  known-hosts file, and the setters. Each setter holds the object's lock for its whole body,
  so it is one step. The locale \<open>config_setter\<close> states what all setters promise; it is
  interpreted for each of them, and the properties are about arbitrary sequences of calls.
\<close>

section \<open>Sandbox checks\<close>

definition ssh2_check_fs_access ::
  "('w, 'm) cenv \<Rightarrow> string \<Rightarrow> fsmode list \<Rightarrow> bool \<Rightarrow> ('w, 'm) cst \<Rightarrow> int \<times> ('w, 'm) cst" where
  "ssh2_check_fs_access E path mode x s =
     (if path = [] then (0, s)
      else if no_filesystem E then (-1, raise x ''ILLEGAL-FILESYSTEM-ACCESS'' s)
      else if sandboxed E \<and> \<not> fs_allowed E path mode (world s) then (-1, raise x (fs_exn E) s)
      else (0, s))"

text \<open>The same check with an exception sink of its own, which is cleared.\<close>

definition ssh2_fs_access_allowed_quiet ::
  "('w, 'm) cenv \<Rightarrow> string \<Rightarrow> fsmode list \<Rightarrow> ('w, 'm) cst \<Rightarrow> bool" where
  "ssh2_fs_access_allowed_quiet E path mode s =
     (fst (ssh2_check_fs_access E path mode False s) = 0)"

definition ssh2_check_unix_socket_access ::
  "('w, 'm) cenv \<Rightarrow> string \<Rightarrow> bool \<Rightarrow> ('w, 'm) cst \<Rightarrow> int \<times> ('w, 'm) cst" where
  "ssh2_check_unix_socket_access E path check_fs s =
     (if \<not> sandboxed E then (0, s)
      else if length path \<ge> sun_path_size E then (-1, raise True ''NETWORK-ACCESS-DENIED'' s)
      else if \<not> unix_allowed E path (world s) then (-1, raise True (net_exn E) s)
      else if check_fs \<and> \<not> fs_allowed E path [QSEC_READ, QSEC_WRITE] (world s)
        then (-1, raise True (fs_exn E) s)
      else (0, s))"

fun check_addresses :: "('w, 'm) cenv \<Rightarrow> string \<Rightarrow> string list \<Rightarrow> ('w, 'm) cst \<Rightarrow> int \<times> ('w, 'm) cst" where
  "check_addresses E host [] s = (0, s)"
| "check_addresses E host (a # as) s =
     (if \<not> tcp_allowed E host a (world s) then (-1, raise True (net_exn E) s)
      else check_addresses E host as s)"

definition ssh2_check_tunnel_destination ::
  "('w, 'm) cenv \<Rightarrow> string \<Rightarrow> int \<Rightarrow> ('w, 'm) cst \<Rightarrow> int \<times> ('w, 'm) cst" where
  "ssh2_check_tunnel_destination E host port s =
     (if \<not> sandboxed E then (0, s)
      else case call_ext (resolve E host port) s of
        (None, s) \<Rightarrow> (-1, raise True (resolve_exn E) s)
      | (Some [], s) \<Rightarrow> (-1, raise True ''NETWORK-ACCESS-DENIED'' s)
      | (Some as, s) \<Rightarrow> check_addresses E host as s)"

text \<open>The part of a path before its last slash; \<open>None\<close> when there is no parent to create.\<close>

definition parent_dir :: "string \<Rightarrow> string option" where
  "parent_dir path =
     (let r = dropWhile (\<lambda>c. c \<noteq> CHR ''/'') (rev path)
      in if r = [] \<or> tl r = [] then None else Some (rev (tl r)))"

definition ensure_parent_dir :: "('w, 'm) cenv \<Rightarrow> string \<Rightarrow> ('w, 'm) cst \<Rightarrow> int \<times> ('w, 'm) cst" where
  "ensure_parent_dir E path s =
     (case parent_dir path of
        None \<Rightarrow> (0, s)
      | Some dir \<Rightarrow>
          (case ssh2_check_fs_access E dir [QSEC_CREATE] True s of (rc, s) \<Rightarrow>
             if rc \<noteq> 0 then (-1, s)
             else case stat_path E dir (world s) of
               StatOk md \<Rightarrow> (if file_type_is S_IFDIR md then 0 else -1, s)
             | StatErr e \<Rightarrow>
                 if e \<noteq> ENOENT then (-1, s)
                 else (case call_ext (mkdir_path E dir 0x1C0) s of (err, s) \<Rightarrow>
                         (if err \<noteq> None \<and> err \<noteq> Some EEXIST then -1 else 0, s))))"

section \<open>Construction\<close>

definition DEFAULT_SSH_PORT :: "32 word" where "DEFAULT_SSH_PORT = 22"
definition QKEEPALIVE_DEFAULT :: int where "QKEEPALIVE_DEFAULT = 60"

definition setKeysIntern :: "('w, 'm) cenv \<Rightarrow> ('w, 'm) cst \<Rightarrow> ('w, 'm) cst" where
  "setKeysIntern E s =
     (case getpwuid E of
        None \<Rightarrow> s
      | Some (pw_name, pw_dir) \<Rightarrow>
          if sshuser s = [] \<or> sshuser s = pw_name then
            (let set_user = (\<lambda>s. if sshuser s = [] then s\<lparr>sshuser := pw_name\<rparr> else s);
                 priv = pw_dir @ ''/.ssh/id_rsa'';
                 pub = pw_dir @ ''/.ssh/id_rsa.pub''
             in if no_filesystem E then set_user s
                else if \<not> ssh2_fs_access_allowed_quiet E priv [QSEC_READ] s then s\<lparr>sshkeys_priv := []\<rparr>
                else if \<not> path_is_readable E priv (world s) then s\<lparr>sshkeys_priv := []\<rparr>
                else if \<not> ssh2_fs_access_allowed_quiet E pub [QSEC_READ] s
                  then s\<lparr>sshkeys_priv := [], sshkeys_pub := []\<rparr>
                else if \<not> path_is_readable E pub (world s)
                  then s\<lparr>sshkeys_priv := [], sshkeys_pub := []\<rparr>
                else set_user (s\<lparr>sshkeys_priv := priv, sshkeys_pub := pub, auto_key_files := True\<rparr>))
          else s)"

definition setKnownHostsIntern :: "('w, 'm) cenv \<Rightarrow> hk_defaults \<Rightarrow> ('w, 'm) cst \<Rightarrow> ('w, 'm) cst" where
  "setKnownHostsIntern E d s =
     (case ssh2_get_default_known_hosts [] d of (mode, explicit_path) \<Rightarrow>
        if mode = SSH2_KH_DEFAULT_DISABLED then s
        else if mode = SSH2_KH_DEFAULT_EXPLICIT then s\<lparr>known_hosts_file := explicit_path\<rparr>
        else if no_filesystem E then s
        else case getpwuid E of
               Some (pw_name, pw_dir) \<Rightarrow>
                 (if pw_dir \<noteq> [] then s\<lparr>known_hosts_file := pw_dir @ ''/.ssh/known_hosts''\<rparr> else s)
             | None \<Rightarrow> s)"

text \<open>The members as the initialiser lists leave them, for an object of either class.\<close>

definition initial_client :: "hk_defaults \<Rightarrow> bool \<Rightarrow> string \<Rightarrow> 32 word \<Rightarrow> 'w \<Rightarrow> 'w client" where
  "initial_client d sftp host port w = \<lparr>
     sshhost = host, sshuser = [], sshpass = [], sshkeys_pub = [], sshkeys_priv = [],
     sshkeys_priv_data = [], sshkeys_pub_data = [], sshkeys_passphrase = [],
     known_hosts_file = [], verify_host_key = def_verify d, host_key_policy = def_policy d,
     host_key_store = None, client_identity_provider = None,
     client_auth_order = SSH2_CLIENT_AUTH_EXPLICIT_FIRST,
     client_identity_fallback_policy = SSH2_CLIENT_ID_FALLBACK_DISABLED,
     method_prefs = [], ssh_banner = [], sshport = port, keepalive_interval = QKEEPALIVE_DEFAULT,
     use_agent = True, explicit_key_files = False, explicit_key_data = False,
     auto_key_files = False, auth_methods = [], sshauthenticatedwith = None,
     connect_in_progress = False, poll_op_in_progress = False, channel_set = [],
     listener_set = [], sock = None, session_fd_hold = False, ssh_session = False,
     is_sftp = sftp, sftppath = [], sftp_session = False, session_blocking = True,
     chan_open = (\<lambda>_. False), lsn_open = (\<lambda>_. False), next_id = 0, agent_live = False,
     nh_live = False, handle_outlives = False, xsink = [], world = w\<rparr>"

definition SSH2Client_new ::
  "('w, unit) cenv \<Rightarrow> hk_defaults \<Rightarrow> bool \<Rightarrow> string \<Rightarrow> 32 word \<Rightarrow> 'w \<Rightarrow> 'w client" where
  "SSH2Client_new E d sftp hostname port w =
     setKnownHostsIntern E d (setKeysIntern E (initial_client d sftp hostname port w))"

text \<open>The parts of a URL; \<open>None\<close> is a null pointer.\<close>

record qore_url =
  url_host :: "string option"
  url_user :: "string option"
  url_password :: "string option"
  url_port :: "32 word"

definition SSH2Client_new_url ::
  "('w, unit) cenv \<Rightarrow> hk_defaults \<Rightarrow> bool \<Rightarrow> qore_url \<Rightarrow> 32 word \<Rightarrow> 'w \<Rightarrow> 'w client" where
  "SSH2Client_new_url E d sftp url port w =
     (let str = (\<lambda>v. case v of None \<Rightarrow> [] | Some t \<Rightarrow> t);
          p = (if port \<noteq> 0 then port else url_port url);
          p = (if p = 0 then DEFAULT_SSH_PORT else p);
          s = (initial_client d sftp (str (url_host url)) p w)
                \<lparr>sshuser := str (url_user url), sshpass := str (url_password url)\<rparr>
      in setKnownHostsIntern E d (setKeysIntern E s))"

section \<open>Setters\<close>

definition setUser :: "string \<Rightarrow> ('w, 'm) cst \<Rightarrow> int \<times> ('w, 'm) cst" where
  "setUser user s = (if sshSessionActiveUnlocked s then (-1, s) else (0, s\<lparr>sshuser := user\<rparr>))"

definition setPassword :: "string \<Rightarrow> ('w, 'm) cst \<Rightarrow> int \<times> ('w, 'm) cst" where
  "setPassword pwd s = (if sshSessionActiveUnlocked s then (-1, s) else (0, s\<lparr>sshpass := pwd\<rparr>))"

text \<open>The setters that raise \<open>SSH2-CONNECTED\<close> themselves when the session is active.\<close>

definition unless_active :: "(('w, 'm) cst \<Rightarrow> int \<times> ('w, 'm) cst) \<Rightarrow> ('w, 'm) cst \<Rightarrow> int \<times> ('w, 'm) cst" where
  "unless_active f s =
     (if sshSessionActiveUnlocked s then (-1, raise True ''SSH2-CONNECTED'' s) else f s)"

definition setKeys ::
  "('w, 'm) cenv \<Rightarrow> string option \<Rightarrow> string option \<Rightarrow> ('w, 'm) cst \<Rightarrow> int \<times> ('w, 'm) cst" where
  "setKeys E priv pub = unless_active (\<lambda>s.
     let s = s\<lparr>sshkeys_priv := [], sshkeys_pub := [], explicit_key_files := False, auto_key_files := False\<rparr>
     in case priv of
          None \<Rightarrow> (0, s)
        | Some p \<Rightarrow>
            if p = [] then (0, s)
            else
              (case ssh2_check_fs_access E p [QSEC_READ] True s of (rc, s) \<Rightarrow>
                 if rc \<noteq> 0 then (-1, s)
                 else if \<not> path_is_readable E p (world s) then (-1, raise True ''SSH2-SETKEYS-ERROR'' s)
                 else
                   (let q = (case pub of Some q \<Rightarrow> q | None \<Rightarrow> p @ ''.pub'')
                    in case ssh2_check_fs_access E q [QSEC_READ] True s of (rc, s) \<Rightarrow>
                      if rc \<noteq> 0 then (-1, s)
                      else if \<not> path_is_readable E q (world s)
                        then (-1, raise True ''SSH2-SETKEYS-ERROR'' s)
                      else (0, s\<lparr>sshkeys_priv := p, sshkeys_pub := q,
                                 explicit_key_files := (q \<noteq> [])\<rparr>))))"

definition setKeysFromData ::
  "string \<Rightarrow> string option \<Rightarrow> string option \<Rightarrow> ('w, 'm) cst \<Rightarrow> int \<times> ('w, 'm) cst" where
  "setKeysFromData priv_key pub_key passphrase = unless_active (\<lambda>s.
     (0, s\<lparr>sshkeys_priv_data := priv_key,
           sshkeys_pub_data := (case pub_key of Some k \<Rightarrow> k | None \<Rightarrow> []),
           sshkeys_passphrase := (case passphrase of Some p \<Rightarrow> p | None \<Rightarrow> []),
           explicit_key_data := True\<rparr>))"

definition setKnownHostsFile :: "string option \<Rightarrow> ('w, 'm) cst \<Rightarrow> int \<times> ('w, 'm) cst" where
  "setKnownHostsFile path = unless_active (\<lambda>s.
     (0, s\<lparr>known_hosts_file := (case path of Some p \<Rightarrow> p | None \<Rightarrow> [])\<rparr>))"

definition setVerifyHostKey :: "bool \<Rightarrow> ('w, 'm) cst \<Rightarrow> int \<times> ('w, 'm) cst" where
  "setVerifyHostKey verify = unless_active (\<lambda>s. (0, s\<lparr>verify_host_key := verify\<rparr>))"

definition setClientIdentityProvider ::
  "('w, 'm) cenv \<Rightarrow> nat option \<Rightarrow> ('w, 'm) cst \<Rightarrow> int \<times> ('w, 'm) cst" where
  "setClientIdentityProvider E provider = unless_active (\<lambda>s.
     (0, deref_object E (client_identity_provider s)
           ((ref_object E provider s)\<lparr>client_identity_provider := provider\<rparr>)))"

definition setHostKeyStore :: "('w, 'm) cenv \<Rightarrow> nat option \<Rightarrow> ('w, 'm) cst \<Rightarrow> int \<times> ('w, 'm) cst" where
  "setHostKeyStore E store = unless_active (\<lambda>s.
     (0, deref_object E (host_key_store s) ((ref_object E store s)\<lparr>host_key_store := store\<rparr>)))"

text \<open>\<open>std::map\<close> keeps its keys in order; \<open>operator[]\<close> replaces the value of a key.\<close>

fun map_put :: "int \<Rightarrow> string \<Rightarrow> (int \<times> string) list \<Rightarrow> (int \<times> string) list" where
  "map_put k v [] = [(k, v)]"
| "map_put k v ((k', v') # t) =
     (if k < k' then (k, v) # (k', v') # t
      else if k = k' then (k, v) # t
      else (k', v') # map_put k v t)"

definition setMethodPreference :: "int \<Rightarrow> string \<Rightarrow> ('w, 'm) cst \<Rightarrow> int \<times> ('w, 'm) cst" where
  "setMethodPreference method_type prefs = unless_active (\<lambda>s.
     (0, s\<lparr>method_prefs := map_put method_type prefs (method_prefs s)\<rparr>))"

definition setBanner :: "string option \<Rightarrow> ('w, 'm) cst \<Rightarrow> int \<times> ('w, 'm) cst" where
  "setBanner banner = unless_active (\<lambda>s.
     (0, s\<lparr>ssh_banner := (case banner of Some b \<Rightarrow> b | None \<Rightarrow> [])\<rparr>))"

definition setUseAgent :: "bool \<Rightarrow> ('w, 'm) cst \<Rightarrow> int \<times> ('w, 'm) cst" where
  "setUseAgent enable = unless_active (\<lambda>s. (0, s\<lparr>use_agent := enable\<rparr>))"

definition setKeepalive :: "int \<Rightarrow> ('w, 'm) cst \<Rightarrow> int \<times> ('w, 'm) cst" where
  "setKeepalive interval = unless_active (\<lambda>s. (0, s\<lparr>keepalive_interval := interval\<rparr>))"

text \<open>The three policies are refused only while a connection attempt is in progress.\<close>

definition setHostKeyPolicy :: "int \<Rightarrow> ('w, 'm) cst \<Rightarrow> int \<times> ('w, 'm) cst" where
  "setHostKeyPolicy policy s =
     (if connect_in_progress s then (-1, raise True ''SSH2-CONNECTED'' s)
      else if policy \<noteq> SSH2_HOSTKEY_REJECT \<and> policy \<noteq> SSH2_HOSTKEY_TOFU
          \<and> policy \<noteq> SSH2_HOSTKEY_TOFU_SESSION
        then (-1, raise True ''SSH2-HOSTKEY-POLICY-ERROR'' s)
      else (0, s\<lparr>host_key_policy := policy\<rparr>))"

definition setClientAuthOrder :: "int \<Rightarrow> ('w, 'm) cst \<Rightarrow> int \<times> ('w, 'm) cst" where
  "setClientAuthOrder order s =
     (if connect_in_progress s then (-1, raise True ''SSH2-CONNECTED'' s)
      else if order \<noteq> SSH2_CLIENT_AUTH_EXPLICIT_FIRST \<and> order \<noteq> SSH2_CLIENT_AUTH_PROVIDER_FIRST
        then (-1, raise True ''SSH2-CLIENT-AUTH-ORDER-ERROR'' s)
      else (0, s\<lparr>client_auth_order := order\<rparr>))"

definition setClientIdentityFallbackPolicy :: "int \<Rightarrow> ('w, 'm) cst \<Rightarrow> int \<times> ('w, 'm) cst" where
  "setClientIdentityFallbackPolicy policy s =
     (if connect_in_progress s then (-1, raise True ''SSH2-CONNECTED'' s)
      else if policy \<noteq> SSH2_CLIENT_ID_FALLBACK_DISABLED \<and> policy \<noteq> SSH2_CLIENT_ID_FALLBACK_AGENT
          \<and> policy \<noteq> SSH2_CLIENT_ID_FALLBACK_DEFAULT_KEYS
          \<and> policy \<noteq> SSH2_CLIENT_ID_FALLBACK_AGENT_AND_DEFAULT_KEYS
        then (-1, raise True ''SSH2-CLIENT-IDENTITY-FALLBACK-POLICY-ERROR'' s)
      else (0, s\<lparr>client_identity_fallback_policy := policy\<rparr>))"

section \<open>Reserving the client for a poll operation\<close>

definition reservePollOperation :: "('w, 'm) cst \<Rightarrow> int \<times> ('w, 'm) cst" where
  "reservePollOperation s =
     (if poll_op_in_progress s then (-1, raise True ''SSH2-POLL-IN-PROGRESS'' s)
      else if connect_in_progress s then (-1, raise True ''SSH2-CONNECT-IN-PROGRESS'' s)
      else (0, s\<lparr>poll_op_in_progress := True\<rparr>))"

section \<open>What the setters promise\<close>

text \<open>
  \<open>settings\<close> is the configuration that a session is established with and the class of the
  object, \<open>policies\<close> the three policies with their own guard, \<open>connection\<close> everything of the object that is no
  configuration.
\<close>

definition settings where
  "settings s = (sshhost s, sshport s, sshuser s, sshpass s, sshkeys_pub s, sshkeys_priv s,
     sshkeys_priv_data s, sshkeys_pub_data s, sshkeys_passphrase s, known_hosts_file s,
     verify_host_key s, host_key_store s, client_identity_provider s, method_prefs s,
     ssh_banner s, keepalive_interval s, use_agent s, explicit_key_files s,
     explicit_key_data s, auto_key_files s, is_sftp s)"

definition policies where
  "policies s = (host_key_policy s, client_auth_order s, client_identity_fallback_policy s)"

definition connection where
  "connection s = (connect_in_progress s, poll_op_in_progress s, channel_set s, listener_set s,
     sock s, session_fd_hold s, ssh_session s, is_sftp s, sftppath s, sftp_session s,
     session_blocking s, chan_open s, lsn_open s, next_id s, agent_live s, nh_live s,
     handle_outlives s, sshauthenticatedwith s, auth_methods s, client.more s)"

text \<open>
  A valid configuration: the policies are known ones, and key files that count as explicit or
  discovered are both named, and not both at once.
\<close>

definition config_valid :: "('w, 'm) cst \<Rightarrow> bool" where
  "config_valid s \<longleftrightarrow> valid_policy (host_key_policy s)
     \<and> client_auth_order s \<in> {SSH2_CLIENT_AUTH_EXPLICIT_FIRST, SSH2_CLIENT_AUTH_PROVIDER_FIRST}
     \<and> client_identity_fallback_policy s \<in> {SSH2_CLIENT_ID_FALLBACK_DISABLED,
          SSH2_CLIENT_ID_FALLBACK_AGENT, SSH2_CLIENT_ID_FALLBACK_DEFAULT_KEYS,
          SSH2_CLIENT_ID_FALLBACK_AGENT_AND_DEFAULT_KEYS}
     \<and> (explicit_key_files s \<or> auto_key_files s \<longrightarrow> sshkeys_priv s \<noteq> [] \<and> sshkeys_pub s \<noteq> [])
     \<and> \<not> (explicit_key_files s \<and> auto_key_files s)
     \<and> sorted (map fst (method_prefs s)) \<and> distinct (map fst (method_prefs s))"

lemma keys_map_put: "fst ` set (map_put k v m) = insert k (fst ` set m)"
  by (induction k v m rule: map_put.induct) auto

lemma map_put_ordered:
  "sorted (map fst m) \<Longrightarrow> distinct (map fst m) \<Longrightarrow>
   sorted (map fst (map_put k v m)) \<and> distinct (map fst (map_put k v m))"
proof (induction k v m rule: map_put.induct)
  case (2 k v k' v' t)
  have "set (map fst (map_put k v t)) = insert k (set (map fst t))"
    using keys_map_put [of k v t] by simp
  with 2 show ?case by (auto simp: order.strict_iff_order)
qed simp

lemma map_put_lookup: "map_of (map_put k v m) = (map_of m)(k \<mapsto> v)"
  by (induction k v m rule: map_put.induct) (auto simp: fun_eq_iff)

locale config_setter =
  fixes op :: "('w, 'm) client_scheme \<Rightarrow> int \<times> ('w, 'm) client_scheme"
  assumes keeps_connection: "connection (snd (op s)) = connection s"
    and keeps_valid: "config_valid s \<Longrightarrow> config_valid (snd (op s))"
    and settings_frozen: "sshSessionActiveUnlocked s \<Longrightarrow> settings (snd (op s)) = settings s"
    and keeps_world: "sshSessionActiveUnlocked s \<Longrightarrow> world (snd (op s)) = world s"
    and policies_frozen: "connect_in_progress s \<Longrightarrow> policies (snd (op s)) = policies s"
    and failure_changes_no_policy: "fst (op s) \<noteq> 0 \<Longrightarrow> policies (snd (op s)) = policies s"
begin

lemma keeps_conn_inv: "conn_inv (snd (op s)) = conn_inv s"
  using keeps_connection [of s] by (simp add: conn_inv_def connection_def)

lemma keeps_active: "sshSessionActiveUnlocked (snd (op s)) = sshSessionActiveUnlocked s"
  using keeps_connection [of s] by (simp add: sshSessionActiveUnlocked_def connection_def)

lemma keeps_connecting: "connect_in_progress (snd (op s)) = connect_in_progress s"
  using keeps_connection [of s] by (simp add: connection_def)

end

lemmas setter_defs = settings_def policies_def connection_def config_valid_def
  unless_active_def raise_def sshSessionActiveUnlocked_def

lemmas reference_defs = ref_object_def deref_object_def run_ext_def

interpretation user: config_setter "setUser u" for u
  by unfold_locales (auto simp: setUser_def setter_defs)

interpretation password: config_setter "setPassword p" for p
  by unfold_locales (auto simp: setPassword_def setter_defs)

interpretation keys: config_setter "setKeys E priv pub" for E priv pub
  by unfold_locales
    (auto simp: setKeys_def ssh2_check_fs_access_def setter_defs Let_def split: option.splits)

interpretation key_data: config_setter "setKeysFromData k p f" for k p f
  by unfold_locales (auto simp: setKeysFromData_def setter_defs)

interpretation known_hosts: config_setter "setKnownHostsFile p" for p
  by unfold_locales (auto simp: setKnownHostsFile_def setter_defs)

interpretation verify: config_setter "setVerifyHostKey v" for v
  by unfold_locales (auto simp: setVerifyHostKey_def setter_defs)

interpretation provider: config_setter "setClientIdentityProvider E p" for E p
  by unfold_locales (auto simp: setClientIdentityProvider_def reference_defs setter_defs split: option.splits)

interpretation store: config_setter "setHostKeyStore E p" for E p
  by unfold_locales (auto simp: setHostKeyStore_def reference_defs setter_defs split: option.splits)

interpretation preference: config_setter "setMethodPreference k v" for k v
  by unfold_locales (auto simp: setMethodPreference_def setter_defs map_put_ordered)

interpretation banner: config_setter "setBanner b" for b
  by unfold_locales (auto simp: setBanner_def setter_defs)

interpretation agent: config_setter "setUseAgent b" for b
  by unfold_locales (auto simp: setUseAgent_def setter_defs)

interpretation keepalive: config_setter "setKeepalive i" for i
  by unfold_locales (auto simp: setKeepalive_def setter_defs)

interpretation host_policy: config_setter "setHostKeyPolicy p" for p
  by unfold_locales (auto simp: setHostKeyPolicy_def valid_policy_def setter_defs)

interpretation auth_order: config_setter "setClientAuthOrder p" for p
  by unfold_locales (auto simp: setClientAuthOrder_def setter_defs)

interpretation fallback: config_setter "setClientIdentityFallbackPolicy p" for p
  by unfold_locales (auto simp: setClientIdentityFallbackPolicy_def setter_defs)

section \<open>Sequences of setter calls\<close>

datatype setting =
    User string
  | Password string
  | Keys "string option" "string option"
  | KeyData string "string option" "string option"
  | KnownHosts "string option"
  | Verify bool
  | Provider "nat option"
  | Store "nat option"
  | Preference int string
  | Banner "string option"
  | UseAgent bool
  | Keepalive int
  | HostKeyPolicy int
  | AuthOrder int
  | FallbackPolicy int

fun apply_setting :: "('w, 'm) cenv \<Rightarrow> setting \<Rightarrow> ('w, 'm) cst \<Rightarrow> int \<times> ('w, 'm) cst" where
  "apply_setting E (User u) s = setUser u s"
| "apply_setting E (Password p) s = setPassword p s"
| "apply_setting E (Keys priv pub) s = setKeys E priv pub s"
| "apply_setting E (KeyData k p f) s = setKeysFromData k p f s"
| "apply_setting E (KnownHosts p) s = setKnownHostsFile p s"
| "apply_setting E (Verify v) s = setVerifyHostKey v s"
| "apply_setting E (Provider p) s = setClientIdentityProvider E p s"
| "apply_setting E (Store p) s = setHostKeyStore E p s"
| "apply_setting E (Preference k v) s = setMethodPreference k v s"
| "apply_setting E (Banner b) s = setBanner b s"
| "apply_setting E (UseAgent b) s = setUseAgent b s"
| "apply_setting E (Keepalive i) s = setKeepalive i s"
| "apply_setting E (HostKeyPolicy p) s = setHostKeyPolicy p s"
| "apply_setting E (AuthOrder p) s = setClientAuthOrder p s"
| "apply_setting E (FallbackPolicy p) s = setClientIdentityFallbackPolicy p s"

definition configure :: "('w, 'm) cenv \<Rightarrow> setting list \<Rightarrow> ('w, 'm) cst \<Rightarrow> ('w, 'm) cst" where
  "configure E cs s = fold (\<lambda>c s. snd (apply_setting E c s)) cs s"

interpretation setting: config_setter "apply_setting E c" for E c
proof unfold_locales
  fix s :: "('a, 'b) client_scheme"
  show "connection (snd (apply_setting E c s)) = connection s"
    by (cases c) (simp_all add: user.keeps_connection password.keeps_connection
        keys.keeps_connection key_data.keeps_connection known_hosts.keeps_connection
        verify.keeps_connection provider.keeps_connection store.keeps_connection
        preference.keeps_connection banner.keeps_connection agent.keeps_connection
        keepalive.keeps_connection host_policy.keeps_connection auth_order.keeps_connection
        fallback.keeps_connection)
  show "config_valid s \<Longrightarrow> config_valid (snd (apply_setting E c s))"
    by (cases c) (simp_all add: user.keeps_valid password.keeps_valid keys.keeps_valid
        key_data.keeps_valid known_hosts.keeps_valid verify.keeps_valid provider.keeps_valid
        store.keeps_valid preference.keeps_valid banner.keeps_valid agent.keeps_valid
        keepalive.keeps_valid host_policy.keeps_valid auth_order.keeps_valid fallback.keeps_valid)
  show "sshSessionActiveUnlocked s \<Longrightarrow> settings (snd (apply_setting E c s)) = settings s"
    by (cases c) (simp_all add: user.settings_frozen password.settings_frozen
        keys.settings_frozen key_data.settings_frozen known_hosts.settings_frozen
        verify.settings_frozen provider.settings_frozen store.settings_frozen
        preference.settings_frozen banner.settings_frozen agent.settings_frozen
        keepalive.settings_frozen host_policy.settings_frozen auth_order.settings_frozen
        fallback.settings_frozen)
  show "sshSessionActiveUnlocked s \<Longrightarrow> world (snd (apply_setting E c s)) = world s"
    by (cases c) (simp_all add: user.keeps_world password.keeps_world keys.keeps_world
        key_data.keeps_world known_hosts.keeps_world verify.keeps_world provider.keeps_world
        store.keeps_world preference.keeps_world banner.keeps_world agent.keeps_world
        keepalive.keeps_world host_policy.keeps_world auth_order.keeps_world fallback.keeps_world)
  show "connect_in_progress s \<Longrightarrow> policies (snd (apply_setting E c s)) = policies s"
    by (cases c) (simp_all add: user.policies_frozen password.policies_frozen
        keys.policies_frozen key_data.policies_frozen known_hosts.policies_frozen
        verify.policies_frozen provider.policies_frozen store.policies_frozen
        preference.policies_frozen banner.policies_frozen agent.policies_frozen
        keepalive.policies_frozen host_policy.policies_frozen auth_order.policies_frozen
        fallback.policies_frozen)
  show "fst (apply_setting E c s) \<noteq> 0 \<Longrightarrow> policies (snd (apply_setting E c s)) = policies s"
    by (cases c) (simp_all add: user.failure_changes_no_policy
        password.failure_changes_no_policy keys.failure_changes_no_policy
        key_data.failure_changes_no_policy known_hosts.failure_changes_no_policy
        verify.failure_changes_no_policy provider.failure_changes_no_policy
        store.failure_changes_no_policy preference.failure_changes_no_policy
        banner.failure_changes_no_policy agent.failure_changes_no_policy
        keepalive.failure_changes_no_policy host_policy.failure_changes_no_policy
        auth_order.failure_changes_no_policy fallback.failure_changes_no_policy)
qed

lemma configure_simps [simp]:
  "configure E [] s = s" "configure E (c # cs) s = configure E cs (snd (apply_setting E c s))"
  by (simp_all add: configure_def)

lemma configure_connection: "connection (configure E cs s) = connection s"
  by (induction cs arbitrary: s) (simp_all add: setting.keeps_connection)

lemma configure_valid: "config_valid s \<Longrightarrow> config_valid (configure E cs s)"
  by (induction cs arbitrary: s) (simp_all add: setting.keeps_valid)

section \<open>Properties\<close>

lemma check_addresses_ok:
  "fst (check_addresses E host as s) = 0 \<longleftrightarrow> filter (\<lambda>a. \<not> tcp_allowed E host a (world s)) as = []"
  by (induction as) simp_all

lemma check_addresses_sink:
  "xsink (snd (check_addresses E host as s)) = xsink s \<longleftrightarrow>
     filter (\<lambda>a. \<not> tcp_allowed E host a (world s)) as = []"
  by (induction as) (simp_all add: raise_def)

lemma setKeysIntern_valid:
  assumes "config_valid s" "\<not> explicit_key_files s" "\<not> auto_key_files s"
  shows "config_valid (setKeysIntern E s)"
proof -
  have "config_valid (s\<lparr>sshuser := u\<rparr>)" "config_valid (s\<lparr>sshkeys_priv := a\<rparr>)"
    "config_valid (s\<lparr>sshkeys_priv := a, sshkeys_pub := b\<rparr>)"
    "a \<noteq> [] \<Longrightarrow> b \<noteq> [] \<Longrightarrow> config_valid (s\<lparr>sshkeys_priv := a, sshkeys_pub := b, auto_key_files := True\<rparr>)"
    "a \<noteq> [] \<Longrightarrow> b \<noteq> [] \<Longrightarrow>
       config_valid (s\<lparr>sshkeys_priv := a, sshkeys_pub := b, auto_key_files := True, sshuser := u\<rparr>)" for u a b
    using assms by (simp_all add: config_valid_def)
  with assms(1) show ?thesis
    by (simp add: setKeysIntern_def Let_def split: option.split prod.split)
qed

lemma setKnownHostsIntern_valid: "config_valid s \<Longrightarrow> config_valid (setKnownHostsIntern E d s)"
  by (auto simp: setKnownHostsIntern_def config_valid_def split: option.splits prod.splits)

lemma initial_client_valid: "defaults_inv d \<Longrightarrow> config_valid (initial_client d sftp h p w)"
  by (simp add: initial_client_def config_valid_def defaults_inv_def)

lemma new_client_valid:
  assumes "defaults_reachable d"
  shows "config_valid (SSH2Client_new E d sftp host port w)
     \<and> config_valid (SSH2Client_new_url E d sftp url port w)"
proof -
  have init: "config_valid (initial_client d sftp h p w)" for h p
    by (rule initial_client_valid [OF defaults_inv_reachable [OF assms]])
  have "config_valid ((initial_client d sftp h p w)\<lparr>sshuser := u, sshpass := q\<rparr>)" for h p u q
    using init [of h p] by (simp add: config_valid_def)
  then have url: "config_valid (SSH2Client_new_url E d sftp url port w)"
    unfolding SSH2Client_new_url_def Let_def
    by (intro setKnownHostsIntern_valid setKeysIntern_valid) (simp_all add: initial_client_def)
  have "config_valid (SSH2Client_new E d sftp host port w)"
    unfolding SSH2Client_new_def
    by (intro setKnownHostsIntern_valid setKeysIntern_valid init) (simp_all add: initial_client_def)
  with url show ?thesis by blast
qed

text \<open>
  C14 (invariant). The configuration of a client is valid from its construction on, whatever
  calls of setters follow: the policies are known ones, and key files that the authentication
  treats as explicitly set or as discovered are both named, never both at once.
\<close>

theorem config_always_valid:
  assumes "defaults_reachable d"
  shows "config_valid (configure E cs (SSH2Client_new E d sftp host port w))
     \<and> config_valid (configure E cs (SSH2Client_new_url E d sftp url port w))"
  by (intro conjI configure_valid new_client_valid [OF assms, THEN conjunct1]
      new_client_valid [OF assms, THEN conjunct2])

theorem config_always_valid_witness:
  "config_valid (configure env0 [HostKeyPolicy 9, Keys (Some ''/k/id'') None]
     (SSH2Client_new env0 (ssh2_init_host_key_defaults None None None ssh2_defaults_init) False ''h'' 22
        \<lparr>pending = 0, log = []\<rparr>))"
  using config_always_valid [OF defaults_reachable.loaded [of None None None], of env0] by blast

text \<open>
  C13 (safety). What a sequence of setter calls can change. While a session exists, or a
  connection attempt or a poll operation is in progress, every setting other than the three
  policies keeps its value and nothing outside the client happens. The policies (host keys,
  order of authentication, fallback) keep theirs while \<open>connect()\<close> is in progress, and only then:
  otherwise, and so also while a poll operation connects, a valid host key policy takes effect
  at once. The state of the connection is never changed by a setter.
\<close>

theorem settings_frozen_while_active:
  "(sshSessionActiveUnlocked s \<longrightarrow> settings (configure E cs s) = settings s \<and> world (configure E cs s) = world s)
   \<and> (connect_in_progress s \<longrightarrow> policies (configure E cs s) = policies s)
   \<and> (\<not> connect_in_progress s \<and> valid_policy p \<longrightarrow>
        configure E [HostKeyPolicy p] s = s\<lparr>host_key_policy := p\<rparr>)
   \<and> connection (configure E cs s) = connection s"
proof (intro conjI impI)
  show "connect_in_progress s \<Longrightarrow> policies (configure E cs s) = policies s"
    by (induction cs arbitrary: s) (simp_all add: setting.policies_frozen setting.keeps_connecting)
  assume "sshSessionActiveUnlocked s"
  then show "settings (configure E cs s) = settings s" "world (configure E cs s) = world s"
    by (induction cs arbitrary: s)
      (simp_all add: setting.settings_frozen setting.keeps_world setting.keeps_active)
next
  assume "\<not> connect_in_progress s \<and> valid_policy p"
  then show "configure E [HostKeyPolicy p] s = s\<lparr>host_key_policy := p\<rparr>"
    by (auto simp: setHostKeyPolicy_def valid_policy_def)
next
  show "connection (configure E cs s) = connection s" by (rule configure_connection)
qed

theorem settings_frozen_while_active_witness:
  "settings (configure env0 [User ''eve'', Verify False, HostKeyPolicy 2] (client_up\<lparr>connect_in_progress := True\<rparr>))
     = settings (client_up\<lparr>connect_in_progress := True\<rparr>)
   \<and> policies (configure env0 [User ''eve'', Verify False, HostKeyPolicy 2] (client_up\<lparr>connect_in_progress := True\<rparr>))
     = policies (client_up\<lparr>connect_in_progress := True\<rparr>)
   \<and> configure env0 [HostKeyPolicy SSH2_HOSTKEY_TOFU_SESSION] (client0\<lparr>poll_op_in_progress := True\<rparr>)
     = client0\<lparr>poll_op_in_progress := True, host_key_policy := SSH2_HOSTKEY_TOFU_SESSION\<rparr>"
  using settings_frozen_while_active [of "client_up\<lparr>connect_in_progress := True\<rparr>" env0
      "[User ''eve'', Verify False, HostKeyPolicy 2]"]
    settings_frozen_while_active [of "client0\<lparr>poll_op_in_progress := True\<rparr>" env0 "[]" SSH2_HOSTKEY_TOFU_SESSION]
  by (simp add: sshSessionActiveUnlocked_def valid_policy_def client0_def)

text \<open>
  The guard of the policies misses connection attempts of poll operations: while
  one owns the session, the host key policy can be changed to any valid policy before the
  server's key is checked.
\<close>

lemma policy_unguarded_in_poll:
  assumes "poll_op_in_progress s" "\<not> connect_in_progress s" "valid_policy p"
  shows "setHostKeyPolicy p s = (0, s\<lparr>host_key_policy := p\<rparr>)
     \<and> setVerifyHostKey v s = (-1, s\<lparr>xsink := xsink s @ [''SSH2-CONNECTED'']\<rparr>)"
  using assms by (auto simp: setHostKeyPolicy_def setVerifyHostKey_def valid_policy_def setter_defs)

lemma policy_unguarded_in_poll_example:
  "setHostKeyPolicy SSH2_HOSTKEY_TOFU_SESSION (client0\<lparr>poll_op_in_progress := True\<rparr>)
     = (0, client0\<lparr>poll_op_in_progress := True, host_key_policy := SSH2_HOSTKEY_TOFU_SESSION\<rparr>)"
  using policy_unguarded_in_poll [of "client0\<lparr>poll_op_in_progress := True\<rparr>" SSH2_HOSTKEY_TOFU_SESSION]
  by (simp add: valid_policy_def client0_def)

text \<open>
  C22 (error). The destination of a tunnel is accepted in a sandbox only when its host name
  resolves and every address it resolves to is allowed; in every other case the check fails
  with an exception, and outside a sandbox it always succeeds.
\<close>

theorem tunnel_destination_checked:
  "(fst (ssh2_check_tunnel_destination E host port s) = 0 \<longleftrightarrow>
     \<not> sandboxed E \<or> (\<exists>as w. resolve E host port (world s) = (Some as, w) \<and> as \<noteq> []
        \<and> filter (\<lambda>a. \<not> tcp_allowed E host a w) as = []))
   \<and> (fst (ssh2_check_tunnel_destination E host port s) = 0 \<longleftrightarrow>
        xsink (snd (ssh2_check_tunnel_destination E host port s)) = xsink s)"
  using check_addresses_sink [of E host _ "s\<lparr>world := snd (resolve E host port (world s))\<rparr>"]
  by (auto simp: ssh2_check_tunnel_destination_def call_ext_def raise_def check_addresses_ok split: prod.splits option.splits list.splits)

theorem tunnel_destination_checked_witness:
  "fst (ssh2_check_tunnel_destination
     (env0\<lparr>sandboxed := True, tcp_allowed := (\<lambda>_ a _. a \<noteq> ''h'')\<rparr> :: (tworld, tworld client) env) ''h'' 22 client_up) \<noteq> 0"
  using tunnel_destination_checked [of
      "env0\<lparr>sandboxed := True, tcp_allowed := (\<lambda>_ a _. a \<noteq> ''h'')\<rparr> :: (tworld, tworld client) env" "''h''" 22 client_up]
  by (simp add: env0_def)

end
