(* ===== verification/Ssh2_HostKey.thy ===== *)
theory Ssh2_HostKey
  imports Ssh2_Config
begin

text \<open>
  Host key verification (\<open>src/src/SSH2Client.cpp\<close>): the known-hosts file with its three
  policies, a host-key store object that is asked instead, and the operations \<open>getHostKey()\<close>
  and \<open>addKnownHost()\<close>. The properties state that a connection goes on only with a key that
  was checked, and that every refusal leaves the client disconnected, with an exception, and
  with the known-hosts context freed before the session.
\<close>

section \<open>Asking a host-key store\<close>

definition makeProviderContext ::
  "('w, 'm) cenv \<Rightarrow> string \<Rightarrow> int \<Rightarrow> ('w, 'm) cst \<Rightarrow> (string \<times> qvalue) list" where
  "makeProviderContext E purpose tmo s =
     (let now_ns = monotonic_nanos E (world s);
          remaining_ns = (if tmo < 0 then 0 else tmo * 1000000);
          deadline_ns = (if remaining_ns \<noteq> 0 then now_ns + remaining_ns else 0)
      in [(''purpose'', QString purpose),
          (''original_host'', QString (sshhost s)),
          (''normalized_host'', QString (ssh2_normalize_host (sshhost s))),
          (''port'', QInt (uint (sshport s))),
          (''username'', if sshuser s = [] then QNothing else QString (sshuser s)),
          (''host_key_policy'', QString (ssh2_host_key_policy_name (host_key_policy s))),
          (''client_auth_order'', QString (ssh2_client_auth_order_name (client_auth_order s))),
          (''client_identity_fallback_policy'',
             QString (ssh2_client_identity_fallback_policy_name (client_identity_fallback_policy s))),
          (''deadline_ns'', QInt deadline_ns),
          (''remaining_ns'', QInt remaining_ns)])"

definition makeObservedHostKeyInfo :: "string \<Rightarrow> hostkey_type \<Rightarrow> (string \<times> qvalue) list" where
  "makeObservedHostKeyInfo hostkey type =
     [(''algorithm'', QString (ssh2_hostkey_type_name type)),
      (''public_key_blob'', QBinary hostkey),
      (''source_kind'', QString ''transport'')]"

text \<open>The value of a key as a C string; a conversion that fails raises an exception.\<close>

definition ssh2_get_hash_string ::
  "('w, 'm) cenv \<Rightarrow> (string \<times> qvalue) list \<Rightarrow> string \<Rightarrow> ('w, 'm) cst \<Rightarrow> string option \<times> ('w, 'm) cst" where
  "ssh2_get_hash_string E h key s =
     (if hash_get h key = QNothing then (None, s)
      else case to_qstring E (hash_get h key) of
             None \<Rightarrow> (None, raise True (convert_exn E) s)
           | Some v \<Rightarrow> (if xsink s \<noteq> [] then None else Some (c_str v), s))"

definition ssh2_call_host_key_store ::
  "('w, 'm) cenv \<Rightarrow> nat \<Rightarrow> (string \<times> qvalue) list \<Rightarrow> (string \<times> qvalue) list \<Rightarrow> string \<Rightarrow> ('w, 'm) cst \<Rightarrow>
   (string \<times> qvalue) list option \<times> ('w, 'm) cst" where
  "ssh2_call_host_key_store E store ctxt observed method s =
     (case store_call E store method ctxt observed s of
        (None, s) \<Rightarrow> (None, raise True ''SSH2-HOSTKEY-PROVIDER-ERROR'' s)
      | (Some (QHash h), s) \<Rightarrow> (Some h, s)
      | (Some _, s) \<Rightarrow> (None, raise True ''SSH2-HOSTKEY-INVALID-RESPONSE'' s))"

text \<open>
  One question to the store: the name of its decision, or \<open>None\<close> with an exception raised.
\<close>

definition ask_store ::
  "('w, 'm) cenv \<Rightarrow> nat \<Rightarrow> (string \<times> qvalue) list \<Rightarrow> (string \<times> qvalue) list \<Rightarrow> string \<Rightarrow> ('w, 'm) cst \<Rightarrow>
   string option \<times> ('w, 'm) cst" where
  "ask_store E store ctxt observed method s =
     (case ssh2_call_host_key_store E store ctxt observed method s of (decision, s) \<Rightarrow>
        if xsink s \<noteq> [] then (None, s)
        else case decision of
          None \<Rightarrow> (None, raise True ''SSH2-HOSTKEY-INVALID-RESPONSE'' s)
        | Some h \<Rightarrow>
            (case ssh2_get_hash_string E h ''decision'' s of
               (None, s) \<Rightarrow> (None, if xsink s = [] then raise True ''SSH2-HOSTKEY-INVALID-RESPONSE'' s else s)
             | (Some d, s) \<Rightarrow> (Some d, s)))"

definition verifyHostKeyWithStore ::
  "('w, 'm) cenv \<Rightarrow> nat \<Rightarrow> string \<Rightarrow> hostkey_type \<Rightarrow> int \<Rightarrow> ('w, 'm) cst \<Rightarrow> int \<times> ('w, 'm) cst" where
  "verifyHostKeyWithStore E store hostkey type tmo s =
     (let ctxt = makeProviderContext E ''host-key-verify'' tmo s;
          observed = makeObservedHostKeyInfo hostkey type;
          reject = (\<lambda>d s. (-1, raise True (ssh2_hostkey_decision_exception d) s))
      in if xsink s \<noteq> [] then (-1, s)
         else case ask_store E store ctxt observed ''verifyHostKey'' s of
           (None, s) \<Rightarrow> (-1, s)
         | (Some d, s) \<Rightarrow>
             if ssh2_hostkey_decision_success d then (0, s)
             else if d = ''unknown'' \<and>
                 (host_key_policy s = SSH2_HOSTKEY_TOFU \<or> host_key_policy s = SSH2_HOSTKEY_TOFU_SESSION)
             then
               (let accept_ctxt = makeProviderContext E ''host-key-accept'' tmo s
                in if xsink s \<noteq> [] then (-1, s)
                   else case ask_store E store accept_ctxt observed ''acceptHostKeyIfAbsent'' s of
                     (None, s) \<Rightarrow> (-1, s)
                   | (Some d, s) \<Rightarrow> if ssh2_hostkey_decision_success d then (0, s) else reject d s)
             else reject d s)"

section \<open>The known-hosts file\<close>

text \<open>
  The steps of the file-based verification end with \<open>Proceed\<close>, or with \<open>Refuse\<close> and the
  exception to raise after the connection is closed; \<open>Refuse None\<close> when one was raised
  already.
\<close>

datatype verdict = Proceed | Refuse "string option"

definition kh_load :: "('w, 'm) cenv \<Rightarrow> ('w, 'm) cst \<Rightarrow> verdict \<times> ('w, 'm) cst" where
  "kh_load E s =
     (case ssh2_check_fs_access E (known_hosts_file s) [QSEC_READ] True s of (rc, s) \<Rightarrow>
        if rc \<noteq> 0 then (Refuse None, s)
        else case stat_path E (known_hosts_file s) (world s) of
          StatOk _ \<Rightarrow>
            (case call_ext (knownhost_readfile E (known_hosts_file s)) s of (read_rc, s) \<Rightarrow>
               (if read_rc < 0 then Refuse (Some ''SSH2-HOSTKEY-ERROR'') else Proceed, s))
        | StatErr e \<Rightarrow> (if e \<noteq> ENOENT then Refuse (Some ''SSH2-HOSTKEY-ERROR'') else Proceed, s))"

definition kh_write :: "('w, 'm) cenv \<Rightarrow> ('w, 'm) cst \<Rightarrow> verdict \<times> ('w, 'm) cst" where
  "kh_write E s =
     (case ssh2_check_fs_access E (known_hosts_file s) [QSEC_WRITE, QSEC_CREATE] True s of (rc, s) \<Rightarrow>
        if rc \<noteq> 0 then (Refuse None, s)
        else case ensure_parent_dir E (known_hosts_file s) s of (rc, s) \<Rightarrow>
          if rc \<noteq> 0 then (Refuse (if xsink s \<noteq> [] then None else Some ''SSH2-HOSTKEY-ERROR''), s)
          else case call_ext (knownhost_writefile E (known_hosts_file s)) s of (write_rc, s) \<Rightarrow>
            (if write_rc \<noteq> 0 then Refuse (Some ''SSH2-HOSTKEY-ERROR'') else Proceed, s))"

definition kh_add ::
  "('w, 'm) cenv \<Rightarrow> string \<Rightarrow> string \<Rightarrow> hostkey_type \<Rightarrow> ('w, 'm) cst \<Rightarrow> verdict \<times> ('w, 'm) cst" where
  "kh_add E host hostkey type s =
     (case call_ext (knownhost_addc E host hostkey (kh_type type)) s of (add_rc, s) \<Rightarrow>
        (if add_rc \<noteq> 0 then Refuse (Some ''SSH2-HOSTKEY-ERROR'') else Proceed, s))"

definition kh_check_key ::
  "('w, 'm) cenv \<Rightarrow> string \<Rightarrow> hostkey_type \<Rightarrow> ('w, 'm) cst \<Rightarrow> verdict \<times> ('w, 'm) cst" where
  "kh_check_key E hostkey type s =
     (case knownhost_checkp E (sshhost s) (sshport s) hostkey (kh_type type) (world s) of
        CHECK_MISMATCH \<Rightarrow> (Refuse (Some ''SSH2-HOSTKEY-MISMATCH''), s)
      | CHECK_NOTFOUND \<Rightarrow>
          if host_key_policy s = SSH2_HOSTKEY_TOFU \<or> host_key_policy s = SSH2_HOSTKEY_TOFU_SESSION then
            (case kh_add E (sshhost s) hostkey type s of
               (Proceed, s) \<Rightarrow> if known_hosts_file s \<noteq> [] then kh_write E s else (Proceed, s)
             | (Refuse c, s) \<Rightarrow> (Refuse c, s))
          else (Refuse (Some ''SSH2-HOSTKEY-UNKNOWN''), s)
      | CHECK_FAILURE \<Rightarrow> (Refuse (Some ''SSH2-HOSTKEY-ERROR''), s)
      | CHECK_MATCH \<Rightarrow> (Proceed, s)
      | CHECK_OTHER _ \<Rightarrow> (Proceed, s))"

definition nh_init :: "('w, 'm) cenv \<Rightarrow> ('w, 'm) cst \<Rightarrow> bool \<times> ('w, 'm) cst" where
  "nh_init E s = (case call_ext (knownhost_init E) s of (ok, s) \<Rightarrow> (ok, s\<lparr>nh_live := ok\<rparr>))"

definition nh_free :: "('w, 'm) cenv \<Rightarrow> ('w, 'm) cst \<Rightarrow> ('w, 'm) cst" where
  "nh_free E s = (run_ext (knownhost_free E) s)\<lparr>nh_live := False\<rparr>"

definition disconnect_raise ::
  "('w, 'm) cenv \<Rightarrow> string option \<Rightarrow> ('w, 'm) cst \<Rightarrow> (int \<times> ('w, 'm) cst) option" where
  "disconnect_raise E code s =
     do { (_, s) \<leftarrow> force_disconnect E s;
          Some (-1, case code of None \<Rightarrow> s | Some c \<Rightarrow> raise True c s) }"

definition kh_verify :: "('w, 'm) cenv \<Rightarrow> string \<Rightarrow> hostkey_type \<Rightarrow> ('w, 'm) cst \<Rightarrow> verdict \<times> ('w, 'm) cst" where
  "kh_verify E hostkey type s =
     (if known_hosts_file s = [] \<and> host_key_policy s = SSH2_HOSTKEY_TOFU
      then (Refuse (Some ''SSH2-HOSTKEY-ERROR''), s)
      else case (if known_hosts_file s \<noteq> [] then kh_load E s else (Proceed, s)) of
        (Refuse c, s) \<Rightarrow> (Refuse c, s)
      | (Proceed, s) \<Rightarrow> kh_check_key E hostkey type s)"

definition verifyHostKeyUnlocked ::
  "('w, 'm) cenv \<Rightarrow> int \<Rightarrow> ('w, 'm) cst \<Rightarrow> (int \<times> ('w, 'm) cst) option" where
  "verifyHostKeyUnlocked E tmo s =
     (if \<not> verify_host_key s then Some (0, s)
      else if \<not> have_knownhost_api E then disconnect_raise E (Some ''SSH2-HOSTKEY-ERROR'') s
      else case session_hostkey E (world s) of
        None \<Rightarrow> disconnect_raise E (Some ''SSH2-HOSTKEY-ERROR'') s
      | Some (hostkey, type) \<Rightarrow>
          (case host_key_store s of
             Some store \<Rightarrow>
               (case verifyHostKeyWithStore E store hostkey type tmo s of (rc, s) \<Rightarrow>
                  if rc \<noteq> 0 then disconnect_raise E None s else Some (0, s))
           | None \<Rightarrow>
               (case nh_init E s of (ok, s) \<Rightarrow>
                  if \<not> ok then disconnect_raise E (Some ''SSH2-HOSTKEY-ERROR'') s
                  else case kh_verify E hostkey type s of
                    (Refuse code, s) \<Rightarrow> disconnect_raise E code (nh_free E s)
                  | (Proceed, s) \<Rightarrow> Some (0, nh_free E s))))"

section \<open>Operations on the host key of a connection\<close>

text \<open>The fingerprint of a hash is printed from as many bytes as the algorithm has.\<close>

fun hash_size :: "hash_alg \<Rightarrow> nat" where
  "hash_size HASH_MD5 = 16"
| "hash_size HASH_SHA1 = 20"
| "hash_size HASH_SHA256 = 32"

definition host_fingerprint :: "('w, 'm) cenv \<Rightarrow> hash_alg \<Rightarrow> ('w, 'm) cst \<Rightarrow> string option" where
  "host_fingerprint E a s = map_option (\<lambda>h. fp_string (take (hash_size a) h)) (hostkey_hash E a (world s))"

definition fingerprintUnlocked :: "('w, 'm) cenv \<Rightarrow> ('w, 'm) cst \<Rightarrow> string option" where
  "fingerprintUnlocked E s = (if \<not> sshConnectedUnlocked s then None else host_fingerprint E HASH_MD5 s)"

definition getHostKeyLocked ::
  "('w, 'm) cenv \<Rightarrow> ('w, 'm) cst \<Rightarrow> (string \<times> qvalue) list option \<times> ('w, 'm) cst" where
  "getHostKeyLocked E s =
     (if \<not> sshConnectedUnlocked s then (None, raise True ''SSH2CLIENT-NOT-CONNECTED'' s)
      else case session_hostkey E (world s) of
        None \<Rightarrow> (None, raise True ''SSH2-HOSTKEY-ERROR'' s)
      | Some (hostkey, type) \<Rightarrow>
          (let fp = (\<lambda>k a. case host_fingerprint E a s of None \<Rightarrow> [] | Some f \<Rightarrow> [(k, QString f)])
           in (Some (fp ''hash_md5'' HASH_MD5 @ fp ''hash_sha1'' HASH_SHA1 @ fp ''hash_sha256'' HASH_SHA256
                 @ [(''key_type'', QString (ssh2_hostkey_type_name type)),
                    (''key_data'', QBinary hostkey)]), s)))"

text \<open>
  \<open>addKnownHost()\<close>: the port is used only in the text of an exception, so it is no argument of
  the recorded entry.
\<close>

definition addKnownHostLocked ::
  "('w, 'm) cenv \<Rightarrow> string option \<Rightarrow> int \<Rightarrow> ('w, 'm) cst \<Rightarrow> int \<times> ('w, 'm) cst" where
  "addKnownHostLocked E host port s =
     (let fin = (\<lambda>v s. case v of
             Proceed \<Rightarrow> (0, nh_free E s)
           | Refuse None \<Rightarrow> (-1, nh_free E s)
           | Refuse (Some c) \<Rightarrow> (-1, raise True c (nh_free E s)))
      in if \<not> sshConnectedUnlocked s then (-1, raise True ''SSH2CLIENT-NOT-CONNECTED'' s)
         else if known_hosts_file s = [] then (-1, raise True ''SSH2-HOSTKEY-ERROR'' s)
         else case session_hostkey E (world s) of
           None \<Rightarrow> (-1, raise True ''SSH2-HOSTKEY-ERROR'' s)
         | Some (hostkey, type) \<Rightarrow>
             (case nh_init E s of (ok, s) \<Rightarrow>
                if \<not> ok then (-1, raise True ''SSH2-HOSTKEY-ERROR'' s)
                else case kh_load E s of
                  (Refuse c, s) \<Rightarrow> fin (Refuse c) s
                | (Proceed, s) \<Rightarrow>
                    (case kh_add E (case host of Some h \<Rightarrow> h | None \<Rightarrow> sshhost s) hostkey type s of
                       (Refuse c, s) \<Rightarrow> fin (Refuse c) s
                     | (Proceed, s) \<Rightarrow> (case kh_write E s of (v, s) \<Rightarrow> fin v s))))"

section \<open>Frames\<close>

text \<open>The steps of the verification change only the world and the exceptions.\<close>

lemma xsink_raise [simp]: "xsink (raise True e s) = xsink s @ [e]"
  by (simp add: raise_def)

lemma fs_access_io: "ssh2_check_fs_access E p md x s = (rc, t) \<Longrightarrow> io_step x s t"
  by (auto simp: ssh2_check_fs_access_def split: if_splits)

lemma fs_access_ok: "ssh2_check_fs_access E p md x s = (0, t) \<Longrightarrow> t = s"
  by (auto simp: ssh2_check_fs_access_def split: if_splits)

lemma fs_access_denied:
  "ssh2_check_fs_access E p md True s = (rc, t) \<Longrightarrow> rc \<noteq> 0 \<Longrightarrow> rc = -1 \<and> xsink t \<noteq> []"
  by (auto simp: ssh2_check_fs_access_def raise_def split: if_splits)

lemma ensure_parent_dir_io: "ensure_parent_dir E p s = (rc, t) \<Longrightarrow> io_step True s t"
  unfolding ensure_parent_dir_def
  by (auto split: option.splits prod.splits if_splits stat_result.splits
      dest!: fs_access_io [where x = True] intro: io_step_trans io_step_call)

lemma kh_load_io:
  assumes "kh_load E s = (v, t)"
  shows "io_step True s t" "v = Refuse None \<Longrightarrow> xsink t \<noteq> []"
  using assms unfolding kh_load_def
  by (auto split: prod.splits if_splits stat_result.splits
      dest: fs_access_io [where x = True] fs_access_denied intro: io_step_trans io_step_call)

lemma kh_write_io:
  assumes "kh_write E s = (v, t)"
  shows "io_step True s t" "v = Refuse None \<Longrightarrow> xsink t \<noteq> []"
proof -
  obtain rc s1 where 1: "ssh2_check_fs_access E (known_hosts_file s) [QSEC_WRITE, QSEC_CREATE] True s
      = (rc, s1)" by fastforce
  obtain rc2 s2 where 2: "ensure_parent_dir E (known_hosts_file s1) s1 = (rc2, s2)" by fastforce
  obtain rc3 s3 where 3: "call_ext (knownhost_writefile E (known_hosts_file s2)) s2 = (rc3, s3)" by fastforce
  have io: "io_step True s s1" "io_step True s s2" "io_step True s s3"
    using fs_access_io [OF 1] ensure_parent_dir_io [OF 2] io_step_call [OF 3] io_step_trans by blast+
  show "io_step True s t" "v = Refuse None \<Longrightarrow> xsink t \<noteq> []"
    using assms io fs_access_denied [OF 1]
    by (auto simp: kh_write_def 1 2 3 split: if_splits)
qed

lemma kh_add_io:
  assumes "kh_add E h k y s = (v, t)"
  shows "io_step True s t" "v \<noteq> Refuse None"
  using assms unfolding kh_add_def by (auto split: prod.splits if_splits intro: io_step_call)

lemma kh_check_key_io:
  assumes "kh_check_key E k y s = (v, t)"
  shows "io_step True s t" "v = Refuse None \<Longrightarrow> xsink t \<noteq> []"
  using assms unfolding kh_check_key_def
  by (auto split: kh_check.splits prod.splits if_splits verdict.splits
      dest: kh_write_io kh_add_io intro: io_step_trans)

lemma kh_verify_io:
  assumes "kh_verify E k y s = (v, t)"
  shows "io_step True s t" "v = Refuse None \<Longrightarrow> xsink t \<noteq> []"
proof -
  obtain v1 t1 where l: "(if known_hosts_file s \<noteq> [] then kh_load E s else (Proceed, s)) = (v1, t1)"
    by fastforce
  then have l1: "io_step True s t1" "v1 = Refuse None \<Longrightarrow> xsink t1 \<noteq> []"
    using kh_load_io(1) kh_load_io(2) [where E = E and s = s, OF _ refl] by (auto split: if_splits)
  with assms l show "io_step True s t" "v = Refuse None \<Longrightarrow> xsink t \<noteq> []"
    unfolding kh_verify_def
    by (auto split: if_splits verdict.splits dest: kh_check_key_io intro: io_step_trans)
qed

text \<open>A verification that goes on has raised nothing.\<close>

lemma ensure_parent_dir_sink: "ensure_parent_dir E p s = (0, t) \<Longrightarrow> xsink t = xsink s"
  unfolding ensure_parent_dir_def
  by (auto simp: call_ext_eq_pair split: option.splits prod.splits if_splits stat_result.splits
      dest!: fs_access_ok)

lemma kh_load_proceed_sink: "kh_load E s = (Proceed, t) \<Longrightarrow> xsink t = xsink s"
  unfolding kh_load_def
  by (auto simp: call_ext_eq_pair split: prod.splits if_splits stat_result.splits dest!: fs_access_ok)

lemma kh_write_proceed_sink: "kh_write E s = (Proceed, t) \<Longrightarrow> xsink t = xsink s"
  unfolding kh_write_def
  by (auto simp: call_ext_eq_pair split: prod.splits if_splits dest!: fs_access_ok ensure_parent_dir_sink)

lemma kh_add_sink: "kh_add E h k y s = (v, t) \<Longrightarrow> xsink t = xsink s"
  by (auto simp: kh_add_def call_ext_eq_pair)

lemma kh_verify_proceed_sink:
  assumes "kh_verify E k y s = (Proceed, t)"
  shows "xsink t = xsink s"
proof -
  have c: "kh_check_key E k y u = (Proceed, t) \<Longrightarrow> xsink t = xsink u" for u
    unfolding kh_check_key_def
    by (auto split: kh_check.splits prod.splits if_splits verdict.splits dest!: kh_write_proceed_sink kh_add_sink)
  show ?thesis
  proof (cases "known_hosts_file s = []")
    case True
    with assms show ?thesis by (auto simp: kh_verify_def dest: c split: if_splits)
  next
    case False
    with assms obtain u where "kh_load E s = (Proceed, u)" "kh_check_key E k y u = (Proceed, t)"
      by (auto simp: kh_verify_def split: if_splits prod.splits verdict.splits)
    with c kh_load_proceed_sink show ?thesis by metis
  qed
qed

text \<open>
  What the module relies on in the \<open>Qore\<close> code it calls back: it does not use the client that
  is being connected. (While \<open>SSH2Base::connect()\<close> runs, the client itself refuses setters and
  \<open>disconnect()\<close>.)
\<close>

definition callbacks_neutral :: "('w, 'm) cenv \<Rightarrow> bool" where
  "callbacks_neutral E \<longleftrightarrow>
     (\<forall>o1 m c h s. io_step False s (snd (store_call E o1 m c h s)))
     \<and> (\<forall>o1 c s. io_step False s (snd (provider_candidates E o1 c s)))
     \<and> (\<forall>o1 c h s. io_step False s (snd (provider_material E o1 c h s)))"

lemma store_call_neutral:
  "callbacks_neutral E \<Longrightarrow> store_call E o1 m c h s = (r, t) \<Longrightarrow> io_step False s t"
  unfolding callbacks_neutral_def by (metis snd_conv)

text \<open>The store's answer to one question, as a reference for \<open>ask_store\<close>.\<close>

definition store_decision ::
  "('w, 'm) cenv \<Rightarrow> nat \<Rightarrow> (string \<times> qvalue) list \<Rightarrow> (string \<times> qvalue) list \<Rightarrow> string \<Rightarrow> ('w, 'm) cst \<Rightarrow>
   string option" where
  "store_decision E store ctxt observed method s =
     (case fst (store_call E store method ctxt observed s) of
        Some (QHash h) \<Rightarrow>
          (if hash_get h ''decision'' = QNothing then None
           else map_option c_str (to_qstring E (hash_get h ''decision'')))
      | _ \<Rightarrow> None)"

lemma io_step_False_xsink: "io_step False s t \<Longrightarrow> xsink t = xsink s"
  by (simp add: io_step_def)

lemma ask_store_decision:
  assumes cb: "callbacks_neutral E" and s: "xsink s = []"
    and a: "ask_store E store ctxt obs method s = (d, t)"
  shows "d = store_decision E store ctxt obs method s" "io_step True s t"
    "d = None \<longleftrightarrow> xsink t \<noteq> []"
proof -
  obtain r u where c: "store_call E store method ctxt obs s = (r, u)" by fastforce
  have io: "io_step False s u" by (rule store_call_neutral [OF cb c])
  then have x: "xsink u = []" using s by (simp add: io_step_False_xsink)
  have iot: "io_step True s u" by (rule io_step_weaken [OF io])
  have ior: "io_step True s (raise True e u)" for e
    by (rule io_step_trans [OF iot io_step_raise])
  show "d = store_decision E store ctxt obs method s" "io_step True s t" "d = None \<longleftrightarrow> xsink t \<noteq> []"
    using a c x iot ior
    by (auto simp: ask_store_def ssh2_call_host_key_store_def store_decision_def raise_def
        ssh2_get_hash_string_def split: option.splits qvalue.splits if_splits)
qed

lemma verifyHostKeyWithStore_io:
  assumes cb: "callbacks_neutral E" and s: "xsink s = []"
    and v: "verifyHostKeyWithStore E store k y tmo s = (rc, t)"
  shows "io_step True s t" "rc = 0 \<longleftrightarrow> xsink t = []"
proof -
  obtain d u where a: "ask_store E store (makeProviderContext E ''host-key-verify'' tmo s)
      (makeObservedHostKeyInfo k y) ''verifyHostKey'' s = (d, u)" by fastforce
  note a1 = ask_store_decision [OF cb s a]
  obtain d2 w where b: "ask_store E store (makeProviderContext E ''host-key-accept'' tmo u)
      (makeObservedHostKeyInfo k y) ''acceptHostKeyIfAbsent'' u = (d2, w)" by fastforce
  have b1: "xsink u = [] \<Longrightarrow> io_step True s w \<and> (d2 = None \<longleftrightarrow> xsink w \<noteq> [])"
    using ask_store_decision(2,3) [OF cb _ b] a1(2) io_step_trans by blast
  have r: "io_step True s z \<Longrightarrow> io_step True s (raise True e z) \<and> xsink (raise True e z) \<noteq> []" for z e
    using io_step_trans [OF _ io_step_raise] by auto
  show "io_step True s t" "rc = 0 \<longleftrightarrow> xsink t = []"
    using v a b a1 b1 s r
    by (auto simp: verifyHostKeyWithStore_def Let_def split: option.splits if_splits)
qed

section \<open>Properties\<close>

lemma disconnect_raise_post:
  "post (disconnect_raise E c s) (\<lambda>r t. r = -1 \<and> io_step True (disc_state s) t \<and>
     xsink t = xsink s @ (case c of None \<Rightarrow> [] | Some e \<Rightarrow> [e]))"
proof -
  have "io_step True (disc_state s) (raise True e t) \<and> xsink (raise True e t) = xsink s @ [e]"
    "io_step True (disc_state s) t \<and> xsink t = xsink s"
    if "io_step False (disc_state s) t" for t e
    using io_step_trans [OF io_step_weaken [OF that] io_step_raise] io_step_weaken [OF that]
      io_step_False_xsink [OF that] by auto
  then show ?thesis
    unfolding disconnect_raise_def
    by (auto intro!: post_mono [OF force_disconnect_post] split: option.splits)
qed

lemma disconnect_raise_returns: "settling m E \<Longrightarrow> returns (disconnect_raise E c s)"
  using disconnectUnlocked_returns
  by (auto simp: disconnect_raise_def force_disconnect_def returns_bind post_def)

text \<open>
  The specification of the file-based check. \<open>kh_loaded E s w v\<close>: the known-hosts context that
  was started in world \<open>w\<close> holds what the configured file holds, in world \<open>v\<close>; a file that
  exists was read and parsed. \<open>kh_written E s w\<close>: the directory of the file exists or is created, and
  the context is written to the file. \<open>kh_trusted E s key type v\<close>: the key is recorded for the host, or
  the policy is to trust a key of a host that has none, and then the key was recorded, and
  written to the file when there is one. \<open>checkp_documented E\<close>: libssh2 answers a check with one of
  its four documented results; the code goes on with any other as with a match.
\<close>

definition checkp_documented :: "('w, 's) env \<Rightarrow> bool" where
  "checkp_documented E \<longleftrightarrow> (\<forall>host port key type w. knownhost_checkp E host port key type w \<in>
     {CHECK_MATCH, CHECK_MISMATCH, CHECK_NOTFOUND, CHECK_FAILURE})"

definition kh_loaded :: "('w, 'm) cenv \<Rightarrow> ('w, 'm) cst \<Rightarrow> 'w \<Rightarrow> 'w \<Rightarrow> bool" where
  "kh_loaded E s w v =
     (if known_hosts_file s = [] then v = w
      else case stat_path E (known_hosts_file s) w of
             StatOk _ \<Rightarrow> (case knownhost_readfile E (known_hosts_file s) w of (rc, u) \<Rightarrow> 0 \<le> rc \<and> v = u)
           | StatErr e \<Rightarrow> e = ENOENT \<and> v = w)"

definition kh_written :: "('w, 'm) cenv \<Rightarrow> ('w, 'm) cst \<Rightarrow> 'w \<Rightarrow> bool" where
  "kh_written E s w =
     (case ensure_parent_dir E (known_hosts_file s) (s\<lparr>world := w\<rparr>) of (rc, t) \<Rightarrow>
        rc = 0 \<and> fst (knownhost_writefile E (known_hosts_file s) (world t)) = 0)"

definition kh_trusted ::
  "('w, 'm) cenv \<Rightarrow> ('w, 'm) cst \<Rightarrow> string \<Rightarrow> hostkey_type \<Rightarrow> 'w \<Rightarrow> bool" where
  "kh_trusted E s key type v =
     (case knownhost_checkp E (sshhost s) (sshport s) key (kh_type type) v of
        CHECK_MATCH \<Rightarrow> True
      | CHECK_NOTFOUND \<Rightarrow>
          host_key_policy s \<in> {SSH2_HOSTKEY_TOFU, SSH2_HOSTKEY_TOFU_SESSION}
          \<and> (case knownhost_addc E (sshhost s) key (kh_type type) v of (rc, v1) \<Rightarrow>
               rc = 0 \<and> (known_hosts_file s = [] \<or> kh_written E s v1))
      | CHECK_MISMATCH \<Rightarrow> False
      | CHECK_FAILURE \<Rightarrow> False
      | CHECK_OTHER _ \<Rightarrow> False)"

lemma kh_load_proceed:
  assumes "kh_load E s = (Proceed, t)" and "known_hosts_file s \<noteq> []"
  shows "kh_loaded E s (world s) (world t) \<and> t = s\<lparr>world := world t\<rparr>"
  using assms unfolding kh_load_def kh_loaded_def
  by (auto simp: call_ext_def split: prod.splits if_splits stat_result.splits dest!: fs_access_ok)

lemma kh_write_proceed:
  assumes "kh_write E s = (Proceed, t)"
  shows "kh_written E s (world s)"
proof -
  obtain rc s1 where 1: "ssh2_check_fs_access E (known_hosts_file s) [QSEC_WRITE, QSEC_CREATE] True s
      = (rc, s1)" by fastforce
  with assms have "rc = 0" by (auto simp: kh_write_def split: if_splits)
  with 1 fs_access_ok have 1: "ssh2_check_fs_access E (known_hosts_file s) [QSEC_WRITE, QSEC_CREATE] True s
      = (0, s)" by fastforce
  obtain rc2 s2 where 2: "ensure_parent_dir E (known_hosts_file s) s = (rc2, s2)" by fastforce
  then have "known_hosts_file s2 = known_hosts_file s"
    using ensure_parent_dir_io [OF 2] by (auto elim: io_stepE)
  with assms 1 2 show ?thesis
    by (auto simp: kh_write_def kh_written_def call_ext_eq_pair split: if_splits)
qed

lemma kh_check_key_proceed:
  assumes "kh_check_key E k y s = (Proceed, t)" "checkp_documented E"
  shows "kh_trusted E s k y (world s)"
proof (cases "knownhost_checkp E (sshhost s) (sshport s) k (kh_type y) (world s)")
  case CHECK_NOTFOUND
  obtain rc w where a: "knownhost_addc E (sshhost s) k (kh_type y) (world s) = (rc, w)" by fastforce
  let ?s = "s\<lparr>world := w\<rparr>"
  have "kh_write E ?s = (Proceed, t) \<Longrightarrow> kh_written E s w"
    using kh_write_proceed [of E ?s t] by (simp add: kh_written_def)
  with assms(1) CHECK_NOTFOUND a show ?thesis
    by (auto simp: kh_check_key_def kh_trusted_def kh_add_def call_ext_def split: if_splits)
next
  case (CHECK_OTHER n)
  moreover have "knownhost_checkp E (sshhost s) (sshport s) k (kh_type y) (world s) \<in>
      {CHECK_MATCH, CHECK_MISMATCH, CHECK_NOTFOUND, CHECK_FAILURE}"
    using assms(2) unfolding checkp_documented_def by blast
  ultimately show ?thesis by simp
qed (use assms(1) in \<open>auto simp: kh_check_key_def kh_trusted_def\<close>)

text \<open>A result that is not documented counts as a match.\<close>

lemma kh_check_other_accepted:
  "knownhost_checkp E (sshhost s) (sshport s) k (kh_type y) (world s) = CHECK_OTHER n \<Longrightarrow>
   kh_check_key E k y s = (Proceed, s)"
  by (simp add: kh_check_key_def)

lemma kh_spec_upd [simp]:
  "kh_loaded E (s\<lparr>nh_live := b\<rparr>) a c = kh_loaded E s a c"
  "kh_loaded E (s\<lparr>world := w\<rparr>) a c = kh_loaded E s a c"
  "kh_trusted E (s\<lparr>world := w\<rparr>) k y c = kh_trusted E s k y c"
  by (simp_all add: kh_loaded_def kh_trusted_def kh_written_def split: kh_check.split stat_result.split)

lemma kh_written_upd: "kh_written E (s\<lparr>nh_live := b\<rparr>) c = kh_written E s c"
  by (simp add: kh_written_def ensure_parent_dir_def ssh2_check_fs_access_def raise_def call_ext_eq_pair
      split: option.split stat_result.split)

lemma kh_trusted_upd [simp]: "kh_trusted E (s\<lparr>nh_live := b\<rparr>) k y c = kh_trusted E s k y c"
  by (simp add: kh_trusted_def kh_written_upd split: kh_check.split)

text \<open>
  C1 (safety). Verification against the known-hosts file fails closed: when it succeeds, the
  server presented a key, the configured file was read (or did not exist), and the key is the
  recorded one, or the policy is trust-on-first-use and the new key was recorded, and written
  to the file if one is configured; persistent trust-on-first-use without a file is refused,
  and so is a known host with another key. This relies on libssh2 answering the check of a key
  with one of its four documented results.
\<close>

theorem host_key_fail_closed:
  assumes "verifyHostKeyUnlocked E tmo s = Some (0, t)"
    and "verify_host_key s" and "host_key_store s = None" and "checkp_documented E"
  shows "\<exists>key type v. session_hostkey E (world s) = Some (key, type)
     \<and> kh_loaded E s (snd (knownhost_init E (world s))) v \<and> kh_trusted E s key type v
     \<and> \<not> (known_hosts_file s = [] \<and> host_key_policy s = SSH2_HOSTKEY_TOFU)"
proof -
  have no: "disconnect_raise E c u \<noteq> Some (0, t)" for c u
    using post_D [OF disconnect_raise_post, of E c u 0 t] by auto
  from assms no obtain key type where k: "session_hostkey E (world s) = Some (key, type)"
    by (auto simp: verifyHostKeyUnlocked_def split: if_splits option.splits)
  define w where "w = snd (knownhost_init E (world s))"
  define s1 where "s1 = s\<lparr>world := w, nh_live := True\<rparr>"
  from assms no k obtain s2 where v: "kh_verify E key type s1 = (Proceed, s2)"
    by (auto simp: verifyHostKeyUnlocked_def nh_init_def call_ext_eq_pair s1_def w_def
        split: if_splits prod.splits verdict.splits)
  have sel: "known_hosts_file s1 = known_hosts_file s" "world s1 = w"
    "host_key_policy s1 = host_key_policy s" by (simp_all add: s1_def)
  from v have nt: "\<not> (known_hosts_file s = [] \<and> host_key_policy s = SSH2_HOSTKEY_TOFU)"
    by (auto simp: kh_verify_def sel split: if_splits)
  have same: "kh_trusted E s1 key type b = kh_trusted E s key type b"
    "kh_loaded E s1 a b = kh_loaded E s a b" for a b
    by (simp_all add: s1_def)
  have "\<exists>v. kh_loaded E s w v \<and> kh_trusted E s key type v"
  proof (cases "known_hosts_file s = []")
    case True
    with v have "kh_check_key E key type s1 = (Proceed, s2)"
      by (auto simp: kh_verify_def sel split: if_splits)
    from kh_check_key_proceed [OF this assms(4)] True show ?thesis
      by (auto simp: kh_loaded_def same sel)
  next
    case False
    with v obtain s3 where l: "kh_load E s1 = (Proceed, s3)" and c: "kh_check_key E key type s3 = (Proceed, s2)"
      by (auto simp: kh_verify_def sel split: if_splits prod.splits verdict.splits)
    have "known_hosts_file s1 \<noteq> []" using False by (simp add: sel)
    from kh_load_proceed [OF l this] have l1: "kh_loaded E s w (world s3)"
      and e: "s3 = s1\<lparr>world := world s3\<rparr>" by (auto simp: same sel)
    have "kh_trusted E s3 key type (world s3)" by (rule kh_check_key_proceed [OF c assms(4)])
    then have "kh_trusted E (s1\<lparr>world := world s3\<rparr>) key type (world s3)" using e by simp
    with l1 show ?thesis by (auto simp: same)
  qed
  with k nt show ?thesis by (auto simp: w_def)
qed

theorem host_key_fail_closed_witness:
  "\<exists>key type v. session_hostkey tenv (world client_up) = Some (key, type)
     \<and> kh_loaded tenv client_up (snd (knownhost_init tenv (world client_up))) v
     \<and> kh_trusted tenv client_up key type v
     \<and> \<not> (known_hosts_file client_up = [] \<and> host_key_policy client_up = SSH2_HOSTKEY_TOFU)"
proof -
  have "verifyHostKeyUnlocked tenv 0 client_up = Some (0, client_up)"
    by (simp add: verifyHostKeyUnlocked_def nh_init_def nh_free_def kh_verify_def kh_load_def
      ssh2_check_fs_access_def kh_check_key_def call_ext_def run_ext_def policy_consts example_defs)
  then show ?thesis
    by (rule host_key_fail_closed) (simp_all add: client_up_def client0_def checkp_documented_def env0_def)
qed

text \<open>
  The two outcomes of the verification, and that it returns; the connection code relies on
  both.
\<close>

definition verify_outcome :: "('w, 'm) cst \<Rightarrow> int \<Rightarrow> ('w, 'm) cst \<Rightarrow> bool" where
  "verify_outcome s rc t \<longleftrightarrow> (rc = 0 \<and> core t = core s \<and> xsink t = [])
     \<or> (rc = -1 \<and> core t = core (disc_state s) \<and> xsink t \<noteq> [])"

lemma verifyHostKey_both:
  assumes "\<not> nh_live s" and cb: "callbacks_neutral E" and clean: "xsink s = []"
  shows "post (verifyHostKeyUnlocked E tmo s) (verify_outcome s)
    \<and> (settling m E \<longrightarrow> returns (verifyHostKeyUnlocked E tmo s))"
proof -
  define good where "good r \<longleftrightarrow> post r (verify_outcome s) \<and> (settling m E \<longrightarrow> returns r)"
    for r :: "(int \<times> ('a, 'b) client_scheme) option"
  have ok: "core u = core s \<Longrightarrow> xsink u = [] \<Longrightarrow> good (Some (0, u))" for u
    by (auto simp: good_def verify_outcome_def)
  have ref: "good (disconnect_raise E c u)" if "core u = core s" "xsink u \<noteq> [] \<or> c \<noteq> None" for u c
    using disconnect_raise_post [of E c u] disconnect_raise_returns [of m E c u] core_disc [OF that(1)] that(2)
    by (auto simp: good_def verify_outcome_def dest!: io_step_core split: option.splits elim!: post_mono)
  have init: "core (s\<lparr>world := w, nh_live := False\<rparr>) = core s" for w
    using assms(1) by (simp add: core_def)
  have free: "core (nh_free E u) = core s \<and> xsink (nh_free E u) = xsink u"
    if "io_step True (s\<lparr>world := w, nh_live := True\<rparr>) u" for u w
    using that assms(1) by (auto elim!: io_stepE simp: nh_free_def run_ext_def core_def)
  have on_file: "good (case kh_verify E key type (s\<lparr>world := w, nh_live := True\<rparr>) of
      (Refuse code, s) \<Rightarrow> disconnect_raise E code (nh_free E s) | (Proceed, s) \<Rightarrow> Some (0, nh_free E s))"
    for key type w
  proof -
    obtain v u where v: "kh_verify E key type (s\<lparr>world := w, nh_live := True\<rparr>) = (v, u)" by fastforce
    show ?thesis
    proof (cases v)
      case Proceed
      with kh_verify_proceed_sink v clean have "xsink u = []" by fastforce
      with v Proceed ok free [OF kh_verify_io(1) [OF v]] show ?thesis by auto
    next
      case (Refuse c)
      with v kh_verify_io(2) [OF v] free [OF kh_verify_io(1) [OF v]] ref [of "nh_free E u" c]
      show ?thesis by auto
    qed
  qed
  have stored: "good (case verifyHostKeyWithStore E store key type tmo s of (rc, u) \<Rightarrow>
      if rc \<noteq> 0 then disconnect_raise E None u else Some (0, u))" for store key type
  proof -
    obtain rc u where v: "verifyHostKeyWithStore E store key type tmo s = (rc, u)" by fastforce
    have "core u = core s" by (rule io_step_core [OF verifyHostKeyWithStore_io(1) [OF cb clean v]])
    with v verifyHostKeyWithStore_io(2) [OF cb clean v] ok ref [of u None] show ?thesis by auto
  qed
  obtain ok w where i: "knownhost_init E (world s) = (ok, w)" by fastforce
  have "good (verifyHostKeyUnlocked E tmo s)"
    unfolding verifyHostKeyUnlocked_def nh_init_def call_ext_def i
    using ok ref [of s "Some _"] ref [OF init, where c = "Some _"] on_file stored clean
    by (auto split: option.split)
  then show ?thesis unfolding good_def .
qed

lemmas verifyHostKey_post = verifyHostKey_both [THEN conjunct1]
lemmas verifyHostKey_returns = verifyHostKey_both [THEN conjunct2, rule_format]

text \<open>
  C2 (safety). Whatever way the host key is checked, the outcome is one of two: success, with
  the client unchanged, or -1 with an exception raised and the client disconnected, its
  known-hosts context freed before the session it belongs to. And the check returns, since
  the only waiting it does is that of the disconnection.
\<close>

theorem host_key_refusal_disconnects:
  assumes inv: "conn_inv s" and cb: "callbacks_neutral E" and live: "settling m E"
    and clean: "xsink s = []" "\<not> agent_live s"
  shows "\<exists>rc t. verifyHostKeyUnlocked E tmo s = Some (rc, t) \<and> handle_outlives t = handle_outlives s \<and>
     (rc = 0 \<and> core t = core s \<and> xsink t = []
      \<or> rc = -1 \<and> is_disconnected t \<and> conn_inv t \<and> xsink t \<noteq> [])"
proof -
  have nh: "\<not> nh_live s" using inv by (simp add: conn_inv_def)
  obtain rc t where v: "verifyHostKeyUnlocked E tmo s = Some (rc, t)"
    using verifyHostKey_returns [OF nh cb clean(1) live, of tmo] by (auto simp: returns_def)
  have "verify_outcome s rc t" by (rule post_D [OF verifyHostKey_post [OF nh cb clean(1)] v])
  moreover have "is_disconnected t \<and> conn_inv t \<and> handle_outlives t = handle_outlives s"
    if d: "core t = core (disc_state s)"
    using disc_core [OF inv d] core_eq_sel(42) [OF d] nh clean(2) by (simp add: disc_state_def)
  moreover have "core t = core s \<Longrightarrow> handle_outlives t = handle_outlives s" by (rule core_eq_sel)
  ultimately show ?thesis using v unfolding verify_outcome_def by blast
qed

lemma callbacks_neutral_env0 [simp]: "callbacks_neutral tenv"
  by (simp add: callbacks_neutral_def env0_def)

theorem host_key_refusal_disconnects_witness:
  "\<exists>rc t. verifyHostKeyUnlocked (tenv\<lparr>knownhost_checkp := \<lambda>_ _ _ _ _. CHECK_MISMATCH\<rparr>) 0 client_up = Some (rc, t)
     \<and> handle_outlives t = handle_outlives client_up \<and>
     (rc = 0 \<and> core t = core client_up \<and> xsink t = []
      \<or> rc = -1 \<and> is_disconnected t \<and> conn_inv t \<and> xsink t \<noteq> [])"
  by (rule host_key_refusal_disconnects [where m = pending])
    (simp_all add: conn_inv_def callbacks_neutral_def settling_def quiet_def example_defs)

text \<open>
  C15 (equivalence). The protocol with a host-key store accepts a key exactly when the store
  answers \<open>verifyHostKey()\<close> with one of the three positive decisions, or answers \<open>unknown\<close>
  under a trust-on-first-use policy and then \<open>acceptHostKeyIfAbsent()\<close> with a positive one. An
  exception in the store, an answer that is no hash, or one without a decision refuses the
  key, and every refusal raises an exception.
\<close>

theorem store_accepts_iff:
  assumes "callbacks_neutral E" "xsink s = []"
    and "fst (ask_store E store (makeProviderContext E ''host-key-verify'' tmo s)
       (makeObservedHostKeyInfo key type) ''verifyHostKey'' s) = d1"
    and "snd (ask_store E store (makeProviderContext E ''host-key-verify'' tmo s)
       (makeObservedHostKeyInfo key type) ''verifyHostKey'' s) = s1"
  shows "(fst (verifyHostKeyWithStore E store key type tmo s) = 0 \<longleftrightarrow>
      (case d1 of None \<Rightarrow> False | Some d \<Rightarrow> ssh2_hostkey_decision_success d
         \<or> d = ''unknown'' \<and> host_key_policy s \<in> {SSH2_HOSTKEY_TOFU, SSH2_HOSTKEY_TOFU_SESSION}
           \<and> (case store_decision E store (makeProviderContext E ''host-key-accept'' tmo s1)
                 (makeObservedHostKeyInfo key type) ''acceptHostKeyIfAbsent'' s1 of
                None \<Rightarrow> False | Some d2 \<Rightarrow> ssh2_hostkey_decision_success d2)))
    \<and> d1 = store_decision E store (makeProviderContext E ''host-key-verify'' tmo s)
         (makeObservedHostKeyInfo key type) ''verifyHostKey'' s
    \<and> (fst (verifyHostKeyWithStore E store key type tmo s) = 0 \<longleftrightarrow>
       xsink (snd (verifyHostKeyWithStore E store key type tmo s)) = [])"
proof -
  obtain rc t where v: "verifyHostKeyWithStore E store key type tmo s = (rc, t)" by fastforce
  have a: "ask_store E store (makeProviderContext E ''host-key-verify'' tmo s)
      (makeObservedHostKeyInfo key type) ''verifyHostKey'' s = (d1, s1)"
    using assms(3,4) by (metis prod.collapse)
  note a1 = ask_store_decision [OF assms(1,2) a]
  obtain d2 s2 where b: "ask_store E store (makeProviderContext E ''host-key-accept'' tmo s1)
      (makeObservedHostKeyInfo key type) ''acceptHostKeyIfAbsent'' s1 = (d2, s2)" by fastforce
  have b1: "xsink s1 = [] \<Longrightarrow> store_decision E store (makeProviderContext E ''host-key-accept'' tmo s1)
      (makeObservedHostKeyInfo key type) ''acceptHostKeyIfAbsent'' s1 = d2"
    using ask_store_decision(1) [OF assms(1) _ b] by simp
  have p: "host_key_policy s1 = host_key_policy s"
    by (rule core_eq_sel(11) [OF io_step_core [OF a1(2)]])
  have iff: "rc = 0 \<longleftrightarrow> (case d1 of None \<Rightarrow> False | Some d \<Rightarrow> ssh2_hostkey_decision_success d
         \<or> d = ''unknown'' \<and> host_key_policy s \<in> {SSH2_HOSTKEY_TOFU, SSH2_HOSTKEY_TOFU_SESSION}
           \<and> (case d2 of None \<Rightarrow> False | Some d2 \<Rightarrow> ssh2_hostkey_decision_success d2))"
    using v a b p a1(3) assms(2)
    by (auto simp: verifyHostKeyWithStore_def Let_def split: option.splits if_splits)
  show ?thesis
    using iff b1 a1(1,3) v verifyHostKeyWithStore_io(2) [OF assms(1,2) v]
    by (auto split: option.splits)
qed

theorem store_accepts_iff_witness:
  "fst (verifyHostKeyWithStore tenv 1 ''KEY'' HK_ED25519 0 client_up) = 0"
  using store_accepts_iff [of tenv client_up 1 0 "''KEY''" HK_ED25519 "Some ''matched''" client_up]
  by (simp add: ask_store_def ssh2_call_host_key_store_def ssh2_get_hash_string_def hash_get_def
      c_str_def ssh2_hostkey_decision_success_def callbacks_neutral_def example_defs)

lemma addKnownHost_core:
  assumes "\<not> nh_live s" "xsink s = []"
  shows "core (snd (addKnownHostLocked E host port s)) = core s
     \<and> (fst (addKnownHostLocked E host port s) = 0 \<longleftrightarrow> xsink (snd (addKnownHostLocked E host port s)) = [])"
proof -
  define good where "good r \<longleftrightarrow> core (snd r) = core s \<and> (fst r = 0 \<longleftrightarrow> xsink (snd r) = [])"
    for r :: "int \<times> ('a, 'b) client_scheme"
  obtain ok w where i: "knownhost_init E (world s) = (ok, w)" by fastforce
  let ?s = "s\<lparr>world := w, nh_live := True\<rparr>"
  have free: "core (nh_free E u) = core s" "xsink (nh_free E u) = xsink u" if "io_step True ?s u" for u
    using that assms(1) by (auto elim!: io_stepE simp: nh_free_def run_ext_def core_def)
  have ref: "good (-1, case c of None \<Rightarrow> nh_free E u | Some e \<Rightarrow> raise True e (nh_free E u))"
    if "io_step True ?s u" "c = None \<Longrightarrow> xsink u \<noteq> []" for u c
    using free [OF that(1)] that(2) by (cases c) (auto simp: good_def)
  have early: "good (-1, raise True e (s\<lparr>world := v, nh_live := False\<rparr>))" "good (-1, raise True e s)" for e v
    using assms(1) by (auto simp: good_def core_def raise_def)
  define fin where "fin v u = (case v of Proceed \<Rightarrow> (0, nh_free E u) | Refuse None \<Rightarrow> (-1, nh_free E u)
           | Refuse (Some c) \<Rightarrow> (-1 :: int, raise True c (nh_free E u)))" for v u
  have fin: "good (fin v u)" if "io_step True ?s u" "v = Refuse None \<Longrightarrow> xsink u \<noteq> []"
    "v = Proceed \<Longrightarrow> xsink u = []" for v u
    using ref [OF that(1)] free [OF that(1)] that(2,3)
    by (auto simp: fin_def good_def split: verdict.split option.split)
  have main: "good (case kh_load E ?s of (Refuse c, s) \<Rightarrow> fin (Refuse c) s
      | (Proceed, s) \<Rightarrow> (case kh_add E (case host of Some h \<Rightarrow> h | None \<Rightarrow> sshhost s) key type s of
           (Refuse c, s) \<Rightarrow> fin (Refuse c) s
         | (Proceed, s) \<Rightarrow> (case kh_write E s of (v, s) \<Rightarrow> fin v s)))" for key type
  proof -
    obtain v1 s1 where 1: "kh_load E ?s = (v1, s1)" by fastforce
    obtain v2 s2 where 2: "kh_add E (case host of Some h \<Rightarrow> h | None \<Rightarrow> sshhost s1) key type s1 = (v2, s2)"
      by fastforce
    obtain v3 s3 where 3: "kh_write E s2 = (v3, s3)" by fastforce
    note io1 = kh_load_io [OF 1] and io2 = kh_add_io [OF 2] and io3 = kh_write_io [OF 3]
    have s2: "io_step True ?s s2" by (rule io_step_trans [OF io1(1) io2(1)])
    have s3: "io_step True ?s s3" by (rule io_step_trans [OF s2 io3(1)])
    have "v1 = Proceed \<Longrightarrow> xsink s2 = []"
      using kh_load_proceed_sink 1 kh_add_sink [OF 2] assms(2) by fastforce
    then have x3: "v1 = Proceed \<Longrightarrow> v3 = Proceed \<Longrightarrow> xsink s3 = []"
      using kh_write_proceed_sink 3 by fastforce
    show ?thesis
      using 1 2 3 fin [OF io1(1)] io1(2) fin [OF s2] io2(2) fin [OF s3] io3(2) x3
      by (auto split: verdict.split)
  qed
  have "good (addKnownHostLocked E host port s)"
    unfolding addKnownHostLocked_def Let_def nh_init_def call_ext_def fin_def [symmetric] i
    using early main by (auto split: option.split)
  then show ?thesis by (simp only: good_def)
qed

text \<open>The steps of recording a key succeed exactly when access is granted and libssh2 succeeds.\<close>

definition fs_granted :: "('w, 'm) cenv \<Rightarrow> string \<Rightarrow> fsmode list \<Rightarrow> 'w \<Rightarrow> bool" where
  "fs_granted E path mode w \<longleftrightarrow> path = [] \<or> \<not> no_filesystem E \<and> (\<not> sandboxed E \<or> fs_allowed E path mode w)"

lemma fs_access_granted:
  "ssh2_check_fs_access E path mode x s = (rc, t) \<Longrightarrow> (rc = 0 \<longleftrightarrow> fs_granted E path mode (world s)) \<and> (rc = 0 \<longrightarrow> t = s)"
  by (auto simp: ssh2_check_fs_access_def fs_granted_def split: if_splits)

lemma kh_load_granted: "kh_load E s = (Proceed, t) \<Longrightarrow> fs_granted E (known_hosts_file s) [QSEC_READ] (world s)"
  unfolding kh_load_def by (auto split: prod.splits if_splits dest!: fs_access_granted)

lemma kh_loadI:
  assumes "fs_granted E (known_hosts_file s) [QSEC_READ] (world s)" "kh_loaded E s (world s) v" "known_hosts_file s \<noteq> []"
  shows "kh_load E s = (Proceed, s\<lparr>world := v\<rparr>)"
proof -
  obtain rc u where a: "ssh2_check_fs_access E (known_hosts_file s) [QSEC_READ] True s = (rc, u)" by fastforce
  from fs_access_granted [OF a] assms(1) have "rc = 0" "u = s" by auto
  note a = a [unfolded this]
  obtain rc w where r: "knownhost_readfile E (known_hosts_file s) (world s) = (rc, w)" by fastforce
  show ?thesis
    using assms(2,3) unfolding kh_loaded_def
    by (cases "stat_path E (known_hosts_file s) (world s)") (simp_all add: kh_load_def a call_ext_def r)
qed

lemma kh_write_granted:
  "fst (kh_write E s) = Proceed \<longleftrightarrow> fs_granted E (known_hosts_file s) [QSEC_WRITE, QSEC_CREATE] (world s) \<and> kh_written E s (world s)"
proof -
  obtain rc u where a: "ssh2_check_fs_access E (known_hosts_file s) [QSEC_WRITE, QSEC_CREATE] True s = (rc, u)" by fastforce
  obtain rc2 t where b: "ensure_parent_dir E (known_hosts_file s) s = (rc2, t)" by fastforce
  have k: "known_hosts_file t = known_hosts_file s" using ensure_parent_dir_io [OF b] by (auto elim: io_stepE)
  show ?thesis
    using fs_access_granted [OF a] a b k
    by (cases "knownhost_writefile E (known_hosts_file s) (world t)")
      (auto simp: kh_write_def kh_written_def call_ext_def)
qed

text \<open>
  What recording the key of the session under a host name takes: a connection and a configured
  file, the key, a known-hosts context that holds what the file held before, the new entry in
  it, and writing it back, both accesses to the file being granted.
\<close>

definition kh_recorded :: "('w, 'm) cenv \<Rightarrow> string \<Rightarrow> ('w, 'm) cst \<Rightarrow> bool" where
  "kh_recorded E host s \<longleftrightarrow> sshConnectedUnlocked s \<and> known_hosts_file s \<noteq> []
     \<and> (\<exists>key type w0 v v1. session_hostkey E (world s) = Some (key, type)
          \<and> knownhost_init E (world s) = (True, w0)
          \<and> fs_granted E (known_hosts_file s) [QSEC_READ] w0 \<and> kh_loaded E s w0 v
          \<and> knownhost_addc E host key (kh_type type) v = (0, v1)
          \<and> fs_granted E (known_hosts_file s) [QSEC_WRITE, QSEC_CREATE] v1 \<and> kh_written E s v1)"

lemma addKnownHost_recorded:
  "(fst (addKnownHostLocked E host port s) = 0) = kh_recorded E (case host of Some h \<Rightarrow> h | None \<Rightarrow> sshhost s) s"
proof (cases "sshConnectedUnlocked s \<and> known_hosts_file s \<noteq> []")
  case False
  then show ?thesis by (auto simp: addKnownHostLocked_def kh_recorded_def)
next
  case up: True
  let ?host = "case host of Some h \<Rightarrow> h | None \<Rightarrow> sshhost s"
  obtain ok w0 where i: "knownhost_init E (world s) = (ok, w0)" by fastforce
  let ?s = "s\<lparr>world := w0, nh_live := True\<rparr>"
  show ?thesis
  proof (cases "\<exists>key type. session_hostkey E (world s) = Some (key, type) \<and> ok")
    case False
    with up i show ?thesis
      by (auto simp: addKnownHostLocked_def kh_recorded_def nh_init_def call_ext_def split: option.splits)
  next
    case True
    then obtain key type where k: "session_hostkey E (world s) = Some (key, type)" "ok" by blast
    obtain x u where l: "kh_load E ?s = (x, u)" by fastforce
    show ?thesis
    proof (cases x)
      case (Refuse c)
      have "\<not> (fs_granted E (known_hosts_file s) [QSEC_READ] w0 \<and> kh_loaded E s w0 v)" for v
        using kh_loadI [of E ?s v] l Refuse up by auto
      with l Refuse up i k show ?thesis
        by (auto simp: addKnownHostLocked_def kh_recorded_def nh_init_def call_ext_def split: option.splits)
    next
      case Proceed
      from l Proceed have g: "fs_granted E (known_hosts_file s) [QSEC_READ] w0" using kh_load_granted [of E ?s u] by simp
      from l Proceed up kh_load_proceed [of E ?s u] have "kh_loaded E s w0 (world u)" and u: "u = ?s\<lparr>world := world u\<rparr>"
        by auto
      then have ld: "kh_loaded E s w0 v \<longleftrightarrow> v = world u" for v
        by (auto simp: kh_loaded_def split: if_splits stat_result.splits prod.splits)
      obtain rc v1 where a: "knownhost_addc E ?host key (kh_type type) (world u) = (rc, v1)" by fastforce
      let ?u = "s\<lparr>nh_live := True, world := v1\<rparr>"
      have wr: "fst (kh_write E ?u) = Proceed \<longleftrightarrow>
          fs_granted E (known_hosts_file s) [QSEC_WRITE, QSEC_CREATE] v1 \<and> kh_written E s v1"
        using kh_write_granted [of E ?u] kh_written_upd [of E True s v1] by (simp add: kh_written_def)
      have add: "kh_add E ?host key type u = (if rc \<noteq> 0 then Refuse (Some ''SSH2-HOSTKEY-ERROR'') else Proceed, ?u)"
        using a by (subst u) (simp add: kh_add_def call_ext_def)
      have h: "(case host of Some h \<Rightarrow> h | None \<Rightarrow> sshhost u) = ?host" by (subst u) (simp split: option.split)
      have "kh_recorded E ?host s \<longleftrightarrow> rc = 0 \<and> fst (kh_write E ?u) = Proceed"
        using up k i g ld a wr by (auto simp: kh_recorded_def)
      moreover have "fst (addKnownHostLocked E host port s) = 0 \<longleftrightarrow> rc = 0 \<and> fst (kh_write E ?u) = Proceed"
        using up k i l Proceed add h
        by (cases "kh_write E ?u") (auto simp: addKnownHostLocked_def nh_init_def call_ext_def split: verdict.split option.split)
      ultimately show ?thesis by simp
    qed
  qed
qed

text \<open>
  C20 (functional). \<open>addKnownHost()\<close> never touches the connection. It returns 0 exactly when
  the key of the session was recorded under the given or the connected host, in a context that
  holds what the file held before, and written to the file; otherwise it raises an exception. The
  known-hosts context is freed on every path.
\<close>

theorem addKnownHost_outcome:
  assumes "\<not> nh_live s" "xsink s = []"
  shows "core (snd (addKnownHostLocked E host port s)) = core s
     \<and> (fst (addKnownHostLocked E host port s) = 0 \<longleftrightarrow> kh_recorded E (case host of Some h \<Rightarrow> h | None \<Rightarrow> sshhost s) s)
     \<and> (fst (addKnownHostLocked E host port s) = 0 \<longleftrightarrow> xsink (snd (addKnownHostLocked E host port s)) = [])"
  using addKnownHost_core [OF assms, of E host port] addKnownHost_recorded by blast

theorem addKnownHost_outcome_witness:
  "kh_recorded tenv ''h'' client_up"
proof -
  have "fst (addKnownHostLocked tenv (Some ''h'') 0 client_up) = 0"
    by code_simp
  with addKnownHost_outcome [of client_up tenv "Some ''h''" 0] show ?thesis by (simp add: client_up_def client0_def)
qed

end
