(* ===== verification/Ssh2_Auth.thy ===== *)
theory Ssh2_Auth
  imports Ssh2_HostKey
begin

text \<open>
  Authentication (\<open>src/src/SSH2Client.cpp\<close>): the plan of attempts that the blocking connection
  and the poll operation share, the SSH agent, the client identity provider and its
  candidates, and the execution of an attempt with blocking waits.
\<close>

section \<open>The plan\<close>

datatype attempt_kind = AGENT | PROVIDER | PUBKEY_FILE | PUBKEY_MEMORY | PASSWORD | KEYBOARD_INTERACTIVE

record attempt =
  kind :: attempt_kind
  pub_key :: string
  priv_key :: string
  passphrase :: string

definition Ssh2AuthAttempt :: "attempt_kind \<Rightarrow> attempt" where
  "Ssh2AuthAttempt k = \<lparr>kind = k, pub_key = [], priv_key = [], passphrase = []\<rparr>"

fun getAuthenticatedWith_kind :: "attempt_kind \<Rightarrow> string" where
  "getAuthenticatedWith_kind AGENT = ''agent''"
| "getAuthenticatedWith_kind PASSWORD = ''password''"
| "getAuthenticatedWith_kind KEYBOARD_INTERACTIVE = ''keyboard-interactive''"
| "getAuthenticatedWith_kind _ = ''publickey''"

definition getAuthenticatedWith :: "attempt \<Rightarrow> string" where
  "getAuthenticatedWith a = getAuthenticatedWith_kind (kind a)"

definition publicKeyAuthAvailableUnlocked :: "('w, 'm) cst \<Rightarrow> bool" where
  "publicKeyAuthAvailableUnlocked s = contains (auth_methods s) ''publickey''"

text \<open>\<open>plan.push_back\<close> under a condition.\<close>

definition push_if :: "bool \<Rightarrow> attempt \<Rightarrow> attempt list" where
  "push_if b a = (if b then [a] else [])"

definition buildAuthPlanUnlocked ::
  "('w, 'm) cenv \<Rightarrow> string option \<Rightarrow> ('w, 'm) cst \<Rightarrow> attempt list \<times> ('w, 'm) cst" where
  "buildAuthPlanUnlocked E userauthlist s =
     (let s = s\<lparr>auth_methods := (case userauthlist of Some l \<Rightarrow> l | None \<Rightarrow> [])\<rparr>;
          provider_configured = (client_identity_provider s \<noteq> None);
          fb = client_identity_fallback_policy s;
          fallback_agent_allowed = (\<not> provider_configured \<or> fb = SSH2_CLIENT_ID_FALLBACK_AGENT
            \<or> fb = SSH2_CLIENT_ID_FALLBACK_AGENT_AND_DEFAULT_KEYS);
          fallback_default_keys_allowed = (\<not> provider_configured \<or> fb = SSH2_CLIENT_ID_FALLBACK_DEFAULT_KEYS
            \<or> fb = SSH2_CLIENT_ID_FALLBACK_AGENT_AND_DEFAULT_KEYS);
          publickey_auth_available = publicKeyAuthAvailableUnlocked s;
          explicit_file_keys_available = (publickey_auth_available \<and> explicit_key_files s
            \<and> sshkeys_priv s \<noteq> [] \<and> sshkeys_pub s \<noteq> []);
          default_file_keys_available = (publickey_auth_available \<and> auto_key_files s
            \<and> sshkeys_priv s \<noteq> [] \<and> sshkeys_pub s \<noteq> []);
          key_data_available = (publickey_auth_available \<and> sshkeys_priv_data s \<noteq> []
            \<and> have_publickey_frommemory E);
          password_available = (sshpass s \<noteq> [] \<and> (case userauthlist of Some l \<Rightarrow> contains l ''password'' | None \<Rightarrow> False));
          keyboard_available = (sshpass s \<noteq> [] \<and> (case userauthlist of Some l \<Rightarrow> contains l ''keyboard-interactive'' | None \<Rightarrow> False));
          key_data_passphrase = (if sshkeys_passphrase s = [] then sshpass s else sshkeys_passphrase s);
          memory = \<lparr>kind = PUBKEY_MEMORY, pub_key = sshkeys_pub_data s, priv_key = sshkeys_priv_data s,
                    passphrase = key_data_passphrase\<rparr>;
          file_key = \<lparr>kind = PUBKEY_FILE, pub_key = sshkeys_pub s, priv_key = sshkeys_priv s,
                    passphrase = sshpass s\<rparr>;
          provider_first = (client_auth_order s = SSH2_CLIENT_AUTH_PROVIDER_FIRST)
      in ((if provider_configured then
             push_if provider_first (Ssh2AuthAttempt PROVIDER)
             @ push_if (explicit_key_data s \<and> key_data_available) memory
             @ push_if explicit_file_keys_available file_key
             @ push_if (\<not> provider_first) (Ssh2AuthAttempt PROVIDER)
             @ push_if (use_agent s \<and> fallback_agent_allowed \<and> publickey_auth_available) (Ssh2AuthAttempt AGENT)
             @ push_if (fallback_default_keys_allowed \<and> default_file_keys_available) file_key
           else
             push_if (use_agent s \<and> publickey_auth_available) (Ssh2AuthAttempt AGENT)
             @ push_if key_data_available memory
             @ push_if (publickey_auth_available \<and> sshkeys_priv s \<noteq> [] \<and> sshkeys_pub s \<noteq> []) file_key)
          @ push_if password_available (Ssh2AuthAttempt PASSWORD)
          @ push_if keyboard_available (Ssh2AuthAttempt KEYBOARD_INTERACTIVE), s))"

section \<open>The SSH agent\<close>

text \<open>
  The members of \<open>Ssh2AgentHelper\<close>; the handle itself is \<open>agent_live\<close> of the client, since it
  belongs to the session.
\<close>

record agent_helper =
  ah_identity :: "nat option"
  ah_prev_identity :: "nat option"
  ah_connected :: bool

definition Ssh2AgentHelper_new :: agent_helper where
  "Ssh2AgentHelper_new = \<lparr>ah_identity = None, ah_prev_identity = None, ah_connected = False\<rparr>"

definition Ssh2AgentHelper_reset ::
  "('w, 'm) cenv \<Rightarrow> agent_helper \<Rightarrow> ('w, 'm) cst \<Rightarrow> agent_helper \<times> ('w, 'm) cst" where
  "Ssh2AgentHelper_reset E h s =
     (if agent_live s then
        (let s = (if ah_connected h then run_ext (agent_disconnect E) s else s);
             s = (run_ext (agent_free E) s)\<lparr>agent_live := False\<rparr>
         in (\<lparr>ah_identity = None, ah_prev_identity = None, ah_connected = False\<rparr>, s))
      else (h\<lparr>ah_identity := None, ah_prev_identity := None\<rparr>, s))"

definition Ssh2AgentHelper_init ::
  "('w, 'm) cenv \<Rightarrow> agent_helper \<Rightarrow> ('w, 'm) cst \<Rightarrow> (int \<times> agent_helper) \<times> ('w, 'm) cst" where
  "Ssh2AgentHelper_init E h s =
     (let no = (\<lambda>h s. ((-1, h), s));
          released = (\<lambda>h s. case Ssh2AgentHelper_reset E h s of (h, s) \<Rightarrow> ((-1, h), s))
      in if \<not> have_agent_api E then no h s
         else case getenv_auth_sock E (world s) of
           None \<Rightarrow> no h s
         | Some auth_sock \<Rightarrow>
             if auth_sock = [] then no h s
             else if \<not> ssh2_fs_access_allowed_quiet E auth_sock [QSEC_READ, QSEC_WRITE] s then no h s
             else if fst (ssh2_check_unix_socket_access E auth_sock False s) \<noteq> 0 then no h s
             else
               (case call_ext (agent_init E) s of (ok, s) \<Rightarrow>
                  if \<not> ok then no h s
                  else
                    (case call_ext (agent_connect E auth_sock) (s\<lparr>agent_live := True\<rparr>) of (rc, s) \<Rightarrow>
                       if rc \<noteq> 0 then released h s
                       else
                         (let h = h\<lparr>ah_connected := True\<rparr>
                          in case call_ext (agent_list_identities E) s of (rc, s) \<Rightarrow>
                               if rc \<noteq> 0 then released h s else ((0, h), s)))))"

definition Ssh2AgentHelper_nextIdentity ::
  "('w, 'm) cenv \<Rightarrow> agent_helper \<Rightarrow> ('w, 'm) cst \<Rightarrow> (int \<times> agent_helper) \<times> ('w, 'm) cst" where
  "Ssh2AgentHelper_nextIdentity E h s =
     (if \<not> have_agent_api E then ((1, h), s)
      else
        (let h = (if ah_identity h \<noteq> None then h\<lparr>ah_prev_identity := ah_identity h\<rparr> else h)
         in case call_ext (agent_get_identity E (ah_prev_identity h)) s of
              (None, s) \<Rightarrow> ((1, h\<lparr>ah_identity := None\<rparr>), s)
            | (Some i, s) \<Rightarrow> ((0, h\<lparr>ah_identity := Some i\<rparr>), s)))"

text \<open>The code asserts that there is a current identity.\<close>

definition Ssh2AgentHelper_userauth ::
  "('w, 'm) cenv \<Rightarrow> agent_helper \<Rightarrow> string \<Rightarrow> ('w, 'm) cst \<Rightarrow> lrc \<times> ('w, 'm) cst" where
  "Ssh2AgentHelper_userauth E h user s =
     (if \<not> have_agent_api E then (Ret (-1), s)
      else case ah_identity h of
             Some i \<Rightarrow> call_ext (agent_userauth E user i) s
           | None \<Rightarrow> (Ret (-1), s))"

text \<open>
  The wait of every loop of the connection: with the exception sink of the caller, and the
  connection is closed when it fails.
\<close>

definition connect_wait :: "('w, 'm) cenv \<Rightarrow> int \<Rightarrow> ('w, 'm) cst \<Rightarrow> (int \<times> ('w, 'm) cst) option" where
  "connect_wait E tmo = waitSocketUnlocked E ''SSH2CLIENT-TIMEOUT'' ''SSH2-ERROR'' tmo None True"

text \<open>
  The results of an authentication attempt are the return code and the new value of
  \<open>loggedin\<close>.
\<close>

partial_function (option) agent_loop ::
  "('w, 'm) cenv \<Rightarrow> int \<Rightarrow> agent_helper \<Rightarrow> ('w, 'm) cst \<Rightarrow> ((int \<times> bool) \<times> ('w, 'm) cst) option" where
  "agent_loop E tmo h s =
     (case Ssh2AgentHelper_nextIdentity E h s of ((rc, h), s) \<Rightarrow>
        if rc \<noteq> 0 then Some ((0, False), snd (Ssh2AgentHelper_reset E h s))
        else
          (case qore_check_cancel E s of (cancelled, s) \<Rightarrow>
             if cancelled then
               do { (_, s) \<leftarrow> force_disconnect E (snd (Ssh2AgentHelper_reset E h s));
                    Some ((-1, False), s) }
             else
               do { (r, s) \<leftarrow> retry_loop is_eagain (\<lambda>s. Ssh2AgentHelper_userauth E h (sshuser s) s)
                       (connect_wait E tmo) s;
                    case r of
                      None \<Rightarrow>
                        do { (_, s) \<leftarrow> force_disconnect E (snd (Ssh2AgentHelper_reset E h s));
                             Some ((-1, False), s) }
                    | Some rc \<Rightarrow>
                        if rc = Ret 0 then
                          Some ((0, True), snd (Ssh2AgentHelper_reset E h
                            (s\<lparr>sshauthenticatedwith := Some ''agent''\<rparr>)))
                        else agent_loop E tmo h s }))"

declare agent_loop.simps [code]

definition tryAgentAuth ::
  "('w, 'm) cenv \<Rightarrow> int \<Rightarrow> ('w, 'm) cst \<Rightarrow> ((int \<times> bool) \<times> ('w, 'm) cst) option" where
  "tryAgentAuth E tmo s =
     (if \<not> have_agent_api E then Some ((0, False), s)
      else case Ssh2AgentHelper_init E Ssh2AgentHelper_new s of ((rc, h), s) \<Rightarrow>
        if rc \<noteq> 0 then Some ((0, False), s) else agent_loop E tmo h s)"

section \<open>Single attempts\<close>

definition checkAuthAttemptAccessUnlocked ::
  "('w, 'm) cenv \<Rightarrow> attempt \<Rightarrow> ('w, 'm) cst \<Rightarrow> (int \<times> ('w, 'm) cst) option" where
  "checkAuthAttemptAccessUnlocked E a s =
     (if kind a \<noteq> PUBKEY_FILE then Some (0, s)
      else
        (case ssh2_check_fs_access E (priv_key a) [QSEC_READ] True s of (rc, s) \<Rightarrow>
           if rc \<noteq> 0 then do { (_, s) \<leftarrow> force_disconnect E s; Some (-1, s) }
           else if pub_key a \<noteq> [] then
             (case ssh2_check_fs_access E (pub_key a) [QSEC_READ] True s of (rc, s) \<Rightarrow>
                if rc \<noteq> 0 then do { (_, s) \<leftarrow> force_disconnect E s; Some (-1, s) }
                else Some (0, s))
           else Some (0, s)))"

text \<open>The answers to the prompts of a keyboard-interactive authentication.\<close>

definition kbd_callback :: "string \<Rightarrow> nat \<Rightarrow> string list" where
  "kbd_callback password num_prompts = (if num_prompts = 1 then [c_str password] else [])"

definition LIBSSH2_ERROR_INVAL :: int where "LIBSSH2_ERROR_INVAL = -34"

definition opt_str :: "string \<Rightarrow> string option" where
  "opt_str v = (if v = [] then None else Some v)"

definition authCallUnlocked :: "('w, 'm) cenv \<Rightarrow> attempt \<Rightarrow> ('w, 'm) cst \<Rightarrow> lrc \<times> ('w, 'm) cst" where
  "authCallUnlocked E a s =
     (case kind a of
        PASSWORD \<Rightarrow> call_ext (userauth_password E (sshuser s) (sshpass s)) s
      | KEYBOARD_INTERACTIVE \<Rightarrow>
          call_ext (userauth_keyboard_interactive E (sshuser s) (kbd_callback (sshpass s))) s
      | PUBKEY_FILE \<Rightarrow>
          call_ext (userauth_publickey_fromfile E (sshuser s) (opt_str (pub_key a)) (priv_key a) (passphrase a)) s
      | PUBKEY_MEMORY \<Rightarrow>
          (if have_publickey_frommemory E then
             call_ext (userauth_publickey_frommemory E (sshuser s) (opt_str (pub_key a)) (priv_key a)
               (passphrase a)) s
           else (Ret LIBSSH2_ERROR_INVAL, s))
      | _ \<Rightarrow> (Ret LIBSSH2_ERROR_INVAL, s))"

definition setAuthenticatedWithUnlocked :: "attempt \<Rightarrow> ('w, 'm) cst \<Rightarrow> ('w, 'm) cst" where
  "setAuthenticatedWithUnlocked a s = s\<lparr>sshauthenticatedwith := Some (getAuthenticatedWith a)\<rparr>"

text \<open>
  \<open>runAuthAttemptUnlocked()\<close>, with \<open>tryProviderAuth()\<close> as a parameter: that function runs
  attempts in turn, but never one of kind \<open>PROVIDER\<close>.
\<close>

definition runAuthAttempt_with ::
  "(('w, 'm) cst \<Rightarrow> ((int \<times> bool) \<times> ('w, 'm) cst) option) \<Rightarrow> ('w, 'm) cenv \<Rightarrow> int \<Rightarrow> attempt \<Rightarrow> ('w, 'm) cst \<Rightarrow>
   ((int \<times> bool) \<times> ('w, 'm) cst) option" where
  "runAuthAttempt_with provider_auth E tmo a s =
     (if kind a = AGENT then tryAgentAuth E tmo s
      else if kind a = PROVIDER then provider_auth s
      else
        do { (rc, s) \<leftarrow> checkAuthAttemptAccessUnlocked E a s;
             if rc \<noteq> 0 then Some ((-1, False), s)
             else
               do { (r, s) \<leftarrow> retry_loop is_eagain (authCallUnlocked E a) (connect_wait E tmo) s;
                    case r of
                      None \<Rightarrow> do { (_, s) \<leftarrow> force_disconnect E s; Some ((-1, False), s) }
                    | Some rc \<Rightarrow>
                        if rc = Ret 0 then Some ((0, True), setAuthenticatedWithUnlocked a s)
                        else Some ((0, False), s) } })"

text \<open>The loop over a plan: it ends with the first success or the first error.\<close>

fun run_attempts ::
  "(attempt \<Rightarrow> ('w, 'm) cst \<Rightarrow> ((int \<times> bool) \<times> ('w, 'm) cst) option) \<Rightarrow> attempt list \<Rightarrow> ('w, 'm) cst \<Rightarrow>
   ((int \<times> bool) \<times> ('w, 'm) cst) option" where
  "run_attempts run [] s = Some ((0, False), s)"
| "run_attempts run (a # as) s =
     do { ((rc, loggedin), s) \<leftarrow> run a s;
          if rc \<noteq> 0 then Some ((-1, loggedin), s)
          else if loggedin then Some ((0, True), s)
          else run_attempts run as s }"

section \<open>The client identity provider\<close>

text \<open>The code asserts that a provider is configured in the next two functions.\<close>

definition getProviderCandidatesUnlocked ::
  "('w, 'm) cenv \<Rightarrow> int \<Rightarrow> ('w, 'm) cst \<Rightarrow> qvalue list option \<times> ('w, 'm) cst" where
  "getProviderCandidatesUnlocked E tmo s =
     (case client_identity_provider s of
        None \<Rightarrow> (None, s)
      | Some provider \<Rightarrow>
          if xsink s \<noteq> [] then (None, s)
          else case provider_candidates E provider (makeProviderContext E ''client-identity'' tmo s) s of
            (None, s) \<Rightarrow> (None, raise True ''SSH2-CLIENT-IDENTITY-PROVIDER-ERROR'' s)
          | (Some (QList l), s) \<Rightarrow> (Some l, s)
          | (Some _, s) \<Rightarrow> (None, raise True ''SSH2-CLIENT-IDENTITY-INVALID-RESPONSE'' s))"

definition addMemoryKeyAttemptUnlocked :: "('w, 'm) cenv \<Rightarrow> string option \<Rightarrow> string \<Rightarrow> attempt list" where
  "addMemoryKeyAttemptUnlocked E pub priv =
     push_if (have_publickey_frommemory E \<and> priv \<noteq> [])
       \<lparr>kind = PUBKEY_MEMORY, pub_key = (case pub of Some p \<Rightarrow> p | None \<Rightarrow> []), priv_key = priv, passphrase = []\<rparr>"

text \<open>
  A required string of a hash: a missing one is an invalid response unless the conversion has
  raised an exception already.
\<close>

definition require_string ::
  "('w, 'm) cenv \<Rightarrow> (string \<times> qvalue) list \<Rightarrow> string \<Rightarrow> ('w, 'm) cst \<Rightarrow> string option \<times> ('w, 'm) cst" where
  "require_string E h key s =
     (case ssh2_get_hash_string E h key s of
        (None, s) \<Rightarrow>
          (None, if xsink s = [] then raise True ''SSH2-CLIENT-IDENTITY-INVALID-RESPONSE'' s else s)
      | (Some v, s) \<Rightarrow> (Some v, s))"

definition file_attempt :: "string \<Rightarrow> ('w, 'm) cst \<Rightarrow> attempt" where
  "file_attempt path s = \<lparr>kind = PUBKEY_FILE, pub_key = [], priv_key = path, passphrase = sshpass s\<rparr>"

lemma attempt_kind_simps [simp]:
  "kind (file_attempt p s) = PUBKEY_FILE" "kind (Ssh2AuthAttempt k) = k"
  by (simp_all add: file_attempt_def Ssh2AuthAttempt_def)

text \<open>The conversion of the private key material that the provider returned.\<close>

definition resolve_material ::
  "('w, 'm) cenv \<Rightarrow> bool \<Rightarrow> (string \<times> qvalue) list \<Rightarrow> ('w, 'm) cst \<Rightarrow> (int \<times> attempt list) \<times> ('w, 'm) cst" where
  "resolve_material E opt material s =
     (let fail = (\<lambda>s. ((-1, []), s));
          invalid = (\<lambda>s. ((-1, []), raise True ''SSH2-CLIENT-IDENTITY-INVALID-RESPONSE'' s));
          add_key = (\<lambda>priv s. case ssh2_get_hash_string E material ''public_key_text'' s of (pub, s) \<Rightarrow>
            if xsink s \<noteq> [] then fail s else ((0, addMemoryKeyAttemptUnlocked E pub priv), s))
      in case require_string E material ''kind'' s of
           (None, s) \<Rightarrow> fail s
         | (Some material_kind, s) \<Rightarrow>
             if material_kind = ''file'' then
               (case require_string E material ''path'' s of
                  (None, s) \<Rightarrow> fail s
                | (Some path, s) \<Rightarrow> ((0, [file_attempt path s]), s))
             else if material_kind = ''text'' then
               (case require_string E material ''private_key_text'' s of
                  (None, s) \<Rightarrow> fail s
                | (Some private_key, s) \<Rightarrow> add_key private_key s)
             else if material_kind = ''data'' then
               (case hash_get material ''private_key_data'' of
                  QBinary private_key \<Rightarrow> add_key private_key s
                | _ \<Rightarrow> invalid s)
             else if opt then ((0, []), s)
             else invalid s)"

definition resolveProviderCandidateUnlocked ::
  "('w, 'm) cenv \<Rightarrow> qvalue \<Rightarrow> int \<Rightarrow> ('w, 'm) cst \<Rightarrow> (int \<times> attempt list) \<times> ('w, 'm) cst" where
  "resolveProviderCandidateUnlocked E candidate_value tmo s =
     (let fail = (\<lambda>s. ((-1, []), s));
          invalid = (\<lambda>s. ((-1, []), raise True ''SSH2-CLIENT-IDENTITY-INVALID-RESPONSE'' s))
      in case (candidate_value, client_identity_provider s) of
           (QHash candidate, Some provider) \<Rightarrow>
             (case require_string E candidate ''kind'' s of
                (None, s) \<Rightarrow> fail s
              | (Some k, s) \<Rightarrow>
                  (let opt = (if hash_get candidate ''optional'' = QNothing then False
                              else to_qbool E (hash_get candidate ''optional''))
                   in if k = ''agent'' then
                        ((0, push_if (publicKeyAuthAvailableUnlocked s) (Ssh2AuthAttempt AGENT)), s)
                      else if k = ''file'' then
                        (case require_string E candidate ''path'' s of
                           (None, s) \<Rightarrow> fail s
                         | (Some path, s) \<Rightarrow> ((0, [file_attempt path s]), s))
                      else if k \<noteq> ''in-memory'' \<and> k \<noteq> ''reference'' then invalid s
                      else if xsink s \<noteq> [] then fail s
                      else
                        (case provider_material E provider (makeProviderContext E ''client-identity'' tmo s)
                            candidate s of
                           (None, s) \<Rightarrow>
                             if opt then ((0, []), s)
                             else ((-1, []), raise True ''SSH2-CLIENT-IDENTITY-PROVIDER-ERROR'' s)
                         | (Some (QHash material), s) \<Rightarrow> resolve_material E opt material s
                         | (Some _, s) \<Rightarrow> invalid s)))
         | _ \<Rightarrow> invalid s)"

text \<open>The loop over the candidates; \<open>i\<close> is the index of the first of \<open>cs\<close>.\<close>

fun provider_loop ::
  "('w, 'm) cenv \<Rightarrow> int \<Rightarrow> nat \<Rightarrow> qvalue list \<Rightarrow> ('w, 'm) cst \<Rightarrow> ((int \<times> bool) \<times> ('w, 'm) cst) option" where
  "provider_loop E tmo i [] s = Some ((0, False), s)"
| "provider_loop E tmo i (c # cs) s =
     (case (if i mod 100 = 0 then qore_check_cancel E s else (False, s)) of (cancelled, s) \<Rightarrow>
        if cancelled then do { (_, s) \<leftarrow> force_disconnect E s; Some ((-1, False), s) }
        else
          (case resolveProviderCandidateUnlocked E c tmo s of ((rc, sub_plan), s) \<Rightarrow>
             if rc \<noteq> 0 then Some ((-1, False), s)
             else
               do { ((rc, loggedin), s) \<leftarrow>
                      run_attempts (runAuthAttempt_with (\<lambda>s. Some ((-1, False), s)) E tmo) sub_plan s;
                    if rc \<noteq> 0 then Some ((-1, loggedin), s)
                    else if loggedin then Some ((0, True), s)
                    else provider_loop E tmo (Suc i) cs s }))"

definition tryProviderAuth ::
  "('w, 'm) cenv \<Rightarrow> int \<Rightarrow> ('w, 'm) cst \<Rightarrow> ((int \<times> bool) \<times> ('w, 'm) cst) option" where
  "tryProviderAuth E tmo s =
     (if \<not> publicKeyAuthAvailableUnlocked s then Some ((0, False), s)
      else case getProviderCandidatesUnlocked E tmo s of
             (None, s) \<Rightarrow> Some ((-1, False), s)
           | (Some candidates, s) \<Rightarrow> provider_loop E tmo 0 candidates s)"

definition runAuthAttemptUnlocked ::
  "('w, 'm) cenv \<Rightarrow> int \<Rightarrow> attempt \<Rightarrow> ('w, 'm) cst \<Rightarrow> ((int \<times> bool) \<times> ('w, 'm) cst) option" where
  "runAuthAttemptUnlocked E tmo = runAuthAttempt_with (tryProviderAuth E tmo) E tmo"

section \<open>The plan: properties\<close>

lemma buildAuthPlan_state [simp]:
  "snd (buildAuthPlanUnlocked E l s) = s\<lparr>auth_methods := (case l of Some l \<Rightarrow> l | None \<Rightarrow> [])\<rparr>"
  by (simp add: buildAuthPlanUnlocked_def Let_def)

lemmas plan_defs = buildAuthPlanUnlocked_def Let_def push_if_def Ssh2AuthAttempt_def
  publicKeyAuthAvailableUnlocked_def

text \<open>The credentials an attempt may use, in words of the configuration.\<close>

definition attempt_permitted :: "('w, 'm) cst \<Rightarrow> string \<Rightarrow> attempt \<Rightarrow> bool" where
  "attempt_permitted s methods a =
     (case kind a of
        PROVIDER \<Rightarrow> client_identity_provider s \<noteq> None
      | AGENT \<Rightarrow> use_agent s \<and> contains methods ''publickey'' \<and>
          (client_identity_provider s \<noteq> None \<longrightarrow> client_identity_fallback_policy s \<in>
             {SSH2_CLIENT_ID_FALLBACK_AGENT, SSH2_CLIENT_ID_FALLBACK_AGENT_AND_DEFAULT_KEYS})
      | PUBKEY_FILE \<Rightarrow> contains methods ''publickey'' \<and> priv_key a = sshkeys_priv s \<and> pub_key a = sshkeys_pub s
          \<and> priv_key a \<noteq> [] \<and> pub_key a \<noteq> [] \<and>
          (client_identity_provider s \<noteq> None \<longrightarrow> explicit_key_files s
             \<or> auto_key_files s \<and> client_identity_fallback_policy s \<in>
                 {SSH2_CLIENT_ID_FALLBACK_DEFAULT_KEYS, SSH2_CLIENT_ID_FALLBACK_AGENT_AND_DEFAULT_KEYS})
      | PUBKEY_MEMORY \<Rightarrow> contains methods ''publickey'' \<and> priv_key a = sshkeys_priv_data s \<and> priv_key a \<noteq> []
          \<and> (client_identity_provider s \<noteq> None \<longrightarrow> explicit_key_data s)
      | PASSWORD \<Rightarrow> contains methods ''password'' \<and> sshpass s \<noteq> []
      | KEYBOARD_INTERACTIVE \<Rightarrow> contains methods ''keyboard-interactive'' \<and> sshpass s \<noteq> [])"

text \<open>
  C10 (safety). The plan contains only permitted attempts: one is made only with credentials
  the configuration names and a method the server advertised, and with a client identity
  provider configured, the agent and the discovered key files are used only as far as the
  fallback policy allows.
\<close>

theorem auth_plan_permitted:
  "list_all (attempt_permitted s (case l of Some m \<Rightarrow> m | None \<Rightarrow> [])) (fst (buildAuthPlanUnlocked E l s))"
  by (cases l) (auto simp: plan_defs attempt_permitted_def policy_consts contains.simps [of "[]"])

definition explicit_attempt :: "('w, 'm) cst \<Rightarrow> attempt \<Rightarrow> bool" where
  "explicit_attempt s a \<longleftrightarrow> kind a = PUBKEY_MEMORY \<or> kind a = PUBKEY_FILE \<and> explicit_key_files s"

lemma kinds_in_order:
  assumes "kind x = AGENT" "kind y = PUBKEY_MEMORY" "kind z = PUBKEY_FILE"
    "keys = push_if a x @ push_if b y @ push_if c z"
  shows "map kind keys = filter (\<lambda>k. k \<in> kind ` set keys) [AGENT, PUBKEY_MEMORY, PUBKEY_FILE]"
  unfolding assms(4) using assms(1-3) by (cases a; cases b; cases c) (simp_all add: push_if_def)

text \<open>
  C11 (functional). The order of the plan: password authentication and then
  keyboard-interactive authentication come last in every plan. Without a client identity
  provider the other attempts are in the order agent, key in memory, key in a file. With one,
  the provider is consulted exactly once; it precedes every other attempt when the order is
  provider first, and with explicit credentials first it follows them and precedes the
  fallbacks, which are then in the order agent, discovered keys.
\<close>

theorem auth_plan_order:
  assumes "config_valid s"
  shows "\<exists>keys pw. fst (buildAuthPlanUnlocked E l s) = keys @ pw
     \<and> map kind pw = filter (\<lambda>k. k \<in> kind ` set pw) [PASSWORD, KEYBOARD_INTERACTIVE]
     \<and> (if client_identity_provider s = None
        then map kind keys = filter (\<lambda>k. k \<in> kind ` set keys) [AGENT, PUBKEY_MEMORY, PUBKEY_FILE]
        else \<exists>ex fb. keys = (if client_auth_order s = SSH2_CLIENT_AUTH_PROVIDER_FIRST
                 then [Ssh2AuthAttempt PROVIDER] @ ex else ex @ [Ssh2AuthAttempt PROVIDER]) @ fb
           \<and> list_all (explicit_attempt s) ex
           \<and> map kind fb \<in> {[], [AGENT], [PUBKEY_FILE], [AGENT, PUBKEY_FILE]} \<and> list_all (\<lambda>a. \<not> explicit_attempt s a) fb)"
proof -
  define av where "av = contains (case l of Some m \<Rightarrow> m | None \<Rightarrow> []) ''publickey''"
  define pass where "pass = (if sshkeys_passphrase s = [] then sshpass s else sshkeys_passphrase s)"
  define mem where "mem = \<lparr>kind = PUBKEY_MEMORY, pub_key = sshkeys_pub_data s, priv_key = sshkeys_priv_data s,
      passphrase = pass\<rparr>"
  define fk where "fk = \<lparr>kind = PUBKEY_FILE, pub_key = sshkeys_pub s, priv_key = sshkeys_priv s,
      passphrase = sshpass s\<rparr>"
  define ex where "ex = push_if (explicit_key_data s \<and> av \<and> sshkeys_priv_data s \<noteq> []
        \<and> have_publickey_frommemory E) mem
      @ push_if (av \<and> explicit_key_files s \<and> sshkeys_priv s \<noteq> [] \<and> sshkeys_pub s \<noteq> []) fk"
  define fb where "fb = push_if (use_agent s \<and> av \<and> client_identity_fallback_policy s \<in>
        {SSH2_CLIENT_ID_FALLBACK_AGENT, SSH2_CLIENT_ID_FALLBACK_AGENT_AND_DEFAULT_KEYS}) (Ssh2AuthAttempt AGENT)
      @ push_if (av \<and> auto_key_files s \<and> client_identity_fallback_policy s \<in>
        {SSH2_CLIENT_ID_FALLBACK_DEFAULT_KEYS, SSH2_CLIENT_ID_FALLBACK_AGENT_AND_DEFAULT_KEYS}) fk"
  define own where "own = push_if (use_agent s \<and> av) (Ssh2AuthAttempt AGENT)
      @ push_if (av \<and> sshkeys_priv_data s \<noteq> [] \<and> have_publickey_frommemory E) mem
      @ push_if (av \<and> sshkeys_priv s \<noteq> [] \<and> sshkeys_pub s \<noteq> []) fk"
  define keys where "keys = (if client_identity_provider s = None then own
      else (if client_auth_order s = SSH2_CLIENT_AUTH_PROVIDER_FIRST
            then [Ssh2AuthAttempt PROVIDER] @ ex else ex @ [Ssh2AuthAttempt PROVIDER]) @ fb)"
  define pw where "pw = push_if (sshpass s \<noteq> [] \<and> (case l of Some l \<Rightarrow> contains l ''password'' | None \<Rightarrow> False))
        (Ssh2AuthAttempt PASSWORD)
      @ push_if (sshpass s \<noteq> [] \<and> (case l of Some l \<Rightarrow> contains l ''keyboard-interactive'' | None \<Rightarrow> False))
        (Ssh2AuthAttempt KEYBOARD_INTERACTIVE)"
  have key: "auto_key_files s \<Longrightarrow> sshkeys_priv s \<noteq> [] \<and> sshkeys_pub s \<noteq> [] \<and> \<not> explicit_key_files s"
    using assms(1) by (auto simp: config_valid_def)
  have plan: "fst (buildAuthPlanUnlocked E l s) = keys @ pw"
    using key
    by (auto simp: buildAuthPlanUnlocked_def Let_def publicKeyAuthAvailableUnlocked_def keys_def own_def ex_def fb_def
        pw_def mem_def fk_def pass_def av_def push_if_def)
  have pw: "map kind pw = filter (\<lambda>k. k \<in> kind ` set pw) [PASSWORD, KEYBOARD_INTERACTIVE]"
    by (simp add: pw_def push_if_def Ssh2AuthAttempt_def)
  have own: "map kind own = filter (\<lambda>k. k \<in> kind ` set own) [AGENT, PUBKEY_MEMORY, PUBKEY_FILE]"
    by (rule kinds_in_order [OF _ _ _ own_def]) (simp_all add: Ssh2AuthAttempt_def mem_def fk_def)
  have ex: "list_all (explicit_attempt s) ex"
    by (simp add: ex_def push_if_def explicit_attempt_def mem_def fk_def)
  have fb: "map kind fb \<in> {[], [AGENT], [PUBKEY_FILE], [AGENT, PUBKEY_FILE]}" "list_all (\<lambda>a. \<not> explicit_attempt s a) fb"
    using key by (auto simp: fb_def push_if_def fk_def Ssh2AuthAttempt_def explicit_attempt_def)
  have "if client_identity_provider s = None
        then map kind keys = filter (\<lambda>k. k \<in> kind ` set keys) [AGENT, PUBKEY_MEMORY, PUBKEY_FILE]
        else \<exists>ex fb. keys = (if client_auth_order s = SSH2_CLIENT_AUTH_PROVIDER_FIRST
                 then [Ssh2AuthAttempt PROVIDER] @ ex else ex @ [Ssh2AuthAttempt PROVIDER]) @ fb
           \<and> list_all (explicit_attempt s) ex
           \<and> map kind fb \<in> {[], [AGENT], [PUBKEY_FILE], [AGENT, PUBKEY_FILE]} \<and> list_all (\<lambda>a. \<not> explicit_attempt s a) fb"
  proof (cases "client_identity_provider s = None")
    case True
    then have "keys = own" unfolding keys_def by (rule if_P)
    with own show ?thesis unfolding if_P [OF True] by simp
  next
    case False
    then have e: "keys = (if client_auth_order s = SSH2_CLIENT_AUTH_PROVIDER_FIRST
        then [Ssh2AuthAttempt PROVIDER] @ ex else ex @ [Ssh2AuthAttempt PROVIDER]) @ fb"
      unfolding keys_def by (rule if_not_P)
    show ?thesis unfolding if_not_P [OF False] by (intro exI [of _ ex] exI [of _ fb] conjI e ex fb)
  qed
  then show ?thesis by (intro exI [of _ keys] exI [of _ pw] conjI plan pw)
qed

theorem auth_plan_order_witness:
  "\<exists>keys pw. fst (buildAuthPlanUnlocked tenv (Some ''publickey,password'') client0) = keys @ pw
     \<and> map kind pw = filter (\<lambda>k. k \<in> kind ` set pw) [PASSWORD, KEYBOARD_INTERACTIVE]
     \<and> map kind keys = filter (\<lambda>k. k \<in> kind ` set keys) [AGENT, PUBKEY_MEMORY, PUBKEY_FILE]"
  using auth_plan_order [of client0 tenv "Some ''publickey,password''"]
  by (auto simp: config_valid_def client0_def valid_policy_def policy_consts)

section \<open>Outcomes of an attempt\<close>

text \<open>
  An attempt ends in one of these ways: the server refused it and the client is as before; it
  succeeded and the method is recorded; it failed and the client is disconnected with an
  exception; or, only for an attempt that consults the provider (\<open>p\<close>), it failed with an
  exception and the session is still open.
\<close>

definition auth_outcome :: "bool \<Rightarrow> ('w, 'm) cst \<Rightarrow> int \<times> bool \<Rightarrow> ('w, 'm) cst \<Rightarrow> bool" where
  "auth_outcome p s r t \<longleftrightarrow>
     (r = (0, False) \<and> io_step False s t)
     \<or> (r = (0, True) \<and> (\<exists>m. io_step False (s\<lparr>sshauthenticatedwith := Some m\<rparr>) t))
     \<or> (r = (-1, False) \<and> xsink t \<noteq> [] \<and> (\<exists>b. io_step True ((disc_state s)\<lparr>handle_outlives := b\<rparr>) t))
     \<or> (p \<and> r = (-1, False) \<and> xsink t \<noteq> [] \<and> io_step True s t)"

lemma auth_outcome_trans:
  assumes "io_step False s u" and "auth_outcome p u r t"
  shows "auth_outcome p s r t"
proof -
  have 1: "io_step False (s\<lparr>sshauthenticatedwith := m\<rparr>) (u\<lparr>sshauthenticatedwith := m\<rparr>)" for m
    using assms(1) by (elim io_stepE) (auto simp: io_step_def core_def)
  have 2: "io_step True ((disc_state s)\<lparr>handle_outlives := b\<rparr>) ((disc_state u)\<lparr>handle_outlives := b\<rparr>)" for b
    using assms(1) by (elim io_stepE) (auto simp: io_step_def core_def disc_state_def)
  show ?thesis
    using assms(2) io_step_trans [OF assms(1)] io_step_trans [OF io_step_weaken [OF assms(1)]]
      io_step_trans [OF 1] io_step_trans [OF 2]
    unfolding auth_outcome_def by blast
qed

lemma auth_outcome_result:
  "auth_outcome p s r t \<Longrightarrow> r = (0, False) \<and> io_step False s t \<or> r = (0, True) \<or> r = (-1, False)"
  by (auto simp: auth_outcome_def)

lemma auth_outcome_mono: "auth_outcome q s r t \<Longrightarrow> (q \<Longrightarrow> p) \<Longrightarrow> auth_outcome p s r t"
  by (auto simp: auth_outcome_def)

lemma auth_outcome_refused [simp]: "io_step False s t \<Longrightarrow> auth_outcome p s (0, False) t"
  by (simp add: auth_outcome_def)

lemma auth_outcome_login:
  "io_step False (s\<lparr>sshauthenticatedwith := Some m\<rparr>) t \<Longrightarrow> auth_outcome p s (0, True) t"
  by (auto simp: auth_outcome_def)

lemma auth_outcome_closed:
  assumes "post m (\<lambda>r t. io_step False (disc_state u) t)"
    and "io_step True s u \<or> (\<exists>b. io_step True ((disc_state s)\<lparr>handle_outlives := b\<rparr>) u)"
    and "xsink u \<noteq> []"
  shows "post m (\<lambda>r t. auth_outcome p s (-1, False) t)"
proof (rule post_mono [OF assms(1)])
  fix r t
  assume t: "io_step False (disc_state u) t"
  have "\<exists>b. io_step True ((disc_state s)\<lparr>handle_outlives := b\<rparr>) (disc_state u)"
    using assms(2)
  proof
    assume "io_step True s u"
    then have "io_step True ((disc_state s)\<lparr>handle_outlives := handle_outlives (disc_state s)\<rparr>) (disc_state u)"
      using io_step_disc by simp
    then show ?thesis by blast
  next
    assume "\<exists>b. io_step True ((disc_state s)\<lparr>handle_outlives := b\<rparr>) u"
    then obtain b where "io_step True ((disc_state s)\<lparr>handle_outlives := b\<rparr>) u" by blast
    then have "io_step True ((disc_state s)\<lparr>handle_outlives := b\<rparr>) (disc_state u)"
      by (elim io_stepE) (auto simp: disc_state_def io_step_def core_def)
    then show ?thesis by blast
  qed
  with io_step_trans [OF _ io_step_weaken [OF t]] io_step_False_xsink [OF t] assms(3)
  show "auth_outcome p s (-1, False) t" by (auto simp: auth_outcome_def)
qed

lemma force_disconnect_io: "post (force_disconnect E u) (\<lambda>r t. io_step False (disc_state u) t)"
  by (rule post_mono [OF force_disconnect_post]) simp

text \<open>The agent handle lives from the helper's \<open>init()\<close> to its \<open>reset()\<close>.\<close>

lemma agent_reset_sink [simp]: "xsink (snd (Ssh2AgentHelper_reset E h u)) = xsink u"
  by (simp add: Ssh2AgentHelper_reset_def Let_def run_ext_def)

lemma agent_reset_io:
  assumes "io_step x (s\<lparr>agent_live := True\<rparr>) u" and "\<not> agent_live s"
  shows "io_step x s (snd (Ssh2AgentHelper_reset E h u))"
  using assms by (elim io_stepE) (auto simp: Ssh2AgentHelper_reset_def Let_def run_ext_def io_step_def core_def)

lemma agent_reset_disc:
  assumes "io_step True (disc_state (s\<lparr>agent_live := True\<rparr>)) u" and "\<not> agent_live s"
  shows "io_step True ((disc_state s)\<lparr>handle_outlives := handle_outlives s \<or> ssh_session s\<rparr>)
    (snd (Ssh2AgentHelper_reset E h u))"
  using assms by (elim io_stepE) (simp add: Ssh2AgentHelper_reset_def Let_def run_ext_def io_step_def
      core_def disc_state_def)

lemma agent_reset_login:
  assumes "io_step False (s\<lparr>agent_live := True\<rparr>) u" and "\<not> agent_live s"
  shows "io_step False (s\<lparr>sshauthenticatedwith := m\<rparr>)
    (snd (Ssh2AgentHelper_reset E h (u\<lparr>sshauthenticatedwith := m\<rparr>)))"
  using assms by (elim io_stepE) (auto simp: Ssh2AgentHelper_reset_def Let_def run_ext_def io_step_def core_def)

lemma nextIdentity_io: "Ssh2AgentHelper_nextIdentity E h s = (r, t) \<Longrightarrow> io_step False s t"
  by (auto simp: Ssh2AgentHelper_nextIdentity_def Let_def call_ext_eq_pair split: if_splits option.splits)

lemma userauth_io: "Ssh2AgentHelper_userauth E h u s = (r, t) \<Longrightarrow> io_step False s t"
  by (auto simp: Ssh2AgentHelper_userauth_def split: if_splits option.splits dest: io_step_call)

lemma check_cancel_io:
  assumes "qore_check_cancel E s = (b, t)"
  shows "\<not> b \<Longrightarrow> io_step False s t" "b \<Longrightarrow> io_step True s t \<and> xsink t \<noteq> []"
  using assms by (auto simp: qore_check_cancel_def call_ext_eq_pair split: if_splits
      intro: io_step_trans [OF io_step_world io_step_raise])

lemma agent_init_io:
  assumes "Ssh2AgentHelper_init E h s = ((rc, h'), t)" and "\<not> agent_live s"
  shows "rc = 0 \<Longrightarrow> io_step False (s\<lparr>agent_live := True\<rparr>) t" "rc \<noteq> 0 \<Longrightarrow> io_step False s t"
  using assms
  by (auto simp: Ssh2AgentHelper_init_def Let_def call_ext_eq_pair Ssh2AgentHelper_reset_def run_ext_def
      io_step_def core_def split: if_splits option.splits)

lemma agent_loop_post:
  assumes "io_step False (s0\<lparr>agent_live := True\<rparr>) s" and "\<not> agent_live s0" and "xsink s0 = []"
  shows "post (agent_loop E tmo h s) (auth_outcome p s0)"
proof (rule post_I)
  fix r t
  assume ret: "agent_loop E tmo h s = Some (r, t)"
  let ?P = "\<lambda>(E' :: ('a, 'b) cenv) (tmo' :: int) (h :: agent_helper) s y. E' = E \<longrightarrow>
      io_step False (s0\<lparr>agent_live := True\<rparr>) s \<longrightarrow> auth_outcome p s0 (fst y) (snd y)"
  have "?P E tmo h s (r, t)"
  proof (rule agent_loop.raw_induct [where P = ?P, OF _ ret])
    fix al E' tmo' h s y
    assume IH: "\<And>E' tmo' h s y. al E' tmo' h s = Some y \<Longrightarrow> ?P E' tmo' h s y"
      and eq: "(case Ssh2AgentHelper_nextIdentity E' h s of ((rc, h), s) \<Rightarrow>
        if rc \<noteq> 0 then Some ((0, False), snd (Ssh2AgentHelper_reset E' h s))
        else
          (case qore_check_cancel E' s of (cancelled, s) \<Rightarrow>
             if cancelled then
               do { (_, s) \<leftarrow> force_disconnect E' (snd (Ssh2AgentHelper_reset E' h s));
                    Some ((-1, False), s) }
             else
               do { (r, s) \<leftarrow> retry_loop is_eagain (\<lambda>s. Ssh2AgentHelper_userauth E' h (sshuser s) s)
                       (connect_wait E' tmo') s;
                    case r of
                      None \<Rightarrow>
                        do { (_, s) \<leftarrow> force_disconnect E' (snd (Ssh2AgentHelper_reset E' h s));
                             Some ((-1, False), s) }
                    | Some rc \<Rightarrow>
                        if rc = Ret 0 then
                          Some ((0, True), snd (Ssh2AgentHelper_reset E' h
                            (s\<lparr>sshauthenticatedwith := Some ''agent''\<rparr>)))
                        else al E' tmo' h s })) = Some y"
    show "?P E' tmo' h s y"
    proof (intro impI)
      assume "E' = E" and s: "io_step False (s0\<lparr>agent_live := True\<rparr>) s"
      obtain rc h1 s1 where n: "Ssh2AgentHelper_nextIdentity E h s = ((rc, h1), s1)"
        by (cases "Ssh2AgentHelper_nextIdentity E h s") auto
      have s1: "io_step False (s0\<lparr>agent_live := True\<rparr>) s1"
        by (rule io_step_trans [OF s nextIdentity_io [OF n]])
      obtain b s2 where c: "qore_check_cancel E s1 = (b, s2)" by fastforce
      note c' = check_cancel_io [OF c]
      have disc: "post (force_disconnect E v) (\<lambda>r t. auth_outcome p s0 (-1, False) t)"
        if "io_step True s0 v \<or> (\<exists>b. io_step True ((disc_state s0)\<lparr>handle_outlives := b\<rparr>) v)" "xsink v \<noteq> []" for v
        by (rule auth_outcome_closed [OF force_disconnect_io that])
      have closed: "auth_outcome p s0 (fst y) (snd y)"
        if "do { (_, s) \<leftarrow> force_disconnect E v; Some ((-1, False), s) } = Some y"
          "io_step True s0 v \<or> (\<exists>b. io_step True ((disc_state s0)\<lparr>handle_outlives := b\<rparr>) v)" "xsink v \<noteq> []" for v
        using that(1) post_D [OF disc [OF that(2,3)]] by (auto simp: Option.bind_eq_Some_conv)
      show "auth_outcome p s0 (fst y) (snd y)"
      proof (cases "rc \<noteq> 0 \<or> b")
        case True
        with eq n c \<open>E' = E\<close> agent_reset_io [OF s1 assms(2)] closed
          agent_reset_io [OF io_step_trans [OF io_step_weaken [OF s1], of True s2] assms(2)] c'(2)
        show ?thesis by (auto split: if_splits)
      next
        case False
        have s2: "io_step False (s0\<lparr>agent_live := True\<rparr>) s2"
          using False c'(1) io_step_trans [OF s1] by simp
        from False eq n c \<open>E' = E\<close> obtain v s3 where
          l: "retry_loop is_eagain (\<lambda>s. Ssh2AgentHelper_userauth E h1 (sshuser s) s) (connect_wait E tmo') s2
              = Some (v, s3)"
          and k: "(case v of None \<Rightarrow>
                        do { (_, s) \<leftarrow> force_disconnect E (snd (Ssh2AgentHelper_reset E h1 s3));
                             Some ((-1, False), s) }
                    | Some rc \<Rightarrow>
                        if rc = Ret 0 then
                          Some ((0, True), snd (Ssh2AgentHelper_reset E h1
                            (s3\<lparr>sshauthenticatedwith := Some ''agent''\<rparr>)))
                        else al E tmo' h1 s3) = Some y"
          by (auto simp: Option.bind_eq_Some_conv)
        have p3: "(\<exists>w. v = Some w \<and> \<not> is_eagain w \<and> io_step False s2 s3) \<or>
            (v = None \<and> io_step True (disc_state s2) s3 \<and> length (xsink s2) < length (xsink s3))"
          using post_D [OF retry_wait_post_gen [where call = "\<lambda>s. Ssh2AgentHelper_userauth E h1 (sshuser s) s",
                OF userauth_io] l [unfolded connect_wait_def]] by simp
        show ?thesis
        proof (cases v)
          case None
          with p3 have "io_step True (disc_state s2) s3" "xsink s3 \<noteq> []" by auto
          with io_step_trans [OF io_step_disc [OF io_step_weaken [OF s2]]]
          have "io_step True (disc_state (s0\<lparr>agent_live := True\<rparr>)) s3" by blast
          from agent_reset_disc [OF this assms(2)] closed [of "snd (Ssh2AgentHelper_reset E h1 s3)"] k None
            \<open>xsink s3 \<noteq> []\<close> show ?thesis by auto
        next
          case (Some w)
          with p3 io_step_trans [OF s2] have s3: "io_step False (s0\<lparr>agent_live := True\<rparr>) s3" by auto
          show ?thesis
          proof (cases "w = Ret 0")
            case True
            with k Some auth_outcome_login [OF agent_reset_login [OF s3 assms(2)]] show ?thesis by auto
          next
            case False
            with k Some IH [of E tmo' h1 s3 y] s3 show ?thesis by auto
          qed
        qed
      qed
    qed
  qed
  with assms(1) show "auth_outcome p s0 r t" by simp
qed

lemma tryAgentAuth_post:
  assumes "\<not> agent_live s" "xsink s = []"
  shows "post (tryAgentAuth E tmo s) (auth_outcome p s)"
proof -
  obtain rc h t where i: "Ssh2AgentHelper_init E Ssh2AgentHelper_new s = ((rc, h), t)"
    by (cases "Ssh2AgentHelper_init E Ssh2AgentHelper_new s") auto
  note io = agent_init_io [OF i assms(1)]
  show ?thesis
    unfolding tryAgentAuth_def i
    using io agent_loop_post [OF _ assms] by (auto split: if_splits)
qed

lemma checkAuthAttemptAccess_post:
  assumes "xsink s = []"
  shows "post (checkAuthAttemptAccessUnlocked E a s)
    (\<lambda>rc t. if rc = 0 then io_step False s t else auth_outcome p s (-1, False) t)"
proof -
  have d: "post (force_disconnect E u) (\<lambda>_ t. auth_outcome p s (-1, False) t)"
    if "ssh2_check_fs_access E f md True s = (rc, u)" "rc \<noteq> 0" for u f md rc
    using auth_outcome_closed [OF force_disconnect_io] fs_access_io [OF that(1)] fs_access_denied [OF that]
    by blast
  obtain rc u where 1: "ssh2_check_fs_access E (priv_key a) [QSEC_READ] True s = (rc, u)" by fastforce
  obtain rc2 v where 2: "ssh2_check_fs_access E (pub_key a) [QSEC_READ] True s = (rc2, v)" by fastforce
  have "rc = 0 \<Longrightarrow> u = s" "rc2 = 0 \<Longrightarrow> v = s" using fs_access_ok 1 2 by fastforce+
  then show ?thesis
    unfolding checkAuthAttemptAccessUnlocked_def using 1 2 d [OF 1] d [OF 2] by auto
qed

lemma authCall_io: "authCallUnlocked E a s = (r, t) \<Longrightarrow> io_step False s t"
  by (auto simp: authCallUnlocked_def split: attempt_kind.splits if_splits dest: io_step_call)

lemma runAuthAttempt_post:
  assumes "\<not> agent_live s" "xsink s = []"
    and prov: "kind a = PROVIDER \<Longrightarrow> post (prov s) (auth_outcome p s)"
  shows "post (runAuthAttempt_with prov E tmo a s) (auth_outcome p s)"
proof (cases "kind a = AGENT \<or> kind a = PROVIDER")
  case True
  with prov tryAgentAuth_post [OF assms(1,2)] show ?thesis
    unfolding runAuthAttempt_with_def by auto
next
  case False
  have call: "post (retry_loop is_eagain (authCallUnlocked E a) (connect_wait E tmo) u)
      (\<lambda>r t. post (case r of
                      None \<Rightarrow> do { (_, s) \<leftarrow> force_disconnect E t; Some ((-1, False), s) }
                    | Some rc \<Rightarrow>
                        if rc = Ret 0 then Some ((0, True), setAuthenticatedWithUnlocked a t)
                        else Some ((0, False), t)) (auth_outcome p s))"
    if u: "io_step False s u" for u
    unfolding connect_wait_def
  proof (rule post_mono [OF retry_wait_post_gen [OF authCall_io]])
    fix r t
    assume "(\<exists>v. r = Some v \<and> \<not> is_eagain v \<and> io_step False u t) \<or>
       (r = None \<and> io_step True (disc_state u) t \<and> (True \<longrightarrow> length (xsink u) < length (xsink t)))"
    moreover have "length (xsink u) < length (xsink t) \<Longrightarrow> xsink t \<noteq> []" by auto
    ultimately consider v where "r = Some v" "io_step False u t"
      | "r = None" "io_step True (disc_state u) t" "xsink t \<noteq> []" by blast
    then show "post (case r of
                      None \<Rightarrow> do { (_, s) \<leftarrow> force_disconnect E t; Some ((-1, False), s) }
                    | Some rc \<Rightarrow>
                        if rc = Ret 0 then Some ((0, True), setAuthenticatedWithUnlocked a t)
                        else Some ((0, False), t)) (auth_outcome p s)"
    proof cases
      case 1
      have "io_step False s t" by (rule io_step_trans [OF u 1(2)])
      moreover from this have "io_step False (s\<lparr>sshauthenticatedwith := m\<rparr>) (t\<lparr>sshauthenticatedwith := m\<rparr>)" for m
        by (elim io_stepE) (auto simp: io_step_def core_def)
      ultimately show ?thesis
        using 1 by (auto simp: setAuthenticatedWithUnlocked_def intro: auth_outcome_login)
    next
      case 2
      have "io_step True (disc_state s) t"
        by (rule io_step_trans [OF io_step_disc [OF io_step_weaken [OF u]] 2(2)])
      then have "io_step True ((disc_state s)\<lparr>handle_outlives := handle_outlives (disc_state s)\<rparr>) t" by simp
      then have "post (force_disconnect E t) (\<lambda>_ t. auth_outcome p s (-1, False) t)"
        using 2(3) by (blast intro: auth_outcome_closed [OF force_disconnect_io])
      with 2(1) show ?thesis by simp
    qed
  qed
  show ?thesis
    unfolding runAuthAttempt_with_def
    using False checkAuthAttemptAccess_post [OF assms(2), of E a p] call
    by (auto elim!: post_mono)
qed

lemma run_attempts_post:
  assumes run: "\<And>a u. a \<in> set plan \<Longrightarrow> io_step False s u \<Longrightarrow> post (run a u) (auth_outcome p u)"
  shows "post (run_attempts run plan s) (auth_outcome p s)"
  using run
proof (induction plan arbitrary: s)
  case Nil
  then show ?case by simp
next
  case (Cons a plan)
  have rest: "post (run_attempts run plan t) (auth_outcome p s)" if "io_step False s t" for t
    using auth_outcome_trans [OF that] Cons.IH [of t] Cons.prems io_step_trans [OF that]
    by (auto intro: post_mono)
  have "post (run a s) (\<lambda>r t. post (case r of (rc, loggedin) \<Rightarrow>
      if rc \<noteq> 0 then Some ((-1, loggedin), t) else if loggedin then Some ((0, True), t)
      else run_attempts run plan t) (auth_outcome p s))"
  proof (rule post_mono [OF Cons.prems])
    fix r t
    assume "auth_outcome p s r t"
    with rest [of t] auth_outcome_result [of p s r t]
    show "post (case r of (rc, loggedin) \<Rightarrow>
      if rc \<noteq> 0 then Some ((-1, loggedin), t) else if loggedin then Some ((0, True), t)
      else run_attempts run plan t) (auth_outcome p s)" by auto
  qed simp_all
  then show ?case by (simp only: run_attempts.simps post_bind split_def fst_conv snd_conv)
qed

text \<open>The provider: what it answers changes nothing of the client.\<close>

lemma require_string_io:
  assumes "require_string E h k s = (r, t)" "xsink s = []"
  shows "r \<noteq> None \<Longrightarrow> t = s" "r = None \<Longrightarrow> io_step True s t \<and> xsink t \<noteq> []"
  using assms by (auto simp: require_string_def ssh2_get_hash_string_def split: if_splits option.splits)

lemma get_hash_string_io:
  assumes "ssh2_get_hash_string E h k s = (r, t)" "xsink s = []"
  shows "if xsink t = [] then t = s else io_step True s t"
  using assms by (auto simp: ssh2_get_hash_string_def split: if_splits option.splits)

definition candidate_outcome :: "('w, 'm) cst \<Rightarrow> int \<times> attempt list \<Rightarrow> ('w, 'm) cst \<Rightarrow> bool" where
  "candidate_outcome s r t \<longleftrightarrow>
     (fst r = 0 \<and> io_step False s t \<and> PROVIDER \<notin> kind ` set (snd r))
     \<or> (fst r = -1 \<and> io_step True s t \<and> xsink t \<noteq> [])"

lemma candidate_outcome_intros:
  "candidate_outcome s (-1, as) (raise True e s)"
  "PROVIDER \<notin> kind ` set as \<Longrightarrow> candidate_outcome s (0, as) s"
  "io_step True s t \<Longrightarrow> xsink t \<noteq> [] \<Longrightarrow> candidate_outcome s (-1, as) t"
  by (auto simp: candidate_outcome_def)

lemma candidate_outcome_trans:
  "io_step False s u \<Longrightarrow> candidate_outcome u r t \<Longrightarrow> candidate_outcome s r t"
  unfolding candidate_outcome_def by (blast intro: io_step_trans io_step_weaken)

lemma add_key_outcome:
  assumes "xsink s = []"
  shows "(case ssh2_get_hash_string E h k s of (pub, u) \<Rightarrow>
     if xsink u \<noteq> [] then ((-1, []), u) else ((0, addMemoryKeyAttemptUnlocked E pub priv), u)) = (r, t) \<Longrightarrow>
     candidate_outcome s r t"
proof -
  obtain pub u where g: "ssh2_get_hash_string E h k s = (pub, u)" by fastforce
  assume "(case ssh2_get_hash_string E h k s of (pub, u) \<Rightarrow>
     if xsink u \<noteq> [] then ((-1, []), u) else ((0, addMemoryKeyAttemptUnlocked E pub priv), u)) = (r, t)"
  with g get_hash_string_io [OF g assms] show ?thesis
    by (auto intro!: candidate_outcome_intros simp: addMemoryKeyAttemptUnlocked_def push_if_def split: if_splits)
qed

lemma resolve_material_outcome:
  assumes "resolve_material E opt material s = (r, t)" and x: "xsink s = []"
  shows "candidate_outcome s r t"
proof -
  obtain k s1 where 1: "require_string E material ''kind'' s = (k, s1)" by fastforce
  obtain q s2 where 2: "require_string E material ''path'' s = (q, s2)" by fastforce
  obtain v s3 where 3: "require_string E material ''private_key_text'' s = (v, s3)" by fastforce
  note io1 = require_string_io [OF 1 x] and io2 = require_string_io [OF 2 x] and io3 = require_string_io [OF 3 x]
  show ?thesis
  proof (cases k)
    case None
    with assms(1) 1 io1 show ?thesis
      by (auto simp: resolve_material_def intro!: candidate_outcome_intros)
  next
    case (Some kd)
    with io1 have s1: "s1 = s" by simp
    have f: "candidate_outcome s (0, [file_attempt q s]) s" for q
      by (rule candidate_outcome_intros) (simp add: file_attempt_def)
    from assms(1) 1 2 3 Some s1 io2 io3 f add_key_outcome [OF x, where E = E and h = material and k = "''public_key_text''"]
    show ?thesis
      by (auto simp: resolve_material_def Let_def intro!: candidate_outcome_intros
          split: if_splits option.splits qvalue.splits)
  qed
qed

lemma resolveProviderCandidate_outcome:
  assumes "resolveProviderCandidateUnlocked E c tmo s = (r, t)" and x: "xsink s = []"
    and cb: "callbacks_neutral E"
  shows "candidate_outcome s r t"
proof (cases "\<exists>h p. c = QHash h \<and> client_identity_provider s = Some p")
  case False
  with assms(1) have "(r, t) = ((-1, []), raise True ''SSH2-CLIENT-IDENTITY-INVALID-RESPONSE'' s)"
    by (auto simp: resolveProviderCandidateUnlocked_def Let_def split: qvalue.splits option.splits)
  then show ?thesis by (auto intro: candidate_outcome_intros)
next
  case True
  then obtain h p where c: "c = QHash h" and p: "client_identity_provider s = Some p" by blast
  obtain k s1 where 1: "require_string E h ''kind'' s = (k, s1)" by fastforce
  obtain q s2 where 2: "require_string E h ''path'' s = (q, s2)" by fastforce
  obtain v s3 where 3: "provider_material E p (makeProviderContext E ''client-identity'' tmo s) h s = (v, s3)"
    by fastforce
  note io1 = require_string_io [OF 1 x] and io2 = require_string_io [OF 2 x]
  have io3: "io_step False s s3" using cb 3 unfolding callbacks_neutral_def by (metis snd_conv)
  have s3: "candidate_outcome s (0, []) s3" "candidate_outcome s (-1, []) (raise True e s3)" for e
    using candidate_outcome_trans [OF io3 candidate_outcome_intros(1)] io3
    by (auto simp: candidate_outcome_def)
  have m: "resolve_material E b mt s3 = (r, t) \<Longrightarrow> candidate_outcome s r t" for b mt
    using candidate_outcome_trans [OF io3 resolve_material_outcome] x io_step_False_xsink [OF io3] by simp
  have f: "candidate_outcome s (0, [file_attempt q s]) s" for q
    by (rule candidate_outcome_intros) (simp add: file_attempt_def)
  have ag: "candidate_outcome s (0, push_if b (Ssh2AuthAttempt AGENT)) s" for b
    by (rule candidate_outcome_intros) (auto simp: push_if_def)
  show ?thesis
  proof (cases k)
    case None
    with assms(1) c p 1 io1 show ?thesis
      by (auto simp: resolveProviderCandidateUnlocked_def intro!: candidate_outcome_intros)
  next
    case (Some kd)
    with io1 have s1: "s1 = s" by simp
    note eq = assms(1) [unfolded resolveProviderCandidateUnlocked_def Let_def c p] 1 [unfolded Some s1]
    show ?thesis
    proof (cases "kd = ''in-memory'' \<or> kd = ''reference''")
      case True
      with eq 3 x have v: "(case v of
            None \<Rightarrow>
              if (if hash_get h ''optional'' = QNothing then False else to_qbool E (hash_get h ''optional''))
              then ((0, []), s3) else ((-1, []), raise True ''SSH2-CLIENT-IDENTITY-PROVIDER-ERROR'' s3)
          | Some (QHash mt) \<Rightarrow> resolve_material E
              (if hash_get h ''optional'' = QNothing then False else to_qbool E (hash_get h ''optional'')) mt s3
          | Some _ \<Rightarrow> ((-1, []), raise True ''SSH2-CLIENT-IDENTITY-INVALID-RESPONSE'' s3)) = (r, t)"
        by (elim disjE) (cases v; simp split: qvalue.splits)+
      then show ?thesis
        using s3 m by (cases v) (auto split: if_splits qvalue.splits)
    next
      case False
      with eq 2 f ag io2 candidate_outcome_intros(1,3) show ?thesis
        by (cases q) (auto split: if_splits)
    qed
  qed
qed

lemma getProviderCandidates_outcome:
  assumes "getProviderCandidatesUnlocked E tmo s = (r, t)" and "xsink s = []"
    and "callbacks_neutral E" and "client_identity_provider s \<noteq> None"
  shows "r \<noteq> None \<Longrightarrow> io_step False s t" "r = None \<Longrightarrow> io_step True s t \<and> xsink t \<noteq> []"
proof -
  from assms(4) obtain p where p: "client_identity_provider s = Some p" by blast
  obtain v u where 1: "provider_candidates E p (makeProviderContext E ''client-identity'' tmo s) s = (v, u)"
    by fastforce
  have io: "io_step False s u" using assms(3) 1 unfolding callbacks_neutral_def by (metis snd_conv)
  have "io_step True s (raise True e u)" for e
    by (rule io_step_trans [OF io_step_weaken [OF io] io_step_raise])
  with io assms(1,2) p 1 show "r \<noteq> None \<Longrightarrow> io_step False s t" "r = None \<Longrightarrow> io_step True s t \<and> xsink t \<noteq> []"
    by (auto simp: getProviderCandidatesUnlocked_def split: option.splits qvalue.splits)
qed

lemma provider_loop_post:
  assumes "xsink s = []" "\<not> agent_live s" "callbacks_neutral E"
  shows "post (provider_loop E tmo i cs s) (auth_outcome True s)"
  using assms(1,2)
proof (induction cs arbitrary: i s)
  case Nil
  then show ?case by simp
next
  case (Cons c cs)
  obtain b s1 where 1: "(if i mod 100 = 0 then qore_check_cancel E s else (False, s)) = (b, s1)" by fastforce
  then have c1: "\<not> b \<Longrightarrow> io_step False s s1" "b \<Longrightarrow> io_step True s s1 \<and> xsink s1 \<noteq> []"
    using check_cancel_io [of E s b s1] by (auto split: if_splits)
  obtain rc plan s2 where 2: "resolveProviderCandidateUnlocked E c tmo s1 = ((rc, plan), s2)"
    by (cases "resolveProviderCandidateUnlocked E c tmo s1") auto
  show ?case
  proof (cases b)
    case True
    with c1(2) have "post (force_disconnect E s1) (\<lambda>_ t. auth_outcome True s (-1, False) t)"
      by (blast intro: auth_outcome_closed [OF force_disconnect_io])
    with 1 True show ?thesis by simp
  next
    case False
    have x1: "xsink s1 = []" using c1(1) [OF False] Cons.prems(1) io_step_False_xsink by fastforce
    note o2 = resolveProviderCandidate_outcome [OF 2 x1 assms(3)]
    show ?thesis
    proof (cases "rc = 0")
      case rc: False
      with o2 c1(1) [OF False] have "auth_outcome True s (-1, False) s2"
        by (auto simp: candidate_outcome_def auth_outcome_def intro: io_step_trans io_step_weaken)
      with 1 2 False rc show ?thesis by simp
    next
      case rc: True
      with o2 have s2: "io_step False s s2" and np: "\<And>a. a \<in> set plan \<Longrightarrow> kind a \<noteq> PROVIDER"
        using io_step_trans [OF c1(1) [OF False]] by (force simp: candidate_outcome_def)+
      have keep: "xsink u = []" "\<not> agent_live u" if "io_step False s u" for u
        using that Cons.prems by (auto elim!: io_stepE)
      have p: "post (run_attempts (runAuthAttempt_with (\<lambda>s. Some ((-1, False), s)) E tmo) plan s2)
          (auth_outcome True s2)"
        using keep [OF io_step_trans [OF s2]] np
        by (intro run_attempts_post runAuthAttempt_post) auto
      have rest: "post (provider_loop E tmo (Suc i) cs t) (auth_outcome True s)" if "io_step False s2 t" for t
        by (rule post_mono [OF Cons.IH [OF keep [OF io_step_trans [OF s2 that]]]])
          (rule auth_outcome_trans [OF io_step_trans [OF s2 that]])
      have "post (run_attempts (runAuthAttempt_with (\<lambda>s. Some ((-1, False), s)) E tmo) plan s2)
        (\<lambda>r t. post (case r of (rc, loggedin) \<Rightarrow>
          if rc \<noteq> 0 then Some ((-1, loggedin), t) else if loggedin then Some ((0, True), t)
          else provider_loop E tmo (Suc i) cs t) (auth_outcome True s))"
      proof (rule post_mono [OF p])
        fix r t
        assume "auth_outcome True s2 r t"
        with rest [of t] auth_outcome_result [of True s2 r t] auth_outcome_trans [OF s2, of True r t]
        show "post (case r of (rc, loggedin) \<Rightarrow>
          if rc \<noteq> 0 then Some ((-1, loggedin), t) else if loggedin then Some ((0, True), t)
          else provider_loop E tmo (Suc i) cs t) (auth_outcome True s)" by auto
      qed
      with 1 2 False rc show ?thesis
        by (simp only: provider_loop.simps post_bind split_def fst_conv snd_conv if_False simp_thms)
    qed
  qed
qed

lemma tryProviderAuth_post:
  assumes "xsink s = []" "\<not> agent_live s" "callbacks_neutral E" "client_identity_provider s \<noteq> None"
  shows "post (tryProviderAuth E tmo s) (auth_outcome True s)"
proof -
  obtain r t where g: "getProviderCandidatesUnlocked E tmo s = (r, t)" by fastforce
  note io = getProviderCandidates_outcome [OF g assms(1,3,4)]
  show ?thesis
  proof (cases r)
    case None
    with g io show ?thesis by (auto simp: tryProviderAuth_def auth_outcome_def)
  next
    case (Some cs)
    with io have s: "io_step False s t" by simp
    then have "xsink t = []" "\<not> agent_live t" using assms(1,2) by (auto elim!: io_stepE)
    from provider_loop_post [OF this assms(3)] have "post (provider_loop E tmo 0 cs t) (auth_outcome True s)"
      by (rule post_mono) (rule auth_outcome_trans [OF s])
    with g Some show ?thesis by (auto simp: tryProviderAuth_def)
  qed
qed

lemma runAuthAttemptUnlocked_post:
  assumes "xsink s = []" "\<not> agent_live s" "callbacks_neutral E"
    and "kind a = PROVIDER \<Longrightarrow> client_identity_provider s \<noteq> None"
  shows "post (runAuthAttemptUnlocked E tmo a s) (auth_outcome (kind a = PROVIDER) s)"
  unfolding runAuthAttemptUnlocked_def
  using assms tryProviderAuth_post [OF assms(1-3)] by (intro runAuthAttempt_post) auto

section \<open>Attempts: properties\<close>

text \<open>
  An authentication attempt leaves the client in one of the states the connection
  code expects: unchanged after a refusal, with the method recorded after a success, or
  disconnected with an exception after a failure of the transport or of the sandbox. Only an
  attempt that consults the identity provider can fail with the session still open.
\<close>

lemma auth_attempt_outcome:
  assumes "runAuthAttemptUnlocked E tmo a s = Some ((rc, loggedin), t)"
    and "conn_inv s" "xsink s = []" "\<not> agent_live s" "callbacks_neutral E"
    and "kind a = PROVIDER \<longrightarrow> client_identity_provider s \<noteq> None"
  shows "(rc = 0 \<and> \<not> loggedin \<and> core t = core s)
     \<or> (rc = 0 \<and> loggedin \<and> (\<exists>m. core t = core (s\<lparr>sshauthenticatedwith := Some m\<rparr>)))
     \<or> (rc = -1 \<and> \<not> loggedin \<and> xsink t \<noteq> [] \<and> is_disconnected t)
     \<or> (kind a = PROVIDER \<and> rc = -1 \<and> \<not> loggedin \<and> xsink t \<noteq> [] \<and> core t = core s)"
proof -
  have o: "auth_outcome (kind a = PROVIDER) s (rc, loggedin) t"
    using post_D [OF runAuthAttemptUnlocked_post assms(1)] assms(3-6) by simp
  have "is_disconnected t" if "io_step True ((disc_state s)\<lparr>handle_outlives := b\<rparr>) t" for b
  proof -
    have "is_disconnected ((disc_state s)\<lparr>handle_outlives := b\<rparr>)"
      using disc_state_disconnected [OF assms(2)] by (simp add: is_disconnected_def)
    then show ?thesis using is_disconnected_io [OF that] by simp
  qed
  with o show ?thesis unfolding auth_outcome_def by (auto dest: io_step_core)
qed

lemma auth_attempt_outcome_example:
  "\<exists>m. core (client_up\<lparr>sshauthenticatedwith := Some ''password'', world := \<lparr>pending = 0, log = [''password'']\<rparr>\<rparr>)
     = core (client_up\<lparr>sshauthenticatedwith := Some m\<rparr>)"
proof -
  let ?t = "client_up\<lparr>sshauthenticatedwith := Some ''password'', world := \<lparr>pending = 0, log = [''password'']\<rparr>\<rparr>"
  have c: "authCallUnlocked tenv (Ssh2AuthAttempt PASSWORD) client_up
      = (Ret 0, client_up\<lparr>world := \<lparr>pending = 0, log = [''password'']\<rparr>\<rparr>)"
    by (simp add: authCallUnlocked_def call_ext_def example_defs)
  have "runAuthAttemptUnlocked tenv 0 (Ssh2AuthAttempt PASSWORD) client_up = Some ((0, True), ?t)"
    by (simp add: runAuthAttemptUnlocked_def runAuthAttempt_with_def checkAuthAttemptAccessUnlocked_def
        retry_loop_done [where call = "authCallUnlocked tenv (Ssh2AuthAttempt PASSWORD)", OF c] setAuthenticatedWithUnlocked_def getAuthenticatedWith_def)
  from auth_attempt_outcome [OF this] show ?thesis by (simp add: conn_inv_def client_up_def client0_def)
qed

text \<open>The wait gives the session up; the release of the handle that follows comes too late.\<close>

lemma agent_released_late:
  assumes "io_step False (s\<lparr>agent_live := True\<rparr>) u" "ssh_session s" "io_step True (disc_state u) v"
    and "force_disconnect E (snd (Ssh2AgentHelper_reset E h v)) = Some (x, t)"
  shows "handle_outlives t"
proof -
  have "handle_outlives (snd (Ssh2AgentHelper_reset E h v))"
    using assms(1-3) by (elim io_stepE) (simp add: disc_state_def Ssh2AgentHelper_reset_def Let_def run_ext_def)
  then show ?thesis
    using post_D [OF force_disconnect_post assms(4)] by (fastforce elim!: io_stepE simp: disc_state_def)
qed

lemma agent_loop_outlives:
  fixes s :: "('a, 'b) cst"
  assumes "ssh_session s" "\<And>u v. qore_check_cancel E u \<noteq> (True, v :: ('a, 'b) cst)"
    and "io_step False (s\<lparr>agent_live := True\<rparr>) s1" "agent_loop E tmo h s1 = Some ((-1, l), t)"
  shows "handle_outlives t"
proof -
  let ?P = "\<lambda>(E' :: ('a, 'b) cenv) (tmo' :: int) (h :: agent_helper) u (y :: (int \<times> bool) \<times> ('a, 'b) client_scheme).
      E' = E \<longrightarrow> io_step False (s\<lparr>agent_live := True\<rparr>) u \<longrightarrow> fst (fst y) = -1 \<longrightarrow> handle_outlives (snd y)"
  have "?P E tmo h s1 ((-1, l), t)"
  proof (rule agent_loop.raw_induct [where P = ?P, OF _ assms(4)], intro impI)
    fix al E' tmo' h u y
    assume IH: "\<And>E' tmo' h u y. al E' tmo' h u = Some y \<Longrightarrow> ?P E' tmo' h u y"
      and eq: "(case Ssh2AgentHelper_nextIdentity E' h u of ((rc, h), s) \<Rightarrow>
        if rc \<noteq> 0 then Some ((0, False), snd (Ssh2AgentHelper_reset E' h s))
        else
          (case qore_check_cancel E' s of (cancelled, s) \<Rightarrow>
             if cancelled then
               do { (_, s) \<leftarrow> force_disconnect E' (snd (Ssh2AgentHelper_reset E' h s));
                    Some ((-1, False), s) }
             else
               do { (r, s) \<leftarrow> retry_loop is_eagain (\<lambda>s. Ssh2AgentHelper_userauth E' h (sshuser s) s)
                       (connect_wait E' tmo') s;
                    case r of
                      None \<Rightarrow>
                        do { (_, s) \<leftarrow> force_disconnect E' (snd (Ssh2AgentHelper_reset E' h s));
                             Some ((-1, False), s) }
                    | Some rc \<Rightarrow>
                        if rc = Ret 0 then
                          Some ((0, True), snd (Ssh2AgentHelper_reset E' h
                            (s\<lparr>sshauthenticatedwith := Some ''agent''\<rparr>)))
                        else al E' tmo' h s })) = Some y"
      and E: "E' = E" and u: "io_step False (s\<lparr>agent_live := True\<rparr>) u" and y: "fst (fst y) = -1"
    obtain rc h1 u1 where n: "Ssh2AgentHelper_nextIdentity E h u = ((rc, h1), u1)"
      by (cases "Ssh2AgentHelper_nextIdentity E h u") auto
    obtain b u2 where c: "qore_check_cancel E u1 = (b, u2)" by fastforce
    have b: "\<not> b" using assms(2) [of u1 u2] c by auto
    have u2: "io_step False (s\<lparr>agent_live := True\<rparr>) u2"
      using u nextIdentity_io [OF n] check_cancel_io(1) [OF c b] by (blast intro: io_step_trans)
    from eq n c b E y obtain v u3 where
      l: "retry_loop is_eagain (\<lambda>s. Ssh2AgentHelper_userauth E h1 (sshuser s) s) (connect_wait E tmo') u2 = Some (v, u3)"
      and k: "(case v of None \<Rightarrow>
                    do { (_, s) \<leftarrow> force_disconnect E (snd (Ssh2AgentHelper_reset E h1 u3)); Some ((-1, False), s) }
                | Some rc \<Rightarrow>
                    if rc = Ret 0 then
                      Some ((0, True), snd (Ssh2AgentHelper_reset E h1 (u3\<lparr>sshauthenticatedwith := Some ''agent''\<rparr>)))
                    else al E tmo' h1 u3) = Some y"
      by (auto simp: Option.bind_eq_Some_conv split: if_splits)
    have "(\<exists>w. v = Some w \<and> \<not> is_eagain w \<and> io_step False u2 u3) \<or>
        (v = None \<and> io_step True (disc_state u2) u3 \<and> length (xsink u2) < length (xsink u3))"
      using post_D [OF retry_wait_post_gen [where call = "\<lambda>s. Ssh2AgentHelper_userauth E h1 (sshuser s) s",
            OF userauth_io] l [unfolded connect_wait_def]] by simp
    then have p: "(\<exists>w. v = Some w \<and> io_step False u2 u3) \<or> v = None \<and> io_step True (disc_state u2) u3" by blast
    show "handle_outlives (snd y)"
    proof (cases v)
      case None
      with k obtain x where "force_disconnect E (snd (Ssh2AgentHelper_reset E h1 u3)) = Some (x, snd y)"
        by (auto simp: Option.bind_eq_Some_conv)
      with None p u2 assms(1) show ?thesis by (auto intro: agent_released_late)
    next
      case (Some w)
      with k p IH [of E tmo' h1 u3 y] io_step_trans [OF u2] y show ?thesis by (auto split: if_splits)
    qed
  qed
  with assms(3) show ?thesis by simp
qed

text \<open>
  C28 (safety). The SSH agent handle outlives its session whenever the wait for the server fails
  during agent authentication, whichever identity is being tried: the wait closes the
  connection, and the client gives the session up (frees it, or leaks it when freeing it would
  block) before the handle that was created from it is released. Without a cancellation, which
  releases the handle first, this is the only way in which agent authentication fails.
\<close>

theorem agent_handle_outlives_session:
  assumes "ssh_session s" "\<not> agent_live s" "\<forall>w. \<not> fst (check_cancel E w)"
    and "tryAgentAuth E tmo s = Some ((-1, l), t)"
  shows "handle_outlives t"
proof -
  obtain rc h s1 where i: "Ssh2AgentHelper_init E Ssh2AgentHelper_new s = ((rc, h), s1)"
    by (cases "Ssh2AgentHelper_init E Ssh2AgentHelper_new s") auto
  from assms(4) i have rc: "rc = 0" and loop: "agent_loop E tmo h s1 = Some ((-1, l), t)"
    by (auto simp: tryAgentAuth_def split: if_splits)
  show ?thesis
  proof (rule agent_loop_outlives [OF assms(1) _ agent_init_io(1) [OF i assms(2) rc] loop])
    show "qore_check_cancel E u \<noteq> (True, v)" for u v
      using spec [OF assms(3), of "world u"] by (auto simp: qore_check_cancel_def call_ext_def split: prod.splits)
  qed
qed

text \<open>An agent whose answer never comes, and a server that does not become ready in time.\<close>

definition stuck_agent_env :: "(tworld, tworld client) env" where
  "stuck_agent_env = tenv\<lparr>agent_userauth := \<lambda>_ _ w. (Eagain, w), async_io_wait := \<lambda>_ _ _ w. (0, w)\<rparr>"

theorem agent_handle_outlives_session_witness:
  "\<exists>res t. tryAgentAuth stuck_agent_env 100 client_up = Some (res, t) \<and> res = (-1, False) \<and> handle_outlives t"
proof -
  let ?h = "Ssh2AgentHelper_new\<lparr>ah_connected := True\<rparr>" and ?s = "client_up\<lparr>agent_live := True\<rparr>"
  let ?h1 = "?h\<lparr>ah_identity := Some 0\<rparr>"
  let ?call = "\<lambda>s. Ssh2AgentHelper_userauth stuck_agent_env ?h1 (sshuser s) s"
  have live: "settling pending stuck_agent_env"
    by (simp add: settling_def quiet_def stuck_agent_env_def example_defs)
  have api: "have_agent_api stuck_agent_env" by (simp add: stuck_agent_env_def env0_def)
  have i: "Ssh2AgentHelper_init stuck_agent_env Ssh2AgentHelper_new client_up = ((0, ?h), ?s)"
    by (simp add: Ssh2AgentHelper_init_def Let_def call_ext_def ssh2_fs_access_allowed_quiet_def
        ssh2_check_fs_access_def ssh2_check_unix_socket_access_def stuck_agent_env_def example_defs)
  have n: "Ssh2AgentHelper_nextIdentity stuck_agent_env ?h ?s = ((0, ?h1), ?s)"
    by (simp add: Ssh2AgentHelper_nextIdentity_def Let_def call_ext_def Ssh2AgentHelper_new_def
        stuck_agent_env_def example_defs)
  have c: "qore_check_cancel stuck_agent_env ?s = (False, ?s)"
    by (simp add: qore_check_cancel_def call_ext_def stuck_agent_env_def example_defs)
  have u: "?call ?s = (Eagain, ?s)"
    by (simp add: Ssh2AgentHelper_userauth_def call_ext_def stuck_agent_env_def example_defs)
  from waitSocketUnlocked_returns [OF live, of "''SSH2CLIENT-TIMEOUT''" "''SSH2-ERROR''" 100 True ?s]
  obtain wr s4 where w: "connect_wait stuck_agent_env 100 ?s = Some (wr, s4)" "wr \<noteq> 0"
    by (auto simp: returns_def post_def connect_wait_def client_up_def client0_def)
  then have l: "retry_loop is_eagain ?call (connect_wait stuck_agent_env 100) ?s = Some (None, s4)"
    using retry_loop_again [where call = ?call, OF u] by simp
  obtain v t where f: "force_disconnect stuck_agent_env (snd (Ssh2AgentHelper_reset stuck_agent_env ?h1 s4)) = Some (v, t)"
    using disconnectUnlocked_returns [OF live] by (fastforce simp: force_disconnect_def returns_def)
  have "agent_loop stuck_agent_env 100 ?h ?s = Some ((-1, False), t)"
    by (subst agent_loop.simps) (simp add: n c l f)
  then have r: "tryAgentAuth stuck_agent_env 100 client_up = Some ((-1, False), t)"
    by (simp add: tryAgentAuth_def api i)
  show ?thesis
    using agent_handle_outlives_session [OF _ _ _ r] r
    by (simp add: client_up_def client0_def stuck_agent_env_def env0_def)
qed

end
