(* ===== verification/Ssh2_Connect.thy ===== *)
theory Ssh2_Connect
  imports Ssh2_Auth
begin

text \<open>
  Establishing a connection (\<open>src/src/SSH2Client.cpp\<close>): the stages shared with the poll
  operation, and the blocking \<open>sshConnectUnlocked()\<close> with its public wrapper. The properties
  say what success guarantees, in which states a failed connection leaves the client, and
  that a connection attempt ends.
\<close>

section \<open>Stages\<close>

definition checkConnectPreconditionsUnlocked ::
  "('w, 'm) cenv \<Rightarrow> ('w, 'm) cst \<Rightarrow> (int \<times> ('w, 'm) cst) option" where
  "checkConnectPreconditionsUnlocked E s =
     (case qore_check_cancel E s of (cancelled, s) \<Rightarrow>
        if cancelled then Some (-1, s)
        else if sshuser s = [] then Some (-1, raise True ''SSH2CLIENT-CONNECT-ERROR'' s)
        else if ssh_session s then do { (_, s) \<leftarrow> force_disconnect E s; Some (0, s) }
        else Some (0, s))"

definition holdSessionDescriptorUnlocked :: "('w, 'm) cenv \<Rightarrow> ('w, 'm) cst \<Rightarrow> int \<times> ('w, 'm) cst" where
  "holdSessionDescriptorUnlocked E s =
     (case sock s of
        None \<Rightarrow> (-1, raise True ''SSH2CLIENT-CONNECT-ERROR'' s)
      | Some fd \<Rightarrow>
          (case call_ext (hold_descriptor E fd) s of (failed, s) \<Rightarrow>
             if failed then (-1, raise True ''SSH2CLIENT-CONNECT-ERROR'' s)
             else (0, s\<lparr>session_fd_hold := True\<rparr>)))"

text \<open>A new libssh2 session is in blocking mode.\<close>

definition prepareSessionUnlocked ::
  "('w, 'm) cenv \<Rightarrow> ('w, 'm) cst \<Rightarrow> (int \<times> ('w, 'm) cst) option" where
  "prepareSessionUnlocked E s =
     (case call_ext (session_init E) s of (ok, s) \<Rightarrow>
        if \<not> ok then disconnect_raise E (Some ''SSH2-ERROR'') s
        else
          (let s = s\<lparr>ssh_session := True, session_blocking := True\<rparr>;
               s = fold (\<lambda>(k, v). run_ext (session_method_pref E k v)) (method_prefs s) s;
               s = (if ssh_banner s \<noteq> [] then run_ext (session_banner_set E (ssh_banner s)) s else s)
           in Some (0, setBlockingUnlocked False s)))"

definition startupUnlocked :: "('w, 'm) cenv \<Rightarrow> ('w, 'm) cst \<Rightarrow> lrc \<times> ('w, 'm) cst" where
  "startupUnlocked E s = call_ext (session_handshake E (sock s)) s"

definition finishConnectUnlocked :: "('w, 'm) cenv \<Rightarrow> ('w, 'm) cst \<Rightarrow> ('w, 'm) cst" where
  "finishConnectUnlocked E s =
     (if have_keepalive E \<and> keepalive_interval s > 0
      then run_ext (keepalive_config E (keepalive_interval s)) s else s)"

section \<open>The blocking connection\<close>

definition socket_connectINET :: "('w, 'm) cenv \<Rightarrow> int \<Rightarrow> ('w, 'm) cst \<Rightarrow> int \<times> ('w, 'm) cst" where
  "socket_connectINET E tmo s =
     (case call_ext (connectINET E (sshhost s) (sshport s) tmo) s of
        (None, s) \<Rightarrow> (-1, raise True (connect_exn E) s)
      | (Some fd, s) \<Rightarrow> (0, s\<lparr>sock := Some fd\<rparr>))"

definition list_authentication ::
  "('w, 'm) cenv \<Rightarrow> int \<Rightarrow> ('w, 'm) cst \<Rightarrow> (string lptr option \<times> ('w, 'm) cst) option" where
  "list_authentication E tmo s =
     retry_loop is_null_eagain (\<lambda>s. call_ext (userauth_list E (sshuser s)) s) (connect_wait E tmo) s"

fun lptr_opt :: "'h lptr \<Rightarrow> 'h option" where
  "lptr_opt (Got h) = Some h"
| "lptr_opt _ = None"

definition authenticate ::
  "('w, 'm) cenv \<Rightarrow> int \<Rightarrow> ('w, 'm) cst \<Rightarrow> (int \<times> ('w, 'm) cst) option" where
  "authenticate E tmo s =
     do { (l, s) \<leftarrow> list_authentication E tmo s;
          case l of
            None \<Rightarrow> disconnect_raise E None s
          | Some userauthlist \<Rightarrow>
              (case buildAuthPlanUnlocked E (lptr_opt userauthlist) s of (plan, s) \<Rightarrow>
                 do { ((rc, loggedin), s) \<leftarrow> run_attempts (runAuthAttemptUnlocked E tmo) plan s;
                      if rc \<noteq> 0 then Some (-1, s)
                      else if \<not> loggedin then disconnect_raise E (Some ''SSH2CLIENT-AUTH-ERROR'') s
                      else Some (0, finishConnectUnlocked E (setBlockingUnlocked True s)) }) }"

definition handshake_and_login ::
  "('w, 'm) cenv \<Rightarrow> int \<Rightarrow> ('w, 'm) cst \<Rightarrow> (int \<times> ('w, 'm) cst) option" where
  "handshake_and_login E tmo s =
     do { (r, s) \<leftarrow> retry_loop is_eagain (startupUnlocked E) (connect_wait E tmo) s;
          case r of
            None \<Rightarrow> disconnect_raise E None s
          | Some rc \<Rightarrow>
              if rc \<noteq> Ret 0 then disconnect_raise E (Some ''SSH2-ERROR'') s
              else
                do { (rc, s) \<leftarrow> verifyHostKeyUnlocked E tmo s;
                     if rc \<noteq> 0 then Some (-1, s) else authenticate E tmo s } }"

definition open_session ::
  "('w, 'm) cenv \<Rightarrow> int \<Rightarrow> ('w, 'm) cst \<Rightarrow> (int \<times> ('w, 'm) cst) option" where
  "open_session E tmo s =
     (case socket_connectINET E tmo s of (rc, s) \<Rightarrow>
        if rc \<noteq> 0 then Some (-1, s)
        else case holdSessionDescriptorUnlocked E s of (rc, s) \<Rightarrow>
          if rc \<noteq> 0 then disconnect_raise E None s
          else
            do { (rc, s) \<leftarrow> prepareSessionUnlocked E s;
                 if rc \<noteq> 0 then Some (-1, s) else handshake_and_login E tmo s })"

definition sshConnectUnlocked ::
  "('w, 'm) cenv \<Rightarrow> int \<Rightarrow> ('w, 'm) cst \<Rightarrow> (int \<times> ('w, 'm) cst) option" where
  "sshConnectUnlocked E tmo s =
     (case checkPollOpUnlocked True s of (rc, s) \<Rightarrow>
        if rc \<noteq> 0 then Some (-1, s)
        else
          do { (rc, s) \<leftarrow> checkConnectPreconditionsUnlocked E s;
               if rc \<noteq> 0 then Some (-1, s) else open_session E tmo s })"

text \<open>\<open>sshConnect()\<close>: the flag is set by \<open>ConnectInProgressHelper\<close> for the whole attempt.\<close>

definition sshConnect :: "('w, 'm) cenv \<Rightarrow> int \<Rightarrow> ('w, 'm) cst \<Rightarrow> (int \<times> ('w, 'm) cst) option" where
  "sshConnect E tmo s =
     (if connect_in_progress s then Some (-1, raise True ''SSH2-CONNECT-IN-PROGRESS'' s)
      else
        do { (rc, s) \<leftarrow> sshConnectUnlocked E tmo (s\<lparr>connect_in_progress := True\<rparr>);
             Some (rc, s\<lparr>connect_in_progress := False\<rparr>) })"

section \<open>Outcomes\<close>

text \<open>
  The outcome of the login on an established session \<open>s\<close>: success with the method recorded and
  the session back in blocking mode, or failure with an exception. A failed login has
  disconnected the client, or, with a client identity provider, left the session open.
\<close>

definition login_outcome :: "('w, 'm) cst \<Rightarrow> int \<Rightarrow> ('w, 'm) cst \<Rightarrow> bool" where
  "login_outcome s rc t \<longleftrightarrow>
     (rc = 0 \<and> xsink t = [] \<and> (\<exists>m am. core t = core (s\<lparr>sshauthenticatedwith := Some m,
         session_blocking := True, auth_methods := am\<rparr>)))
     \<or> (rc = -1 \<and> xsink t \<noteq> [] \<and> (\<exists>b am. core t = core ((disc_state s)\<lparr>handle_outlives := b, auth_methods := am\<rparr>)))
     \<or> (rc = -1 \<and> xsink t \<noteq> [] \<and> client_identity_provider s \<noteq> None \<and> (\<exists>am. core t = core (s\<lparr>auth_methods := am\<rparr>)))"

lemma login_outcome_disc:
  assumes "xsink t \<noteq> []" "core t = core (disc_state s)"
  shows "login_outcome s (-1) t"
proof -
  have "core t = core ((disc_state s)\<lparr>handle_outlives := handle_outlives (disc_state s),
      auth_methods := auth_methods (disc_state s)\<rparr>)" using assms(2) by simp
  with assms(1) show ?thesis unfolding login_outcome_def by blast
qed

lemma login_outcome_closed:
  assumes "(\<exists>am. core u = core (s\<lparr>auth_methods := am\<rparr>)) \<or> core u = core s \<or> core u = core (disc_state s)"
    and "xsink u \<noteq> [] \<or> c \<noteq> None"
  shows "post (disconnect_raise E c u) (login_outcome s)"
proof (rule post_mono [OF disconnect_raise_post])
  fix r :: int and t
  assume t: "r = -1 \<and> io_step True (disc_state u) t \<and> xsink t = xsink u @ (case c of None \<Rightarrow> [] | Some e \<Rightarrow> [e])"
  have "disc_state (s\<lparr>auth_methods := am\<rparr>) = (disc_state s)\<lparr>handle_outlives := handle_outlives (disc_state s),
      auth_methods := am\<rparr>" for am by (simp add: disc_state_def)
  moreover have "disc_state s = (disc_state s)\<lparr>handle_outlives := handle_outlives (disc_state s),
      auth_methods := auth_methods (disc_state s)\<rparr>" by simp
  ultimately have "\<exists>b am. core (disc_state u) = core ((disc_state s)\<lparr>handle_outlives := b, auth_methods := am\<rparr>)"
    using assms(1) core_disc [of u] disc_state_idem [of s] by metis
  then show "login_outcome s r t"
    using t assms(2) io_step_core [of True "disc_state u" t] by (auto simp: login_outcome_def split: option.splits)
qed

lemma startup_io: "startupUnlocked E s = (r, t) \<Longrightarrow> io_step False s t"
  by (auto simp: startupUnlocked_def intro: io_step_call)

lemma plan_provider:
  "a \<in> set (fst (buildAuthPlanUnlocked E l s)) \<Longrightarrow> kind a = PROVIDER \<Longrightarrow> client_identity_provider s \<noteq> None"
  by (auto simp: plan_defs split: if_splits)

lemma run_plan_post:
  assumes "xsink s = []" "\<not> agent_live s" "callbacks_neutral E"
    and "fst (buildAuthPlanUnlocked E l s0) = plan" "client_identity_provider s = client_identity_provider s0"
  shows "post (run_attempts (runAuthAttemptUnlocked E tmo) plan s)
    (auth_outcome (client_identity_provider s \<noteq> None) s)"
proof (rule run_attempts_post)
  fix a u
  assume a: "a \<in> set plan" and u: "io_step False s u"
  have k: "xsink u = []" "\<not> agent_live u" "client_identity_provider u = client_identity_provider s0"
    using u assms by (auto elim!: io_stepE)
  have p: "kind a = PROVIDER \<Longrightarrow> client_identity_provider u \<noteq> None"
    using plan_provider [of a E l s0] a assms(4) k(3) by simp
  show "post (runAuthAttemptUnlocked E tmo a u) (auth_outcome (client_identity_provider s \<noteq> None) u)"
  proof (rule post_mono [OF runAuthAttemptUnlocked_post [OF k(1,2) assms(3)]])
    fix r t
    assume "auth_outcome (kind a = PROVIDER) u r t"
    then show "auth_outcome (client_identity_provider s \<noteq> None) u r t"
      by (rule auth_outcome_mono) (use p k(3) assms(5) in simp)
  qed (rule p)
qed

lemma authenticate_post:
  assumes "xsink s = []" "\<not> agent_live s" "callbacks_neutral E" "ssh_session s"
  shows "post (authenticate E tmo s) (login_outcome s)"
proof -
  have lst: "post (list_authentication E tmo s) (\<lambda>r t. (\<exists>v. r = Some v \<and> io_step False s t) \<or>
      (r = None \<and> core t = core (disc_state s) \<and> xsink t \<noteq> []))"
    unfolding list_authentication_def connect_wait_def
    by (rule post_mono [OF retry_wait_post_gen]) (auto dest: io_step_core intro: io_step_call)
  have fin: "post (disconnect_raise E None t) (login_outcome s)"
    if "core t = core (disc_state s)" "xsink t \<noteq> []" for t
    using login_outcome_closed that by blast
  have run: "post (case buildAuthPlanUnlocked E (lptr_opt v) t of (plan, s) \<Rightarrow>
       do { ((rc, loggedin), s) \<leftarrow> run_attempts (runAuthAttemptUnlocked E tmo) plan s;
            if rc \<noteq> 0 then Some (-1, s)
            else if \<not> loggedin then disconnect_raise E (Some ''SSH2CLIENT-AUTH-ERROR'') s
            else Some (0, finishConnectUnlocked E (setBlockingUnlocked True s)) }) (login_outcome s)"
    if t: "io_step False s t" for v t
  proof -
    obtain plan u where b: "buildAuthPlanUnlocked E (lptr_opt v) t = (plan, u)" by fastforce
    define am where "am = (case lptr_opt v of Some l \<Rightarrow> l | None \<Rightarrow> [])"
    have u: "u = t\<lparr>auth_methods := am\<rparr>"
      using buildAuthPlan_state [of E "lptr_opt v" t] b by (simp add: am_def)
    have cu: "core u = core (s\<lparr>auth_methods := am\<rparr>)"
      using t unfolding u by (elim io_stepE) (simp add: core_def)
    have k: "xsink u = []" "\<not> agent_live u" "client_identity_provider u = client_identity_provider s" "ssh_session u"
      using t assms unfolding u by (auto elim!: io_stepE)
    have "post (run_attempts (runAuthAttemptUnlocked E tmo) plan u) (auth_outcome (client_identity_provider u \<noteq> None) u)"
      by (rule run_plan_post [OF k(1,2) assms(3), of "lptr_opt v" t]) (simp_all add: b, simp add: u)
    then have "post (run_attempts (runAuthAttemptUnlocked E tmo) plan u) (\<lambda>r w. post (case r of (rc, loggedin) \<Rightarrow>
            if rc \<noteq> 0 then Some (-1, w)
            else if \<not> loggedin then disconnect_raise E (Some ''SSH2CLIENT-AUTH-ERROR'') w
            else Some (0, finishConnectUnlocked E (setBlockingUnlocked True w))) (login_outcome s))"
    proof (rule post_mono)
      fix r w
      assume "auth_outcome (client_identity_provider u \<noteq> None) u r w"
      then consider
          "r = (0, False)" "io_step False u w"
        | m where "r = (0, True)" "io_step False (u\<lparr>sshauthenticatedwith := Some m\<rparr>) w"
        | b where "r = (-1, False)" "xsink w \<noteq> []" "io_step True ((disc_state u)\<lparr>handle_outlives := b\<rparr>) w"
        | "r = (-1, False)" "xsink w \<noteq> []" "client_identity_provider s \<noteq> None" "io_step True u w"
        unfolding auth_outcome_def k(3) by blast
      then show "post (case r of (rc, loggedin) \<Rightarrow>
            if rc \<noteq> 0 then Some (-1, w)
            else if \<not> loggedin then disconnect_raise E (Some ''SSH2CLIENT-AUTH-ERROR'') w
            else Some (0, finishConnectUnlocked E (setBlockingUnlocked True w))) (login_outcome s)"
      proof cases
        case 1
        then have "core w = core (s\<lparr>auth_methods := am\<rparr>)" using cu io_step_core by metis
        with 1 show ?thesis using login_outcome_closed [of w s "Some _" E] by auto
      next
        case (2 m)
        have "core (finishConnectUnlocked E (setBlockingUnlocked True w)) =
            core (s\<lparr>sshauthenticatedwith := Some m, session_blocking := True, auth_methods := am\<rparr>)"
          using 2(2) t assms(4) unfolding u
          by (elim io_stepE) (simp add: finishConnectUnlocked_def setBlockingUnlocked_def run_ext_def core_def)
        moreover have "xsink (finishConnectUnlocked E (setBlockingUnlocked True w)) = []"
          using io_step_False_xsink [OF 2(2)] k(1)
          by (simp add: finishConnectUnlocked_def setBlockingUnlocked_def run_ext_def)
        ultimately show ?thesis using 2(1) by (auto simp: login_outcome_def)
      next
        case (3 b)
        have "core w = core ((disc_state s)\<lparr>handle_outlives := b, auth_methods := am\<rparr>)"
          using 3(3) t unfolding u by (elim io_stepE) (simp add: disc_state_def core_def)
        with 3 show ?thesis by (auto simp: login_outcome_def)
      next
        case 4
        then have "core w = core (s\<lparr>auth_methods := am\<rparr>)" using cu io_step_core by metis
        with 4 show ?thesis by (auto simp: login_outcome_def)
      qed
    qed
    then show ?thesis by (simp only: b split_def post_bind fst_conv snd_conv)
  qed
  show ?thesis
    unfolding authenticate_def
    using lst run fin by (auto elim!: post_mono split: option.splits)
qed

lemma handshake_wait_post:
  "post (retry_loop is_eagain (startupUnlocked E) (connect_wait E tmo) s)
     (\<lambda>r t. (\<exists>v. r = Some v \<and> io_step False s t) \<or> (r = None \<and> core t = core (disc_state s) \<and> xsink t \<noteq> []))"
  unfolding connect_wait_def
  by (rule post_mono [OF retry_wait_post_gen]) (auto dest: io_step_core startup_io)

lemma login_outcome_core:
  assumes "core u = core s"
  shows "login_outcome u rc t = login_outcome s rc t"
  using assms by (elim coreE) (simp add: login_outcome_def disc_state_def core_def)

lemma handshake_and_login_post:
  assumes "xsink s = []" "\<not> agent_live s" "\<not> nh_live s" "callbacks_neutral E" "ssh_session s"
  shows "post (handshake_and_login E tmo s) (login_outcome s)"
proof -
  have ver: "post (verifyHostKeyUnlocked E tmo u) (\<lambda>rc t. post (if rc \<noteq> 0 then Some (-1, t) else authenticate E tmo t)
      (login_outcome s))" if u: "io_step False s u" for u
  proof -
    have k: "xsink u = []" "\<not> nh_live u" "core u = core s" using u assms by (auto elim!: io_stepE)
    show ?thesis
    proof (rule post_mono [OF verifyHostKey_post [OF k(2) assms(4) k(1)]])
      fix rc :: int and t
      assume "verify_outcome u rc t"
      then consider "rc = 0" "core t = core s" "xsink t = []" | "rc = -1" "core t = core (disc_state s)" "xsink t \<noteq> []"
        unfolding verify_outcome_def k(3) core_disc [OF k(3)] by blast
      then show "post (if rc \<noteq> 0 then Some (-1, t) else authenticate E tmo t) (login_outcome s)"
      proof cases
        case 1
        then have "\<not> agent_live t" "ssh_session t" using assms(2,5) core_eq_sel [OF 1(2)] by simp_all
        from authenticate_post [OF 1(3) this(1) assms(4) this(2), of tmo] 1 show ?thesis
          by (simp add: post_def login_outcome_core [OF 1(2)])
      next
        case 2
        then show ?thesis by (simp add: login_outcome_disc)
      qed
    qed
  qed
  have step: "post (case r of
            None \<Rightarrow> disconnect_raise E None t
          | Some rc \<Rightarrow>
              if rc \<noteq> Ret 0 then disconnect_raise E (Some ''SSH2-ERROR'') t
              else
                do { (rc, s) \<leftarrow> verifyHostKeyUnlocked E tmo t;
                     if rc \<noteq> 0 then Some (-1, s) else authenticate E tmo s }) (login_outcome s)"
    if "(\<exists>v. r = Some v \<and> io_step False s t) \<or> (r = None \<and> core t = core (disc_state s) \<and> xsink t \<noteq> [])" for r t
    using that ver [of t] login_outcome_closed [of t s] io_step_core [of False s t]
    by (auto simp: post_if split: option.splits)
  show ?thesis
    unfolding handshake_and_login_def post_bind
    using step by (auto intro!: post_mono [OF handshake_wait_post])
qed

lemma login_verified:
  assumes "handshake_and_login E tmo s = Some (0, t)"
  shows "\<exists>u v. io_step False s u \<and> verifyHostKeyUnlocked E tmo u = Some (0, v) \<and> authenticate E tmo v = Some (0, t)"
proof -
  have no: "disconnect_raise E c u \<noteq> Some (0, t)" for c u
    using post_D [OF disconnect_raise_post, of E c u 0 t] by auto
  from assms no obtain u v where
    "retry_loop is_eagain (startupUnlocked E) (connect_wait E tmo) s = Some (Some (Ret 0), u)"
    "verifyHostKeyUnlocked E tmo u = Some (0, v)" "authenticate E tmo v = Some (0, t)"
    unfolding handshake_and_login_def
    by (auto simp: Option.bind_eq_Some_conv split: option.splits if_splits)
  with post_D [OF handshake_wait_post] show ?thesis by blast
qed

text \<open>
  The outcome of a connection attempt in a state \<open>s\<close>.
\<close>

definition connect_outcome :: "('w, 'm) cst \<Rightarrow> int \<Rightarrow> ('w, 'm) cst \<Rightarrow> bool" where
  "connect_outcome s rc t \<longleftrightarrow>
     conn_inv t \<and> settings t = settings s \<and> policies t = policies s \<and> \<not> agent_live t
     \<and> connect_in_progress t = connect_in_progress s \<and>
     (rc = 0 \<and> xsink t = [] \<and> ssh_session t \<and> sock t \<noteq> None \<and> session_blocking t \<and> sshauthenticatedwith t \<noteq> None
      \<or> rc = -1 \<and> xsink t \<noteq> [] \<and>
        (core t = core s \<or> is_disconnected t
         \<or> client_identity_provider s \<noteq> None \<and> ssh_session t \<and> sock t \<noteq> None \<and> \<not> session_blocking t
           \<and> sshauthenticatedwith t = None))"

lemma disc_state_id: "conn_inv s \<Longrightarrow> \<not> ssh_session s \<Longrightarrow> disc_state s = s"
  by (cases s rule: client.cases_scheme) (auto simp: conn_inv_def disc_state_def fun_eq_iff)

lemma settings_core: "core t = core s \<Longrightarrow> settings t = settings s \<and> policies t = policies s"
  by (elim coreE) (simp add: settings_def policies_def)

lemma settings_disc [simp]: "settings (disc_state s) = settings s" "policies (disc_state s) = policies s"
  by (simp_all add: settings_def policies_def disc_state_def)

text \<open>The state of a client with a fresh session on a connected socket.\<close>

definition up_state :: "int \<Rightarrow> ('w, 'm) cst \<Rightarrow> ('w, 'm) cst" where
  "up_state fd s = s\<lparr>sock := Some fd, session_fd_hold := True, ssh_session := True, session_blocking := False\<rparr>"

lemma prepareSession_post:
  "post (prepareSessionUnlocked E s) (\<lambda>rc t.
     (rc = 0 \<and> xsink t = xsink s \<and> core t = core (s\<lparr>ssh_session := True, session_blocking := False\<rparr>))
     \<or> (rc = -1 \<and> xsink t \<noteq> [] \<and> core t = core (disc_state s)))"
proof -
  obtain ok w where i: "session_init E (world s) = (ok, w)" by fastforce
  have prefs: "core (fold (\<lambda>(k, v). run_ext (session_method_pref E k v)) ps u) = core u
      \<and> xsink (fold (\<lambda>(k, v). run_ext (session_method_pref E k v)) ps u) = xsink u" for ps and u :: "('a, 'b) client_scheme"
    by (induction ps arbitrary: u) (auto simp: run_ext_def)
  have "core (setBlockingUnlocked False (if b then run_ext f u else u)) = core (s\<lparr>ssh_session := True, session_blocking := False\<rparr>)
      \<and> xsink (setBlockingUnlocked False (if b then run_ext f u else u)) = xsink u"
    if "core u = core (s\<lparr>world := w, ssh_session := True, session_blocking := True\<rparr>)" for b f u
    using that by (elim coreE) (simp add: setBlockingUnlocked_def run_ext_def core_def)
  with prefs [of "method_prefs s" "s\<lparr>world := w, ssh_session := True, session_blocking := True\<rparr>"]
  have ok: "ok \<Longrightarrow> ?thesis"
    by (simp add: prepareSessionUnlocked_def call_ext_def i Let_def)
  have "core (disc_state (s\<lparr>world := w\<rparr>)) = core (disc_state s)" by (rule core_disc) simp
  then have "\<not> ok \<Longrightarrow> ?thesis"
    unfolding prepareSessionUnlocked_def call_ext_def i
    by (auto intro!: post_mono [OF disconnect_raise_post] dest!: io_step_core)
  with ok show ?thesis by blast
qed

lemma login_connects:
  assumes "is_disconnected s" "conn_inv s" "\<not> agent_live s" and "login_outcome (up_state fd s) rc t"
  shows "connect_outcome s rc t"
proof -
  have b: "conn_inv (up_state fd s)" "settings (up_state fd s) = settings s" "policies (up_state fd s) = policies s"
    using assms(1,2) by (auto simp: up_state_def conn_inv_def is_disconnected_def settings_def policies_def)
  have upd: "conn_inv (u\<lparr>auth_methods := am\<rparr>) = conn_inv u" "is_disconnected (u\<lparr>auth_methods := am\<rparr>) = is_disconnected u"
    "conn_inv (u\<lparr>handle_outlives := h\<rparr>) = conn_inv u" "is_disconnected (u\<lparr>handle_outlives := h\<rparr>) = is_disconnected u"
    "settings (u\<lparr>auth_methods := am\<rparr>) = settings u" "policies (u\<lparr>auth_methods := am\<rparr>) = policies u"
    "settings (u\<lparr>handle_outlives := h\<rparr>) = settings u" "policies (u\<lparr>handle_outlives := h\<rparr>) = policies u"
    for am h and u :: "('a, 'b) client_scheme"
    by (simp_all add: conn_inv_def is_disconnected_def settings_def policies_def)
  have d: "is_disconnected (disc_state (up_state fd s))" "conn_inv (disc_state (up_state fd s))"
    using b(1) disc_state_disconnected by simp_all
  from assms(4) consider
      (ok) m am where "rc = 0" "xsink t = []" "core t = core ((up_state fd s)\<lparr>sshauthenticatedwith := Some m,
         session_blocking := True, auth_methods := am\<rparr>)"
    | (closed) h am where "rc = -1" "xsink t \<noteq> []"
        "core t = core ((disc_state (up_state fd s))\<lparr>handle_outlives := h, auth_methods := am\<rparr>)"
    | (left) am where "rc = -1" "xsink t \<noteq> []" "client_identity_provider (up_state fd s) \<noteq> None"
        "core t = core ((up_state fd s)\<lparr>auth_methods := am\<rparr>)"
    unfolding login_outcome_def by blast
  then show ?thesis
  proof cases
    case ok
    have "conn_inv ((up_state fd s)\<lparr>sshauthenticatedwith := Some m, session_blocking := True, auth_methods := am\<rparr>)"
      using b(1) by (simp add: conn_inv_def up_state_def)
    with ok b conn_inv_core [OF ok(3)] settings_core [OF ok(3)] core_eq_sel [OF ok(3)] assms(3)
    show ?thesis by (simp add: connect_outcome_def up_state_def settings_def policies_def)
  next
    case closed
    have "is_disconnected t"
      using d upd closed(3) by (simp add: is_disconnected_def core_eq_sel [OF closed(3)])
    with closed d upd b conn_inv_core [OF closed(3)] settings_core [OF closed(3)] core_eq_sel [OF closed(3)] assms(3)
    show ?thesis by (simp add: connect_outcome_def up_state_def)
  next
    case left
    with upd b conn_inv_core [OF left(4)] settings_core [OF left(4)] core_eq_sel [OF left(4)] assms(1,3)
    show ?thesis by (simp add: connect_outcome_def up_state_def is_disconnected_def)
  qed
qed

lemma connect_outcome_refused:
  assumes "conn_inv s" "\<not> agent_live s" "core t = core s" "xsink t \<noteq> []"
  shows "connect_outcome s (-1) t"
  using assms conn_inv_core [OF assms(3)] settings_core [OF assms(3)] core_eq_sel(26,40) [OF assms(3)]
  by (simp add: connect_outcome_def)

lemma connect_outcome_closed:
  assumes "conn_inv s" "\<not> agent_live s" "xsink t \<noteq> []" "core t = core (disc_state (s\<lparr>sock := f, session_fd_hold := h\<rparr>))"
    and "\<not> ssh_session s"
  shows "connect_outcome s (-1) t"
proof -
  have "disc_state (s\<lparr>sock := f, session_fd_hold := h\<rparr>) = disc_state s"
    using assms(5) by (simp add: disc_state_def)
  with assms(4) have c: "core t = core s" using disc_state_id [OF assms(1,5)] by simp
  from connect_outcome_refused [OF assms(1,2) c assms(3)] show ?thesis .
qed

lemma open_session_post:
  assumes "conn_inv s" "\<not> agent_live s" "xsink s = []" "\<not> ssh_session s" "callbacks_neutral E"
  shows "post (open_session E tmo s) (connect_outcome s)"
proof -
  obtain f w where c: "connectINET E (sshhost s) (sshport s) tmo (world s) = (f, w)" by fastforce
  show ?thesis
  proof (cases f)
    case None
    with c connect_outcome_refused [OF assms(1,2)] show ?thesis
      by (simp add: open_session_def socket_connectINET_def call_ext_def)
  next
    case (Some fd)
    obtain bad w2 where h: "hold_descriptor E fd w = (bad, w2)" by fastforce
    let ?s = "s\<lparr>sock := Some fd, world := w2\<rparr>" and ?h = "s\<lparr>sock := Some fd, world := w2, session_fd_hold := True\<rparr>"
    have dis: "is_disconnected s"
      using disc_state_disconnected [OF assms(1)] disc_state_id [OF assms(1,4)] by simp
    have bad: "post (disconnect_raise E None (raise True e ?s)) (connect_outcome s)" for e
    proof (rule post_mono [OF disconnect_raise_post])
      fix r :: int and t
      assume t: "r = -1 \<and> io_step True (disc_state (raise True e ?s)) t
        \<and> xsink t = xsink (raise True e ?s) @ (case None of None \<Rightarrow> [] | Some e \<Rightarrow> [e])"
      have "core (disc_state (raise True e ?s)) = core (disc_state (s\<lparr>sock := Some fd, session_fd_hold := False\<rparr>))"
        by (simp add: core_def raise_def disc_state_def)
      with t io_step_core have "core t = core (disc_state (s\<lparr>sock := Some fd, session_fd_hold := False\<rparr>))"
        by fastforce
      with t connect_outcome_closed [OF assms(1,2) _ _ assms(4)] show "connect_outcome s r t" by auto
    qed
    have good: "post (prepareSessionUnlocked E ?h) (\<lambda>rc t. post (if rc \<noteq> 0 then Some (-1, t) else handshake_and_login E tmo t)
        (connect_outcome s))"
    proof (rule post_mono [OF prepareSession_post])
      fix rc :: int and t
      assume "(rc = 0 \<and> xsink t = xsink ?h \<and> core t = core (?h\<lparr>ssh_session := True, session_blocking := False\<rparr>))
        \<or> (rc = -1 \<and> xsink t \<noteq> [] \<and> core t = core (disc_state ?h))"
      then consider "rc = 0" "xsink t = []" "core t = core (up_state fd s)"
        | "rc = -1" "xsink t \<noteq> []" "core t = core (disc_state (s\<lparr>sock := Some fd, session_fd_hold := True\<rparr>))"
        using assms(3) by (auto simp: up_state_def core_def disc_state_def)
      then show "post (if rc \<noteq> 0 then Some (-1, t) else handshake_and_login E tmo t) (connect_outcome s)"
      proof cases
        case 1
        have k: "\<not> agent_live t" "\<not> nh_live t" "ssh_session t"
          using core_eq_sel [OF 1(3)] assms(1,2) by (simp_all add: up_state_def conn_inv_def)
        have "post (handshake_and_login E tmo t) (login_outcome t)"
          by (rule handshake_and_login_post [OF 1(2) k(1,2) assms(5) k(3)])
        with 1(1) show ?thesis
          using login_connects [OF dis assms(1,2)] login_outcome_core [OF 1(3)] by (auto simp: post_def)
      next
        case 2
        with connect_outcome_closed [OF assms(1,2)] assms(4) show ?thesis by simp
      qed
    qed
    show ?thesis
      using bad good by (simp add: post_if open_session_def socket_connectINET_def holdSessionDescriptorUnlocked_def call_ext_def c Some h)
  qed
qed

lemma sshConnectUnlocked_post:
  assumes "conn_inv s" "\<not> agent_live s" "xsink s = []" "callbacks_neutral E"
  shows "post (sshConnectUnlocked E tmo s) (connect_outcome s)"
proof (cases "poll_op_in_progress s")
  case True
  with connect_outcome_refused [OF assms(1,2)] show ?thesis
    by (simp add: sshConnectUnlocked_def checkPollOpUnlocked_def)
next
  case False
  obtain b u where c: "qore_check_cancel E s = (b, u)" by fastforce
  note io = check_cancel_io [OF c]
  have rest: "post (open_session E tmo v) (connect_outcome s)" if v: "core v = core (disc_state s)" "xsink v = []" for v
  proof (rule post_mono [OF open_session_post])
    show "conn_inv v" using disc_core [OF assms(1) v(1)] by simp
    show "\<not> agent_live v" "\<not> ssh_session v" using core_eq_sel [OF v(1)] assms(2) by simp_all
    show "xsink v = []" "callbacks_neutral E" by fact+
    have dv: "is_disconnected v" using disc_core [OF assms(1) v(1)] by simp
    fix rc :: int and t
    assume o: "connect_outcome v rc t"
    have "is_disconnected t" if "core t = core v"
      using dv by (simp add: is_disconnected_def core_eq_sel [OF that])
    moreover have "settings v = settings s" "policies v = policies s"
      "client_identity_provider v = client_identity_provider s" "connect_in_progress v = connect_in_progress s"
      using settings_core [OF v(1)] core_eq_sel(13,26) [OF v(1)] by simp_all
    ultimately show "connect_outcome s rc t"
      using o unfolding connect_outcome_def by (elim conjE disjE) simp_all
  qed
  show ?thesis
  proof (cases "b \<or> sshuser u = []")
    case True
    have "core (raise True e u) = core s" for e
      using io io_step_core by (cases b) fastforce+
    with True False c io connect_outcome_refused [OF assms(1,2)] io_step_core show ?thesis
      by (fastforce simp: sshConnectUnlocked_def checkPollOpUnlocked_def checkConnectPreconditionsUnlocked_def)
  next
    case go: False
    with io(1) have u: "io_step False s u" by simp
    have x: "xsink u = []" using io_step_False_xsink [OF u] assms(3) by simp
    have closed: "post (force_disconnect E u) (\<lambda>_ v. post (open_session E tmo v) (connect_outcome s))"
    proof (rule post_mono [OF force_disconnect_post])
      fix r :: int and v
      assume v: "r = 0 \<and> io_step False (disc_state u) v"
      then have "core v = core (disc_state s)" "xsink v = []"
        using io_step_core core_disc [OF io_step_core [OF u]] io_step_False_xsink x by fastforce+
      then show "post (open_session E tmo v) (connect_outcome s)" by (rule rest)
    qed
    have fresh: "\<not> ssh_session u \<Longrightarrow> post (open_session E tmo u) (connect_outcome s)"
      using rest [of u] io_step_core [OF u] disc_state_id [OF assms(1)] core_eq_sel(32) [OF io_step_core [OF u]] x
      by simp
    show ?thesis
      unfolding sshConnectUnlocked_def checkPollOpUnlocked_def checkConnectPreconditionsUnlocked_def c
      using go False closed fresh c by (simp add: post_if)
  qed
qed

section \<open>Returning\<close>

text \<open>
  A connection attempt ends when the library settles and the agent lists finitely many
  identities: \<open>agent_finite k E\<close> says that the identities are numbered below \<open>k\<close> in the order
  in which they are listed.
\<close>

definition agent_finite :: "nat \<Rightarrow> ('w, 's) env \<Rightarrow> bool" where
  "agent_finite k E \<longleftrightarrow> (\<forall>p w i w'. agent_get_identity E p w = (Some i, w') \<longrightarrow>
     i < k \<and> (case p of None \<Rightarrow> True | Some j \<Rightarrow> j < i))"

definition agent_rank :: "nat \<Rightarrow> agent_helper \<Rightarrow> nat" where
  "agent_rank k h = k - (case ah_identity h of None \<Rightarrow> 0 | Some i \<Rightarrow> Suc i)"

lemma nextIdentity_rank:
  assumes "agent_finite k E" "Ssh2AgentHelper_nextIdentity E h s = ((0, h1), t)"
  shows "agent_rank k h1 < agent_rank k h"
proof -
  define p where "p = (if ah_identity h \<noteq> None then ah_identity h else ah_prev_identity h)"
  from assms(2) obtain i w where g: "agent_get_identity E p (world s) = (Some i, w)" and h1: "ah_identity h1 = Some i"
    by (cases "ah_identity h") (auto simp: Ssh2AgentHelper_nextIdentity_def Let_def call_ext_def p_def
        split: if_splits option.splits prod.splits)
  from assms(1) g have "i < k" "case p of None \<Rightarrow> True | Some j \<Rightarrow> j < i"
    unfolding agent_finite_def by blast+
  then show ?thesis
    using h1 by (cases "ah_identity h") (auto simp: agent_rank_def p_def)
qed

lemma force_disconnect_returns: "settling m E \<Longrightarrow> returns (force_disconnect E s)"
  unfolding force_disconnect_def by (rule disconnectUnlocked_returns)

lemma userauth_quiet:
  "settling m E \<Longrightarrow> Ssh2AgentHelper_userauth E h u s = (r, t) \<Longrightarrow> m (world t) \<le> m (world s)"
  by (auto simp: Ssh2AgentHelper_userauth_def settling_def quiet_def call_ext_eq_pair split: if_splits option.splits)

lemma authCall_quiet:
  "settling m E \<Longrightarrow> authCallUnlocked E a s = (r, t) \<Longrightarrow> m (world t) \<le> m (world s)"
  by (auto simp: authCallUnlocked_def settling_def quiet_def call_ext_eq_pair split: if_splits attempt_kind.splits)

lemma agent_loop_returns:
  assumes "settling m E" "agent_finite k E"
  shows "returns (agent_loop E tmo h s)"
proof (induction "agent_rank k h" arbitrary: h s rule: less_induct)
  case less
  obtain rc h1 s1 where n: "Ssh2AgentHelper_nextIdentity E h s = ((rc, h1), s1)"
    by (cases "Ssh2AgentHelper_nextIdentity E h s") auto
  obtain b s2 where c: "qore_check_cancel E s1 = (b, s2)" by fastforce
  have l: "returns (retry_loop is_eagain (\<lambda>s. Ssh2AgentHelper_userauth E h1 (sshuser s) s) (connect_wait E tmo) s2)"
    unfolding connect_wait_def by (rule retry_wait_returns [OF assms(1)]) (rule userauth_quiet [OF assms(1)])
  have r: "rc = 0 \<Longrightarrow> returns (agent_loop E tmo h1 s3)" for s3
    using less nextIdentity_rank [OF assms(2)] n by blast
  show ?case
    by (subst agent_loop.simps) (auto simp: n c returns_bind l r force_disconnect_returns [OF assms(1)]
        intro!: post_I split: option.split)
qed

lemma tryAgentAuth_returns:
  "settling m E \<Longrightarrow> agent_finite k E \<Longrightarrow> returns (tryAgentAuth E tmo s)"
  by (auto simp: tryAgentAuth_def agent_loop_returns split: prod.split)

lemma checkAuthAttemptAccess_returns:
  "settling m E \<Longrightarrow> returns (checkAuthAttemptAccessUnlocked E a s)"
  by (auto simp: checkAuthAttemptAccessUnlocked_def returns_bind force_disconnect_returns intro!: post_I
      split: prod.split)

lemma runAuthAttempt_returns:
  assumes "settling m E" "agent_finite k E" "\<And>s. returns (prov s)"
  shows "returns (runAuthAttempt_with prov E tmo a s)"
proof -
  have "returns (retry_loop is_eagain (authCallUnlocked E a) (connect_wait E tmo) u)" for u
    unfolding connect_wait_def by (rule retry_wait_returns [OF assms(1)]) (rule authCall_quiet [OF assms(1)])
  then show ?thesis
    by (auto simp: runAuthAttempt_with_def returns_bind tryAgentAuth_returns [OF assms(1,2)] assms(3)
        checkAuthAttemptAccess_returns [OF assms(1)] force_disconnect_returns [OF assms(1)]
        intro!: post_I split: option.split)
qed

lemma run_attempts_returns:
  "(\<And>a s. returns (run a s)) \<Longrightarrow> returns (run_attempts run plan s)"
  by (induction plan arbitrary: s) (auto simp: returns_bind intro!: post_I)

lemma tryProviderAuth_returns:
  assumes "settling m E" "agent_finite k E"
  shows "returns (tryProviderAuth E tmo s)"
proof -
  have r: "returns (run_attempts (runAuthAttempt_with (\<lambda>s. Some ((-1, False), s)) E tmo) plan u)" for plan u
    by (rule run_attempts_returns) (rule runAuthAttempt_returns [OF assms], simp)
  have "returns (provider_loop E tmo i cs u)" for i cs u
    by (induction cs arbitrary: i u)
      (auto simp: returns_bind r force_disconnect_returns [OF assms(1)] intro!: post_I split: prod.split)
  then show ?thesis by (auto simp: tryProviderAuth_def split: prod.split option.split)
qed

lemma handshake_and_login_returns:
  assumes "settling m E" "agent_finite k E"
  shows "returns (handshake_and_login E tmo s)"
proof -
  have d: "returns (disconnect_raise E c u)" for c u by (rule disconnect_raise_returns [OF assms(1)])
  have v: "returns (verifyHostKeyUnlocked E tmo u)" for u
    by (auto simp: verifyHostKeyUnlocked_def d split: option.split prod.split verdict.split)
  have h: "returns (retry_loop is_eagain (startupUnlocked E) (connect_wait E tmo) u)" for u
    unfolding connect_wait_def using assms(1)
    by (intro retry_wait_returns [OF assms(1)]) (auto simp: startupUnlocked_def settling_def intro: quiet_call)
  have l: "returns (list_authentication E tmo u)" for u
    unfolding list_authentication_def connect_wait_def using assms(1)
    by (intro retry_wait_returns [OF assms(1)]) (auto simp: settling_def intro: quiet_call)
  have a: "returns (run_attempts (runAuthAttemptUnlocked E tmo) plan u)" for plan u
    unfolding runAuthAttemptUnlocked_def
    by (rule run_attempts_returns) (rule runAuthAttempt_returns [OF assms tryProviderAuth_returns [OF assms]])
  have "returns (authenticate E tmo u)" for u
    by (auto simp: authenticate_def returns_bind l a d intro!: post_I split: option.split prod.split)
  then show ?thesis
    by (auto simp: handshake_and_login_def returns_bind h v d intro!: post_I split: option.split)
qed

lemma sshConnectUnlocked_returns:
  assumes "settling m E" "agent_finite k E"
  shows "returns (sshConnectUnlocked E tmo s)"
proof -
  have d: "returns (disconnect_raise E c u)" for c u by (rule disconnect_raise_returns [OF assms(1)])
  have p: "returns (checkConnectPreconditionsUnlocked E u)" for u
    by (auto simp: checkConnectPreconditionsUnlocked_def returns_bind force_disconnect_returns [OF assms(1)]
        intro!: post_I split: prod.split)
  have s: "returns (prepareSessionUnlocked E u)" for u
    by (auto simp: prepareSessionUnlocked_def d Let_def split: prod.split)
  have "returns (open_session E tmo u)" for u
    by (auto simp: open_session_def returns_bind s d handshake_and_login_returns [OF assms] intro!: post_I
        split: prod.split)
  then show ?thesis
    by (auto simp: sshConnectUnlocked_def returns_bind p intro!: post_I split: prod.split)
qed

section \<open>Properties\<close>

text \<open>
  C4 (invariant). A blocking connection attempt keeps the connection invariant and the
  configuration, and resets its progress flag. If it succeeds, the client has a session in
  blocking mode on an open socket with the authentication method recorded, and no exception.
  If it fails there is an exception, and the client is as before (the attempt was refused at
  once), or disconnected, or, only when a client identity provider is configured, it still
  has the unauthenticated session.
\<close>

theorem connect_outcomes:
  assumes "sshConnect E tmo s = Some (rc, t)"
    and "conn_inv s" "xsink s = []" "\<not> agent_live s" "\<not> connect_in_progress s" "callbacks_neutral E"
  shows "conn_inv t \<and> settings t = settings s \<and> policies t = policies s \<and> \<not> connect_in_progress t \<and>
     (rc = 0 \<and> xsink t = [] \<and> sshConnectedUnlocked t \<and> session_blocking t \<and> sshauthenticatedwith t \<noteq> None
      \<or> rc = -1 \<and> xsink t \<noteq> [] \<and>
        (core t = core s \<or> is_disconnected t
         \<or> client_identity_provider s \<noteq> None \<and> sshConnectedUnlocked t \<and> \<not> session_blocking t
           \<and> sshauthenticatedwith t = None))"
proof -
  let ?s = "s\<lparr>connect_in_progress := True\<rparr>"
  from assms(1,5) obtain u where c: "sshConnectUnlocked E tmo ?s = Some (rc, u)"
    and t: "t = u\<lparr>connect_in_progress := False\<rparr>"
    by (auto simp: sshConnect_def Option.bind_eq_Some_conv)
  have i: "conn_inv ?s" using assms(2) by (simp add: conn_inv_def)
  have o: "connect_outcome ?s rc u"
    using post_D [OF sshConnectUnlocked_post [OF i] c] assms(3,4,6) by simp
  have "conn_inv t = conn_inv u" "settings t = settings u" "policies t = policies u"
    "is_disconnected t = is_disconnected u"
    unfolding t by (simp_all add: conn_inv_def settings_def policies_def is_disconnected_def)
  moreover have "settings ?s = settings s" "policies ?s = policies s"
    by (simp_all add: settings_def policies_def)
  moreover have "core t = core s" if "core u = core ?s"
    using that assms(5) unfolding t by (elim coreE) (simp add: core_def)
  ultimately show ?thesis
    using o by (auto simp: connect_outcome_def t sshConnectedUnlocked_def)
qed

lemma connect_verified:
  assumes "sshConnectUnlocked E tmo s = Some (0, t)"
  shows "\<exists>u v. verifyHostKeyUnlocked E tmo u = Some (0, v) \<and> authenticate E tmo v = Some (0, t)
    \<and> settings u = settings s \<and> policies u = policies s"
proof -
  have no: "disconnect_raise E c u \<noteq> Some (0, v)" for c u v
    using post_D [OF disconnect_raise_post, of E c u 0 v] by auto
  from assms obtain a where pre: "checkConnectPreconditionsUnlocked E s = Some (0, a)"
    and a: "open_session E tmo a = Some (0, t)"
    by (auto simp: sshConnectUnlocked_def checkPollOpUnlocked_def Option.bind_eq_Some_conv split: if_splits)
  obtain b u where c: "qore_check_cancel E s = (b, u)" by fastforce
  have su: "settings u = settings s \<and> policies u = policies s"
    using check_cancel_io [OF c] settings_core io_step_core by (cases b) blast+
  have sv: "settings v = settings u \<and> policies v = policies u" if "force_disconnect E u = Some (r, v)" for r v
    using post_D [OF force_disconnect_post that] settings_core [OF io_step_core] by fastforce
  from pre c su sv have sa: "settings a = settings s \<and> policies a = policies s"
    by (auto simp: checkConnectPreconditionsUnlocked_def Option.bind_eq_Some_conv split: if_splits)
  from a no obtain fd w h2 where f: "connectINET E (sshhost a) (sshport a) tmo (world a) = (Some fd, w)"
    "hold_descriptor E fd w = (False, h2)"
    by (auto simp: open_session_def socket_connectINET_def holdSessionDescriptorUnlocked_def call_ext_def
        split: prod.splits option.splits if_splits)
  let ?h = "a\<lparr>sock := Some fd, world := h2, session_fd_hold := True\<rparr>"
  from a f obtain p where p: "prepareSessionUnlocked E ?h = Some (0, p)" and l: "handshake_and_login E tmo p = Some (0, t)"
    by (auto simp: open_session_def socket_connectINET_def holdSessionDescriptorUnlocked_def call_ext_def
        Option.bind_eq_Some_conv split: if_splits)
  have "core p = core (?h\<lparr>ssh_session := True, session_blocking := False\<rparr>)"
    using post_D [OF prepareSession_post p] by auto
  from settings_core [OF this] have "settings p = settings a \<and> policies p = policies a"
    by (simp add: settings_def policies_def)
  moreover obtain x y where "io_step False p x" "verifyHostKeyUnlocked E tmo x = Some (0, y)" "authenticate E tmo y = Some (0, t)"
    using login_verified [OF l] by blast
  ultimately show ?thesis using sa settings_core [OF io_step_core] by metis
qed

text \<open>
  C3 (safety). A connection that is reported as established passed the host key verification
  under the configuration the client had when \<open>connect()\<close> was called: the verification ran
  with these settings and policies and returned success, and the state it left is the one the
  authentication started from that gave the connection.
\<close>

theorem connect_success_is_verified:
  assumes "sshConnect E tmo s = Some (0, t)"
  shows "\<exists>u v w. verifyHostKeyUnlocked E tmo u = Some (0, v) \<and> settings u = settings s \<and> policies u = policies s
    \<and> authenticate E tmo v = Some (0, w) \<and> t = w\<lparr>connect_in_progress := False\<rparr>"
proof -
  let ?s = "s\<lparr>connect_in_progress := True\<rparr>"
  from assms obtain u where "sshConnectUnlocked E tmo ?s = Some (0, u)" "t = u\<lparr>connect_in_progress := False\<rparr>"
    by (auto simp: sshConnect_def Option.bind_eq_Some_conv split: if_splits)
  moreover have "settings ?s = settings s" "policies ?s = policies s"
    by (simp_all add: settings_def policies_def)
  ultimately show ?thesis using connect_verified by metis
qed

text \<open>
  C9 (termination). A connection attempt returns: with an environment that settles and an
  agent with finitely many identities, \<open>connect()\<close> ends in every state, whatever the server,
  the provider and the store answer.
\<close>

theorem connect_returns:
  assumes "settling m E" "agent_finite k E"
  shows "\<exists>rc t. sshConnect E tmo s = Some (rc, t)"
  using sshConnectUnlocked_returns [OF assms, of tmo "s\<lparr>connect_in_progress := True\<rparr>"]
  by (auto simp: sshConnect_def returns_def)

lemma agent_finite_env0: "agent_finite 1 tenv"
  by (auto simp: agent_finite_def env0_def split: option.splits)

theorem connect_returns_witness:
  "\<exists>rc t. sshConnect tenv 100 (client0\<lparr>use_agent := True, world := \<lparr>pending = 3, log = []\<rparr>\<rparr>) = Some (rc, t)"
  by (rule connect_returns [OF settling_env0 agent_finite_env0])

text \<open>The example client connects with its password.\<close>

lemma client0_connects:
  "\<exists>t. sshConnect tenv 100 client0 = Some (0, t) \<and> sshauthenticatedwith t = Some ''password''"
proof -
  have "map_option (\<lambda>(r, t). (r, sshauthenticatedwith t)) (sshConnect tenv 100 client0) = Some (0, Some ''password'')"
    by code_simp
  then show ?thesis by auto
qed

theorem connect_outcomes_witness:
  "\<exists>t. sshConnect tenv 100 client0 = Some (0, t) \<and> conn_inv t \<and> sshConnectedUnlocked t
     \<and> sshauthenticatedwith t = Some ''password''"
proof -
  obtain t where t: "sshConnect tenv 100 client0 = Some (0, t)" "sshauthenticatedwith t = Some ''password''"
    using client0_connects by blast
  from connect_outcomes [OF t(1)] have "conn_inv t \<and> sshConnectedUnlocked t"
    by (simp add: conn_inv_def client0_def)
  with t show ?thesis by blast
qed

theorem connect_success_is_verified_witness:
  "\<exists>u v w. verifyHostKeyUnlocked tenv 100 u = Some (0, v) \<and> settings u = settings client0 \<and> policies u = policies client0
    \<and> authenticate tenv 100 v = Some (0, w)"
proof -
  obtain t where t: "sshConnect tenv 100 client0 = Some (0, t)" using client0_connects by blast
  from connect_success_is_verified [OF t] show ?thesis by blast
qed

section \<open>A provider that fails\<close>

text \<open>
  A connection attempt comes to its client identity provider in state \<open>u\<close>: the socket was
  connected, the handshake made, the host key verified, the server listed its methods, among
  them \<open>publickey\<close>, and the attempts before the provider were refused.
\<close>

definition reaches_provider :: "('w, 'm) cenv \<Rightarrow> int \<Rightarrow> ('w, 'm) cst \<Rightarrow> ('w, 'm) cst \<Rightarrow> bool" where
  "reaches_provider E tmo s u \<longleftrightarrow> \<not> connect_in_progress s \<and> \<not> poll_op_in_progress s
     \<and> (\<exists>s1 s2 s3 s4 s5 s6 s7 l pre rest s8.
          checkConnectPreconditionsUnlocked E (s\<lparr>connect_in_progress := True\<rparr>) = Some (0, s1)
        \<and> socket_connectINET E tmo s1 = (0, s2)
        \<and> holdSessionDescriptorUnlocked E s2 = (0, s3)
        \<and> prepareSessionUnlocked E s3 = Some (0, s4)
        \<and> retry_loop is_eagain (startupUnlocked E) (connect_wait E tmo) s4 = Some (Some (Ret 0), s5)
        \<and> verifyHostKeyUnlocked E tmo s5 = Some (0, s6)
        \<and> list_authentication E tmo s6 = Some (Some (Got l), s7)
        \<and> buildAuthPlanUnlocked E (Some l) s7 = (pre @ Ssh2AuthAttempt PROVIDER # rest, s8)
        \<and> run_attempts (runAuthAttemptUnlocked E tmo) pre s8 = Some ((0, False), u)
        \<and> publicKeyAuthAvailableUnlocked u)"

lemma reaches_providerI:
  assumes "\<not> connect_in_progress s" "\<not> poll_op_in_progress s"
    "checkConnectPreconditionsUnlocked E (s\<lparr>connect_in_progress := True\<rparr>) = Some (0, s1)"
    "socket_connectINET E tmo s1 = (0, s2)" "holdSessionDescriptorUnlocked E s2 = (0, s3)"
    "prepareSessionUnlocked E s3 = Some (0, s4)"
    "retry_loop is_eagain (startupUnlocked E) (connect_wait E tmo) s4 = Some (Some (Ret 0), s5)"
    "verifyHostKeyUnlocked E tmo s5 = Some (0, s6)" "list_authentication E tmo s6 = Some (Some (Got l), s7)"
    "buildAuthPlanUnlocked E (Some l) s7 = (pre @ Ssh2AuthAttempt PROVIDER # rest, s8)"
    "run_attempts (runAuthAttemptUnlocked E tmo) pre s8 = Some ((0, False), u)" "publicKeyAuthAvailableUnlocked u"
  shows "reaches_provider E tmo s u"
  using assms unfolding reaches_provider_def by blast

lemma run_attempts_append:
  "run_attempts run (pre @ a # rest) s = do { ((rc, loggedin), s) \<leftarrow> run_attempts run pre s;
     if rc \<noteq> 0 then Some ((-1, loggedin), s) else if loggedin then Some ((0, True), s)
     else run_attempts run (a # rest) s }"
proof (induction pre arbitrary: s)
  case (Cons b pre)
  then show ?case by (cases "run b s") (auto split: prod.splits)
qed simp

lemma provider_failure_result:
  assumes "reaches_provider E tmo s u" "getProviderCandidatesUnlocked E tmo u = (None, v)"
  shows "sshConnect E tmo s = Some (-1, v\<lparr>connect_in_progress := False\<rparr>)"
proof -
  from assms(1) obtain s1 s2 s3 s4 s5 s6 s7 l pre rest s8 where
    s: "\<not> connect_in_progress s" "\<not> poll_op_in_progress s"
    and a: "checkConnectPreconditionsUnlocked E (s\<lparr>connect_in_progress := True\<rparr>) = Some (0, s1)"
      "socket_connectINET E tmo s1 = (0, s2)" "holdSessionDescriptorUnlocked E s2 = (0, s3)"
      "prepareSessionUnlocked E s3 = Some (0, s4)"
      "retry_loop is_eagain (startupUnlocked E) (connect_wait E tmo) s4 = Some (Some (Ret 0), s5)"
      "verifyHostKeyUnlocked E tmo s5 = Some (0, s6)" "list_authentication E tmo s6 = Some (Some (Got l), s7)"
      "buildAuthPlanUnlocked E (Some l) s7 = (pre @ Ssh2AuthAttempt PROVIDER # rest, s8)"
      "run_attempts (runAuthAttemptUnlocked E tmo) pre s8 = Some ((0, False), u)" "publicKeyAuthAvailableUnlocked u"
    unfolding reaches_provider_def by blast
  have "runAuthAttemptUnlocked E tmo (Ssh2AuthAttempt PROVIDER) u = Some ((-1, False), v)"
    using a(10) assms(2)
    by (simp add: runAuthAttemptUnlocked_def runAuthAttempt_with_def Ssh2AuthAttempt_def tryProviderAuth_def)
  then have "run_attempts (runAuthAttemptUnlocked E tmo) (pre @ Ssh2AuthAttempt PROVIDER # rest) s8 = Some ((-1, False), v)"
    using a(9) by (simp add: run_attempts_append)
  then have "authenticate E tmo s6 = Some (-1, v)" using a(7,8) by (simp add: authenticate_def)
  with s a(1-6) show ?thesis
    by (simp add: sshConnect_def sshConnectUnlocked_def checkPollOpUnlocked_def open_session_def handshake_and_login_def)
qed

lemma preconditions_disc:
  assumes "conn_inv s" "\<not> agent_live s" "xsink s = []"
  shows "post (checkConnectPreconditionsUnlocked E s)
    (\<lambda>rc t. rc = 0 \<longrightarrow> core t = core (disc_state s) \<and> xsink t = [])"
proof -
  obtain b u where c: "qore_check_cancel E s = (b, u)" by fastforce
  show ?thesis
  proof (cases b)
    case True
    with c show ?thesis by (simp add: checkConnectPreconditionsUnlocked_def)
  next
    case False
    then have u: "io_step False s u" using check_cancel_io(1) [OF c] by simp
    then have x: "xsink u = []" "core u = core s" using io_step_False_xsink assms(3) io_step_core by fastforce+
    have "post (force_disconnect E u) (\<lambda>_ t. core t = core (disc_state s) \<and> xsink t = [])"
      by (rule post_mono [OF force_disconnect_post])
        (use io_step_core core_disc [OF x(2)] io_step_False_xsink x(1) in fastforce)
    moreover have "\<not> ssh_session u \<Longrightarrow> core u = core (disc_state s)"
      using disc_state_id [OF assms(1)] core_eq_sel(32) [OF x(2)] x(2) by simp
    ultimately show ?thesis
      using c False x(1) by (auto simp: checkConnectPreconditionsUnlocked_def elim!: post_mono)
  qed
qed

text \<open>The state in which the provider is consulted: a session that is not authenticated, in non-blocking mode.\<close>

lemma reaches_provider_state:
  assumes "conn_inv s" "xsink s = []" "\<not> agent_live s" "callbacks_neutral E" "reaches_provider E tmo s u"
  shows "xsink u = [] \<and> client_identity_provider u \<noteq> None \<and> ssh_session u \<and> sock u \<noteq> None \<and> \<not> session_blocking u
    \<and> sshauthenticatedwith u = None"
proof -
  from assms(5) obtain s1 s2 s3 s4 s5 s6 s7 l pre rest s8 where
    a: "checkConnectPreconditionsUnlocked E (s\<lparr>connect_in_progress := True\<rparr>) = Some (0, s1)"
      "socket_connectINET E tmo s1 = (0, s2)" "holdSessionDescriptorUnlocked E s2 = (0, s3)"
      "prepareSessionUnlocked E s3 = Some (0, s4)"
      "retry_loop is_eagain (startupUnlocked E) (connect_wait E tmo) s4 = Some (Some (Ret 0), s5)"
      "verifyHostKeyUnlocked E tmo s5 = Some (0, s6)" "list_authentication E tmo s6 = Some (Some (Got l), s7)"
      "buildAuthPlanUnlocked E (Some l) s7 = (pre @ Ssh2AuthAttempt PROVIDER # rest, s8)"
      "run_attempts (runAuthAttemptUnlocked E tmo) pre s8 = Some ((0, False), u)"
    unfolding reaches_provider_def by blast
  let ?s = "s\<lparr>connect_in_progress := True\<rparr>"
  have "conn_inv ?s" "\<not> agent_live ?s" "xsink ?s = []" using assms(1-3) by (simp_all add: conn_inv_def)
  from post_D [OF preconditions_disc [OF this] a(1)] disc_core [OF this(1), of s1]
  have "is_disconnected s1" "conn_inv s1" and k1: "xsink s1 = []" "\<not> agent_live s1"
    using assms(3) by (auto dest: core_eq_sel(40))
  then have d1: "sshauthenticatedwith s1 = None" "\<not> nh_live s1" by (simp_all add: is_disconnected_def conn_inv_def)
  from a(2,3) obtain fd w where s3: "s3 = s1\<lparr>sock := Some fd, world := w, session_fd_hold := True\<rparr>"
    by (auto simp: socket_connectINET_def holdSessionDescriptorUnlocked_def call_ext_def
        split: option.splits prod.splits if_splits)
  have "xsink s4 = xsink s3" "core s4 = core (s3\<lparr>ssh_session := True, session_blocking := False\<rparr>)"
    using post_D [OF prepareSession_post a(4)] by auto
  then have k4: "xsink s4 = []" "ssh_session s4" "sock s4 \<noteq> None" "\<not> session_blocking s4" "sshauthenticatedwith s4 = None"
      "\<not> agent_live s4" "\<not> nh_live s4"
    using k1 d1 core_eq_sel [of s4 "s3\<lparr>ssh_session := True, session_blocking := False\<rparr>"] by (simp_all add: s3)
  have i5: "io_step False s4 s5" using post_D [OF handshake_wait_post a(5)] by auto
  then have k5: "xsink s5 = []" "\<not> nh_live s5" using k4 by (auto elim!: io_stepE)
  have c6: "core s6 = core s5" "xsink s6 = []"
    using post_D [OF verifyHostKey_post [OF k5(2) assms(4) k5(1)] a(6)] by (auto simp: verify_outcome_def)
  have i7: "io_step False s6 s7"
    using post_D [OF retry_wait_post_gen a(7) [unfolded list_authentication_def connect_wait_def]]
    by (auto intro: io_step_call)
  have s8: "s8 = s7\<lparr>auth_methods := l\<rparr>" using buildAuthPlan_state [of E "Some l" s7] a(8) by simp
  have c7: "core s7 = core s4" "xsink s7 = []"
    using i5 c6 io_step_core [OF i5] io_step_core [OF i7] io_step_False_xsink [OF i7] by simp_all
  have k8: "xsink s8 = []" "ssh_session s8" "sock s8 \<noteq> None" "\<not> session_blocking s8" "sshauthenticatedwith s8 = None" "\<not> agent_live s8"
    using k4 c7(2) core_eq_sel [OF c7(1)] by (simp_all add: s8)
  have prov: "client_identity_provider s8 \<noteq> None"
    using plan_provider [of "Ssh2AuthAttempt PROVIDER" E "Some l" s7] a(8) by (simp add: s8 Ssh2AuthAttempt_def)
  have "post (run_attempts (runAuthAttemptUnlocked E tmo) pre s8) (auth_outcome True s8)"
  proof (rule run_attempts_post)
    fix x y
    assume "io_step False s8 y"
    then have "xsink y = []" "\<not> agent_live y" "client_identity_provider y \<noteq> None" using k8 prov by (auto elim!: io_stepE)
    then show "post (runAuthAttemptUnlocked E tmo x y) (auth_outcome True y)"
      using post_mono [OF runAuthAttemptUnlocked_post [OF _ _ assms(4)]] auth_outcome_mono by blast
  qed
  from post_D [OF this a(9)] have "io_step False s8 u" by (auto simp: auth_outcome_def)
  with k8 prov show ?thesis by (auto elim!: io_stepE)
qed

text \<open>
  C27 (error). A client identity provider that fails (it raises an exception or answers with no
  list) makes \<open>connect()\<close> fail with an exception but leaves the session behind: whatever the
  environment and the order of authentication, when the attempt comes to the provider and it
  fails, the socket stays open, the session stays in non-blocking mode, and the client reports
  that it is connected although no authentication took place.
\<close>

theorem provider_error_leaves_session:
  assumes "conn_inv s" "xsink s = []" "\<not> agent_live s" "callbacks_neutral E"
    and "reaches_provider E tmo s u" "fst (getProviderCandidatesUnlocked E tmo u) = None"
  shows "\<exists>t. sshConnect E tmo s = Some (-1, t) \<and> xsink t \<noteq> [] \<and> sshConnectedUnlocked t
     \<and> \<not> session_blocking t \<and> sshauthenticatedwith t = None"
proof -
  obtain v where g: "getProviderCandidatesUnlocked E tmo u = (None, v)"
    using assms(6) by (cases "getProviderCandidatesUnlocked E tmo u") simp
  note st = reaches_provider_state [OF assms(1-5)]
  have "io_step True u v" "xsink v \<noteq> []" using getProviderCandidates_outcome(2) [OF g _ assms(4)] st by auto
  with st have "xsink v \<noteq> []" "ssh_session v" "sock v \<noteq> None" "\<not> session_blocking v" "sshauthenticatedwith v = None"
    by (auto elim!: io_stepE)
  with provider_failure_result [OF assms(5) g] show ?thesis by (simp add: sshConnectedUnlocked_def)
qed

text \<open>A provider that raises an exception.\<close>

definition failing_provider_env :: "(tworld, tworld client) env" where
  "failing_provider_env = tenv\<lparr>provider_candidates := \<lambda>_ _ s. (None, s)\<rparr>"

lemma option_case_TrueE: "(case x of None \<Rightarrow> False | Some y \<Rightarrow> P y) \<Longrightarrow> (\<And>y. x = Some y \<Longrightarrow> P y \<Longrightarrow> thesis) \<Longrightarrow> thesis"
  by (cases x) auto

lemma prod_case_TrueE: "(case x of (a, b) \<Rightarrow> P a b) \<Longrightarrow> (\<And>a b. x = (a, b) \<Longrightarrow> P a b \<Longrightarrow> thesis) \<Longrightarrow> thesis"
  by (cases x) auto

lemma failing_provider_reached:
  "\<exists>u. reaches_provider failing_provider_env 100 (client0\<lparr>client_identity_provider := Some 1\<rparr>) u
     \<and> fst (getProviderCandidatesUnlocked failing_provider_env 100 u) = None"
proof -
  let ?E = failing_provider_env and ?s = "client0\<lparr>client_identity_provider := Some 1\<rparr>"
  have "case checkConnectPreconditionsUnlocked ?E (?s\<lparr>connect_in_progress := True\<rparr>) of None \<Rightarrow> False | Some (rc, s1) \<Rightarrow> rc = 0 \<and>
     (case socket_connectINET ?E 100 s1 of (rc, s2) \<Rightarrow> rc = 0 \<and>
     (case holdSessionDescriptorUnlocked ?E s2 of (rc, s3) \<Rightarrow> rc = 0 \<and>
     (case prepareSessionUnlocked ?E s3 of None \<Rightarrow> False | Some (rc, s4) \<Rightarrow> rc = 0 \<and>
     (case retry_loop is_eagain (startupUnlocked ?E) (connect_wait ?E 100) s4 of None \<Rightarrow> False | Some (rc, s5) \<Rightarrow> rc = Some (Ret 0) \<and>
     (case verifyHostKeyUnlocked ?E 100 s5 of None \<Rightarrow> False | Some (rc, s6) \<Rightarrow> rc = 0 \<and>
     (case list_authentication ?E 100 s6 of None \<Rightarrow> False | Some (r, s7) \<Rightarrow> r = Some (Got ''publickey,password'') \<and>
     (case buildAuthPlanUnlocked ?E (Some ''publickey,password'') s7 of (plan, s8) \<Rightarrow> plan \<noteq> []
       \<and> hd plan = Ssh2AuthAttempt PROVIDER \<and> publicKeyAuthAvailableUnlocked s8
       \<and> fst (getProviderCandidatesUnlocked ?E 100 s8) = None)))))))"
    by code_simp
  then obtain s1 s2 s3 s4 s5 s6 s7 plan s8 where
    a: "checkConnectPreconditionsUnlocked ?E (?s\<lparr>connect_in_progress := True\<rparr>) = Some (0, s1)"
      "socket_connectINET ?E 100 s1 = (0, s2)" "holdSessionDescriptorUnlocked ?E s2 = (0, s3)"
      "prepareSessionUnlocked ?E s3 = Some (0, s4)"
      "retry_loop is_eagain (startupUnlocked ?E) (connect_wait ?E 100) s4 = Some (Some (Ret 0), s5)"
      "verifyHostKeyUnlocked ?E 100 s5 = Some (0, s6)"
      "list_authentication ?E 100 s6 = Some (Some (Got ''publickey,password''), s7)"
      "buildAuthPlanUnlocked ?E (Some ''publickey,password'') s7 = (plan, s8)"
    and p: "plan \<noteq> []" "hd plan = Ssh2AuthAttempt PROVIDER" "publicKeyAuthAvailableUnlocked s8"
      "fst (getProviderCandidatesUnlocked ?E 100 s8) = None"
    by (elim option_case_TrueE prod_case_TrueE conjE) blast
  from p obtain rest where "plan = [] @ Ssh2AuthAttempt PROVIDER # rest" by (cases plan) simp_all
  note a(8) [unfolded this]
  from reaches_providerI [OF _ _ a(1-7) this _ p(3)] have "reaches_provider ?E 100 ?s s8"
    by (simp add: client0_def)
  with p(4) show ?thesis by blast
qed

theorem provider_error_leaves_session_witness:
  "\<exists>t. sshConnect failing_provider_env 100 (client0\<lparr>client_identity_provider := Some 1\<rparr>) = Some (-1, t) \<and> xsink t \<noteq> []
     \<and> sshConnectedUnlocked t \<and> \<not> session_blocking t \<and> sshauthenticatedwith t = None"
proof -
  obtain u where u: "reaches_provider failing_provider_env 100 (client0\<lparr>client_identity_provider := Some 1\<rparr>) u"
    "fst (getProviderCandidatesUnlocked failing_provider_env 100 u) = None"
    using failing_provider_reached by blast
  have "callbacks_neutral failing_provider_env"
    by (simp add: callbacks_neutral_def failing_provider_env_def env0_def)
  from provider_error_leaves_session [OF _ _ _ this u] show ?thesis by (simp add: conn_inv_def client0_def)
qed

end
