(* ===== verification/Ssh2_Channel.thy ===== *)
theory Ssh2_Channel
  imports Ssh2_Connect
begin

text \<open>
  Channels and listeners (\<open>src/src/SSH2Channel.cpp\<close>, \<open>src/src/SSH2Listener.cpp\<close>) and the
  operations of the client that open them (\<open>src/src/SSH2Client.cpp\<close>). A channel object is
  named by its number in the client's registry; \<open>chan_open\<close> says that its libssh2 channel is
  not null. Sizes are \<open>size_t\<close>, a 64-bit word.
\<close>

section \<open>Requests\<close>

definition check_open :: "nat \<Rightarrow> ('w, 'm) cst \<Rightarrow> int \<times> ('w, 'm) cst" where
  "check_open c s = (if chan_open s c then (0, s) else (-1, raise True ''SSH2-CHANNEL-ERROR'' s))"

definition doSessionErrUnlocked :: "('w, 'm) cst \<Rightarrow> ('w, 'm) cst" where
  "doSessionErrUnlocked s = raise True ''SSH2-ERROR'' s"

definition channel_wait ::
  "('w, 'm) cenv \<Rightarrow> string \<Rightarrow> int \<Rightarrow> ('w, 'm) cst \<Rightarrow> (int \<times> ('w, 'm) cst) option" where
  "channel_wait E err tmo = waitSocketUnlocked E ''SSH2CHANNEL-TIMEOUT'' err tmo None True"

text \<open>
  The body that the requests share; \<open>bad\<close> tells which results of libssh2 are errors. The
  destructor of \<open>BlockingHelper\<close> restores the blocking mode on every path.
\<close>

definition channel_op ::
  "('w, 'm) cenv \<Rightarrow> nat \<Rightarrow> chan_req \<Rightarrow> string \<Rightarrow> (int \<Rightarrow> bool) \<Rightarrow> int \<Rightarrow> ('w, 'm) cst \<Rightarrow> (int \<times> ('w, 'm) cst) option" where
  "channel_op E c req err bad tmo s =
     (case check_open c s of (rc, s) \<Rightarrow>
        if rc \<noteq> 0 then Some (-1, s)
        else
          do { (r, s) \<leftarrow> retry_loop is_eagain (call_ext (channel_request E c req)) (channel_wait E err tmo)
                 (BlockingHelper_ctor s);
               case r of
                 Some (Ret rc) \<Rightarrow>
                   Some (rc, BlockingHelper_dtor (if bad rc then doSessionErrUnlocked s else s))
               | _ \<Rightarrow> Some (-1, BlockingHelper_dtor s) })"

definition setenv where
  "setenv E c name value tmo = channel_op E c (ReqSetenv name value) ''SSH2CHANNEL-SETENV-ERROR'' (\<lambda>rc. rc \<noteq> 0) tmo"

definition requestPty where
  "requestPty E c term modes width height width_px height_px tmo =
     channel_op E c (ReqPty term (opt_str modes) width height width_px height_px)
       ''SSH2CHANNEL-REQUESTPTY-ERROR'' (\<lambda>rc. rc \<noteq> 0) tmo"

definition shell where
  "shell E c tmo = channel_op E c ReqShell ''SSH2CHANNEL-SHELL-ERROR'' (\<lambda>rc. rc \<noteq> 0) tmo"

definition waitEof where
  "waitEof E c tmo = channel_op E c ReqWaitEof ''SSH2CHANNEL-WAITEOF-ERROR'' (\<lambda>rc. rc \<noteq> 0) tmo"

definition sendEof where
  "sendEof E c tmo = channel_op E c ReqSendEof ''SSH2CHANNEL-SENDEOF-ERROR'' (\<lambda>rc. rc \<noteq> 0) tmo"

definition exec where
  "exec E c command tmo = channel_op E c (ReqExec command) ''SSH2CHANNEL-EXEC-ERROR'' (\<lambda>rc. rc \<noteq> 0) tmo"

definition subsystem where
  "subsystem E c command tmo =
     channel_op E c (ReqSubsystem command) ''SSH2CHANNEL-SUBSYSTEM-ERROR'' (\<lambda>rc. rc \<noteq> 0) tmo"

definition channel_close where
  "channel_close E c tmo = channel_op E c ReqClose ''SSH2CHANNEL-CLOSE-ERROR'' (\<lambda>rc. rc < 0) tmo"

definition waitClosed where
  "waitClosed E c tmo = channel_op E c ReqWaitClosed ''SSH2CHANNEL-WAITCLOSED-ERROR'' (\<lambda>rc. rc < 0) tmo"

definition requestX11Forwarding where
  "requestX11Forwarding E c screen_number single_connection auth_proto auth_cookie tmo =
     channel_op E c (ReqX11 screen_number single_connection auth_proto auth_cookie)
       ''SSH2CHANNEL-REQUESTX11FORWARDING-ERROR'' (\<lambda>rc. rc < 0) tmo"

definition extendedDataNormal where
  "extendedDataNormal E c tmo =
     channel_op E c ReqExtendedNormal ''SSH2CHANNEL-EXTENDEDDATANORMAL-ERROR'' (\<lambda>rc. rc < 0) tmo"

definition extendedDataMerge where
  "extendedDataMerge E c tmo =
     channel_op E c ReqExtendedMerge ''SSH2CHANNEL-EXTENDEDDATAMERGE-ERROR'' (\<lambda>rc. rc < 0) tmo"

definition extendedDataIgnore where
  "extendedDataIgnore E c tmo =
     channel_op E c ReqExtendedIgnore ''SSH2CHANNEL-EXTENDEDDATAIGNORE-ERROR'' (\<lambda>rc. rc < 0) tmo"

definition requestPtySize where
  "requestPtySize E c width height width_px height_px tmo =
     channel_op E c (ReqPtySize width height width_px height_px)
       ''SSH2CHANNEL-REQUESTPTYSIZE-ERROR'' (\<lambda>rc. rc \<noteq> 0) tmo"

definition sendSignal where
  "sendSignal E c signal_name tmo =
     channel_op E c (ReqSignal signal_name) ''SSH2CHANNEL-SENDSIGNAL-ERROR'' (\<lambda>rc. rc < 0) tmo"

definition requestAuthAgent where
  "requestAuthAgent E c tmo =
     channel_op E c ReqAuthAgent ''SSH2CHANNEL-REQUESTAUTHAGENT-ERROR'' (\<lambda>rc. rc < 0) tmo"

definition eof :: "('w, 'm) cenv \<Rightarrow> nat \<Rightarrow> ('w, 'm) cst \<Rightarrow> bool \<times> ('w, 'm) cst" where
  "eof E c s = (case check_open c s of (rc, s) \<Rightarrow> if rc \<noteq> 0 then (True, s) else (channel_eof E c (world s), s))"

definition getExitStatus :: "('w, 'm) cenv \<Rightarrow> nat \<Rightarrow> ('w, 'm) cst \<Rightarrow> int \<times> ('w, 'm) cst" where
  "getExitStatus E c s =
     (case check_open c s of (rc, s) \<Rightarrow> if rc \<noteq> 0 then (-1, s) else (channel_exit_status E c (world s), s))"

text \<open>The destructors of a channel and of a listener object, and \<open>SSH2Listener::cancel()\<close>.\<close>

definition channel_destructor :: "('w, 'm) cenv \<Rightarrow> nat \<Rightarrow> ('w, 'm) cst \<Rightarrow> ('w, 'm) cst" where
  "channel_destructor E c s =
     (if chan_open s c then channel_closeUnlocked E c (channelDeletedUnlocked c s) else s)"

definition listener_destructor :: "('w, 'm) cenv \<Rightarrow> nat \<Rightarrow> ('w, 'm) cst \<Rightarrow> ('w, 'm) cst" where
  "listener_destructor E l s = (if lsn_open s l then listener_cancelUnlocked E l s else s)"

definition listener_cancel :: "('w, 'm) cenv \<Rightarrow> nat \<Rightarrow> ('w, 'm) cst \<Rightarrow> ('w, 'm) cst" where
  "listener_cancel E l s =
     (if \<not> lsn_open s l then raise True ''SSH2LISTENER-ERROR'' s else listener_cancelUnlocked E l s)"

section \<open>Reading\<close>

definition QSSH2_BUFSIZE :: nat where "QSSH2_BUFSIZE = 32768"

text \<open>\<open>read()\<close> and \<open>readBinary()\<close> without a size: what is there, with at most one wait for the first bytes.\<close>

partial_function (option) read_available ::
  "('w, 'm) cenv \<Rightarrow> nat \<Rightarrow> int \<Rightarrow> string \<Rightarrow> int \<Rightarrow> bool \<Rightarrow> string \<Rightarrow> ('w, 'm) cst \<Rightarrow> (string option \<times> ('w, 'm) cst) option" where
  "read_available E c stream err tmo first acc s =
     (case call_ext (channel_read E c stream QSSH2_BUFSIZE) s of (r, s) \<Rightarrow>
        (case r of
           RdData d \<Rightarrow>
             if d \<noteq> [] then read_available E c stream err tmo first (acc @ d) s
             else Some (Some acc, s)
         | RdEagain \<Rightarrow>
             if acc = [] \<and> first then
               do { (wr, s) \<leftarrow> channel_wait E err tmo s;
                    if wr \<noteq> 0 then Some (None, s)
                    else read_available E c stream err tmo False acc s }
             else Some (Some acc, s)
         | RdErr e \<Rightarrow> Some (None, doSessionErrUnlocked s)))"

declare read_available.simps [code]

definition with_blocking_helper ::
  "(('w, 'm) cst \<Rightarrow> ('r \<times> ('w, 'm) cst) option) \<Rightarrow> ('w, 'm) cst \<Rightarrow> ('r \<times> ('w, 'm) cst) option" where
  "with_blocking_helper f s =
     do { (r, s) \<leftarrow> f (BlockingHelper_ctor s); Some (r, BlockingHelper_dtor s) }"

definition channel_read_all ::
  "('w, 'm) cenv \<Rightarrow> nat \<Rightarrow> int \<Rightarrow> int \<Rightarrow> ('w, 'm) cst \<Rightarrow> (string option \<times> ('w, 'm) cst) option" where
  "channel_read_all E c stream tmo s =
     (case check_open c s of (rc, s) \<Rightarrow>
        if rc \<noteq> 0 then Some (None, s)
        else with_blocking_helper (read_available E c stream ''SSH2CHANNEL-READ-ERROR'' tmo True []) s)"

definition channel_read_all_binary ::
  "('w, 'm) cenv \<Rightarrow> nat \<Rightarrow> int \<Rightarrow> int \<Rightarrow> ('w, 'm) cst \<Rightarrow> (string option \<times> ('w, 'm) cst) option" where
  "channel_read_all_binary E c stream tmo s =
     (case check_open c s of (rc, s) \<Rightarrow>
        if rc \<noteq> 0 then Some (None, s)
        else with_blocking_helper (read_available E c stream ''SSH2CHANNEL-READBINARY-ERROR'' tmo True []) s)"

text \<open>
  The wait of the sized reads and of \<open>write()\<close>: \<open>None\<close> when the socket is ready, otherwise the
  exception; the connection is not closed.
\<close>

definition raw_wait ::
  "('w, 'm) cenv \<Rightarrow> string \<Rightarrow> int \<Rightarrow> ('w, 'm) cst \<Rightarrow> bool \<times> ('w, 'm) cst" where
  "raw_wait E err tmo s =
     (case waitSocketRaw E tmo s of (rc, s) \<Rightarrow>
        if rc = 0 then (False, raise True ''SSH2CHANNEL-TIMEOUT'' s)
        else if rc < 0 then (False, raise True err s)
        else (True, s))"

text \<open>
  \<open>read()\<close> and \<open>readBinary()\<close> of a block of a given size. An error of libssh2 is handled by no
  branch of the loop.
\<close>

partial_function (option) read_block ::
  "('w, 'm) cenv \<Rightarrow> nat \<Rightarrow> int \<Rightarrow> int \<Rightarrow> 64 word \<Rightarrow> 64 word \<Rightarrow> 64 word \<Rightarrow> string \<Rightarrow> ('w, 'm) cst \<Rightarrow>
   (string option \<times> ('w, 'm) cst) option" where
  "read_block E c stream tmo sz b_read b_remaining acc s =
     (let to_read = (if of_nat QSSH2_BUFSIZE < b_remaining then of_nat QSSH2_BUFSIZE else b_remaining)
      in case call_ext (channel_read E c stream (unat to_read)) s of (r, s) \<Rightarrow>
           (case r of
              RdErr e \<Rightarrow> read_block E c stream tmo sz b_read b_remaining acc s
            | RdData d \<Rightarrow>
                if d \<noteq> [] then
                  (let b_read = b_read + of_nat (length d)
                   in if b_read \<ge> sz then Some (Some (acc @ d), s)
                      else read_block E c stream tmo sz b_read (b_remaining - of_nat (length d)) (acc @ d) s)
                else
                  (case raw_wait E ''SSH2CHANNEL-TIMEOUT'' tmo s of (ready, s) \<Rightarrow>
                     if \<not> ready then Some (None, s)
                     else read_block E c stream tmo sz b_read b_remaining acc s)
            | RdEagain \<Rightarrow>
                (case raw_wait E ''SSH2CHANNEL-TIMEOUT'' tmo s of (ready, s) \<Rightarrow>
                   if \<not> ready then Some (None, s)
                   else read_block E c stream tmo sz b_read b_remaining acc s)))"

declare read_block.simps [code]

definition channel_read_size ::
  "('w, 'm) cenv \<Rightarrow> nat \<Rightarrow> 64 word \<Rightarrow> int \<Rightarrow> int \<Rightarrow> ('w, 'm) cst \<Rightarrow> (string option \<times> ('w, 'm) cst) option" where
  "channel_read_size E c sz stream tmo s =
     (case check_open c s of (rc, s) \<Rightarrow>
        if rc \<noteq> 0 then Some (None, s)
        else with_blocking_helper (read_block E c stream tmo sz 0 sz []) s)"

definition channel_read_size_binary ::
  "('w, 'm) cenv \<Rightarrow> nat \<Rightarrow> 64 word \<Rightarrow> int \<Rightarrow> int \<Rightarrow> ('w, 'm) cst \<Rightarrow> (string option \<times> ('w, 'm) cst) option" where
  "channel_read_size_binary E c sz stream tmo s =
     (case check_open c s of (rc, s) \<Rightarrow>
        if rc \<noteq> 0 then Some (None, s)
        else with_blocking_helper (read_block E c stream tmo sz 0 sz []) s)"

text \<open>\<open>read()\<close> into a buffer: the bytes read, none on an error.\<close>

partial_function (option) read_buffer ::
  "('w, 'm) cenv \<Rightarrow> nat \<Rightarrow> nat \<Rightarrow> int \<Rightarrow> int \<Rightarrow> ('w, 'm) cst \<Rightarrow> (string \<times> ('w, 'm) cst) option" where
  "read_buffer E c sz stream tmo s =
     (case call_ext (channel_read E c stream sz) s of (r, s) \<Rightarrow>
        (case r of
           RdErr e \<Rightarrow> Some ([], doSessionErrUnlocked s)
         | RdData d \<Rightarrow>
             if d \<noteq> [] then Some (d, s)
             else (case raw_wait E ''SSH2CHANNEL-TIMEOUT'' tmo s of (ready, s) \<Rightarrow>
                     if \<not> ready then Some ([], s) else read_buffer E c sz stream tmo s)
         | RdEagain \<Rightarrow>
             (case raw_wait E ''SSH2CHANNEL-TIMEOUT'' tmo s of (ready, s) \<Rightarrow>
                if \<not> ready then Some ([], s) else read_buffer E c sz stream tmo s)))"

declare read_buffer.simps [code]

definition channel_read_buffer ::
  "('w, 'm) cenv \<Rightarrow> nat \<Rightarrow> nat \<Rightarrow> int \<Rightarrow> int \<Rightarrow> ('w, 'm) cst \<Rightarrow> (string \<times> ('w, 'm) cst) option" where
  "channel_read_buffer E c sz stream tmo s =
     (case check_open c s of (rc, s) \<Rightarrow>
        if rc \<noteq> 0 then Some ([], s) else with_blocking_helper (read_buffer E c sz stream tmo) s)"

section \<open>Writing\<close>

text \<open>The call that makes progress, or \<open>None\<close> with an exception when the socket is not ready.\<close>

partial_function (option) write_some ::
  "('w, 'm) cenv \<Rightarrow> nat \<Rightarrow> int \<Rightarrow> int \<Rightarrow> string \<Rightarrow> ('w, 'm) cst \<Rightarrow> (int option \<times> ('w, 'm) cst) option" where
  "write_some E c stream tmo data s =
     (case call_ext (channel_write E c stream data) s of (r, s) \<Rightarrow>
        (case r of
           Ret n \<Rightarrow>
             if n \<noteq> 0 then Some (Some n, s)
             else (case raw_wait E ''SSH2CHANNEL-WRITE-ERROR'' tmo s of (ready, s) \<Rightarrow>
                     if \<not> ready then Some (None, s) else write_some E c stream tmo data s)
         | Eagain \<Rightarrow>
             (case raw_wait E ''SSH2CHANNEL-WRITE-ERROR'' tmo s of (ready, s) \<Rightarrow>
                if \<not> ready then Some (None, s) else write_some E c stream tmo data s)))"

declare write_some.simps [code]

text \<open>The result is \<open>size_t\<close>; -1 is its greatest value.\<close>

partial_function (option) write_loop ::
  "('w, 'm) cenv \<Rightarrow> nat \<Rightarrow> int \<Rightarrow> int \<Rightarrow> string \<Rightarrow> 64 word \<Rightarrow> ('w, 'm) cst \<Rightarrow> (64 word \<times> ('w, 'm) cst) option" where
  "write_loop E c stream tmo buf b_sent s =
     do { (r, s) \<leftarrow> write_some E c stream tmo (drop (unat b_sent) buf) s;
          case r of
            None \<Rightarrow> Some (-1, s)
          | Some rc \<Rightarrow>
              (let s = (if rc < 0 then doSessionErrUnlocked s else s);
                   b_sent = b_sent + word_of_int rc
               in if b_sent \<ge> of_nat (length buf) then Some (b_sent, s)
                  else write_loop E c stream tmo buf b_sent s) }"

declare write_loop.simps [code]

definition channel_write_all ::
  "('w, 'm) cenv \<Rightarrow> nat \<Rightarrow> string \<Rightarrow> int \<Rightarrow> int \<Rightarrow> ('w, 'm) cst \<Rightarrow> (64 word \<times> ('w, 'm) cst) option" where
  "channel_write_all E c buf stream tmo s =
     (case check_open c s of (rc, s) \<Rightarrow>
        if rc \<noteq> 0 then Some (-1, s) else with_blocking_helper (write_loop E c stream tmo buf 0) s)"

section \<open>Opening channels and listeners\<close>

text \<open>
  The body that the opening operations share: the loop over the libssh2 call, with the
  exception of a failed call; \<open>register\<close> makes and registers the new object.
\<close>

definition open_with ::
  "('w, 'm) cenv \<Rightarrow> ('w \<Rightarrow> 'h lptr \<times> 'w) \<Rightarrow> string \<Rightarrow> string \<Rightarrow> int \<Rightarrow>
   ('h \<Rightarrow> ('w, 'm) cst \<Rightarrow> 'r \<times> ('w, 'm) cst) \<Rightarrow> ('w, 'm) cst \<Rightarrow> ('r option \<times> ('w, 'm) cst) option" where
  "open_with E call toerr err tmo register s =
     do { (r, s) \<leftarrow> retry_loop is_null_eagain (call_ext call) (waitSocketUnlocked E toerr err tmo None True)
            (BlockingHelper_ctor s);
          case r of
            Some (Got h) \<Rightarrow> (case register h s of (x, s) \<Rightarrow> Some (Some x, BlockingHelper_dtor s))
          | Some _ \<Rightarrow> Some (None, BlockingHelper_dtor (doSessionErrUnlocked s))
          | None \<Rightarrow> Some (None, BlockingHelper_dtor s) }"

definition open_connected ::
  "('w, 'm) cenv \<Rightarrow> ('w \<Rightarrow> 'h lptr \<times> 'w) \<Rightarrow> string \<Rightarrow> int \<Rightarrow>
   ('h \<Rightarrow> ('w, 'm) cst \<Rightarrow> 'r \<times> ('w, 'm) cst) \<Rightarrow> ('w, 'm) cst \<Rightarrow> ('r option \<times> ('w, 'm) cst) option" where
  "open_connected E call err tmo register s =
     (if \<not> sshConnectedUnlocked s then Some (None, raise True ''SSH2CLIENT-NOT-CONNECTED'' s)
      else open_with E call ''SSH2CLIENT-TIMEOUT'' err tmo register s)"

definition registerChannelUnlocked :: "unit \<Rightarrow> ('w, 'm) cst \<Rightarrow> nat \<times> ('w, 'm) cst" where
  "registerChannelUnlocked _ s = registerChannelUnlockedRaw s"

definition openSessionChannel ::
  "('w, 'm) cenv \<Rightarrow> int \<Rightarrow> ('w, 'm) cst \<Rightarrow> (nat option \<times> ('w, 'm) cst) option" where
  "openSessionChannel E tmo s =
     open_connected E (channel_open_session E) ''SSH2CLIENT-OPENSESSIONCHANNEL-ERROR'' tmo registerChannelUnlocked s"

definition openDirectTcpipChannel ::
  "('w, 'm) cenv \<Rightarrow> string \<Rightarrow> int \<Rightarrow> string \<Rightarrow> int \<Rightarrow> int \<Rightarrow> ('w, 'm) cst \<Rightarrow> (nat option \<times> ('w, 'm) cst) option" where
  "openDirectTcpipChannel E host port shost sport tmo s =
     (case ssh2_check_tunnel_destination E host port s of (rc, s) \<Rightarrow>
        if rc \<noteq> 0 then Some (None, s)
        else open_connected E (channel_direct_tcpip E host port shost sport)
               ''SSH2CLIENT-OPENDIRECTTCPIPCHANNEL-ERROR'' tmo registerChannelUnlocked s)"

definition openDirectStreamLocalChannel ::
  "('w, 'm) cenv \<Rightarrow> string \<Rightarrow> string \<Rightarrow> int \<Rightarrow> int \<Rightarrow> ('w, 'm) cst \<Rightarrow> (nat option \<times> ('w, 'm) cst) option" where
  "openDirectStreamLocalChannel E socket_path shost sport tmo s =
     (case ssh2_check_unix_socket_access E socket_path False s of (rc, s) \<Rightarrow>
        if rc \<noteq> 0 then Some (None, s)
        else open_connected E (channel_direct_streamlocal E socket_path shost sport)
               ''SSH2CLIENT-OPENDIRECTSTREAMLOCALCHANNEL-ERROR'' tmo registerChannelUnlocked s)"

text \<open>The new listener object and its bound port.\<close>

definition registerListenerUnlocked :: "int \<Rightarrow> ('w, 'm) cst \<Rightarrow> (nat \<times> int) \<times> ('w, 'm) cst" where
  "registerListenerUnlocked bound_port s =
     (let l = next_id s
      in ((l, bound_port), s\<lparr>lsn_open := (lsn_open s)(l := True), listener_set := listener_set s @ [l],
            next_id := Suc l\<rparr>))"

definition forwardListen ::
  "('w, 'm) cenv \<Rightarrow> string \<Rightarrow> int \<Rightarrow> int \<Rightarrow> int \<Rightarrow> ('w, 'm) cst \<Rightarrow> ((nat \<times> int) option \<times> ('w, 'm) cst) option" where
  "forwardListen E host port queue_maxsize tmo s =
     open_connected E (channel_forward_listen E host port queue_maxsize)
       ''SSH2CLIENT-FORWARDLISTEN-ERROR'' tmo registerListenerUnlocked s"

definition listener_accept ::
  "('w, 'm) cenv \<Rightarrow> nat \<Rightarrow> int \<Rightarrow> ('w, 'm) cst \<Rightarrow> (nat option \<times> ('w, 'm) cst) option" where
  "listener_accept E l tmo s =
     (if \<not> lsn_open s l then Some (None, raise True ''SSH2LISTENER-ERROR'' s)
      else if \<not> sshConnectedUnlocked s then Some (None, raise True ''SSH2LISTENER-ERROR'' s)
      else open_with E (channel_forward_accept E l) ''SSH2LISTENER-TIMEOUT'' ''SSH2LISTENER-ERROR'' tmo
             registerChannelUnlocked s)"

definition scpGetChannel ::
  "('w, 'm) cenv \<Rightarrow> string \<Rightarrow> int \<Rightarrow> ('w, 'm) cst \<Rightarrow> (nat option \<times> ('w, 'm) cst) option" where
  "scpGetChannel E path tmo s =
     open_connected E (scp_recv E path) ''SSH2CLIENT-SCPGET-ERROR'' tmo registerChannelUnlocked s"

definition scpPutChannel ::
  "('w, 'm) cenv \<Rightarrow> string \<Rightarrow> nat \<Rightarrow> int \<Rightarrow> int \<Rightarrow> int \<Rightarrow> int \<Rightarrow> ('w, 'm) cst \<Rightarrow> (nat option \<times> ('w, 'm) cst) option" where
  "scpPutChannel E path sz mode mtime atime tmo s =
     open_connected E (scp_send E path mode sz mtime atime) ''SSH2CLIENT-SCPPUT-ERROR'' tmo
       registerChannelUnlocked s"

section \<open>SCP transfers with streams\<close>

partial_function (option) scp_get_loop ::
  "('w, 'm) cenv \<Rightarrow> nat \<Rightarrow> int \<Rightarrow> ('w, 'm) cst \<Rightarrow> (unit \<times> ('w, 'm) cst) option" where
  "scp_get_loop E c tmo s =
     (case eof E c s of (at_end, s) \<Rightarrow>
        if at_end then Some ((), s)
        else
          do { (d, s) \<leftarrow> channel_read_buffer E c 4096 0 tmo s;
               case (if d \<noteq> [] then call_ext (os_write E d) s else (False, s)) of (raised, s) \<Rightarrow>
                 (let s = (if raised then raise True (stream_exn E) s else s)
                  in if xsink s \<noteq> [] then Some ((), s) else scp_get_loop E c tmo s) })"

declare scp_get_loop.simps [code]

definition scpGet ::
  "('w, 'm) cenv \<Rightarrow> string \<Rightarrow> int \<Rightarrow> ('w, 'm) cst \<Rightarrow> (unit \<times> ('w, 'm) cst) option" where
  "scpGet E path tmo s =
     do { (c, s) \<leftarrow> scpGetChannel E path tmo s;
          case c of
            None \<Rightarrow> Some ((), s)
          | Some c \<Rightarrow>
              do { (rc, s) \<leftarrow> sendEof E c tmo s;
                   (_, s) \<leftarrow> (if rc = 0 then scp_get_loop E c tmo s else Some ((), s));
                   (_, s) \<leftarrow> waitClosed E c tmo s;
                   Some ((), channel_destructor E c s) } }"

text \<open>\<open>left\<close> is the number of bytes still to send.\<close>

partial_function (option) scp_put_loop ::
  "('w, 'm) cenv \<Rightarrow> nat \<Rightarrow> int \<Rightarrow> 64 word \<Rightarrow> ('w, 'm) cst \<Rightarrow> (unit \<times> ('w, 'm) cst) option" where
  "scp_put_loop E c tmo left s =
     (if left = 0 then Some ((), s)
      else case call_ext (is_read E (min 4096 (unat left))) s of
        (None, s) \<Rightarrow> Some ((), raise True (stream_exn E) s)
      | (Some d, s) \<Rightarrow>
          if xsink s \<noteq> [] then Some ((), s)
          else if d = [] then Some ((), raise True ''SSH2CLIENT-SCPPUT-ERROR'' s)
          else
            do { (_, s) \<leftarrow> channel_write_all E c d 0 tmo s;
                 if xsink s \<noteq> [] then Some ((), s)
                 else scp_put_loop E c tmo (left - of_nat (length d)) s })"

declare scp_put_loop.simps [code]

definition scpPut ::
  "('w, 'm) cenv \<Rightarrow> string \<Rightarrow> nat \<Rightarrow> int \<Rightarrow> int \<Rightarrow> int \<Rightarrow> int \<Rightarrow> ('w, 'm) cst \<Rightarrow> (unit \<times> ('w, 'm) cst) option" where
  "scpPut E path sz mode mtime atime tmo s =
     do { (c, s) \<leftarrow> scpPutChannel E path sz mode mtime atime tmo s;
          case c of
            None \<Rightarrow> Some ((), s)
          | Some c \<Rightarrow>
              do { (_, s) \<leftarrow> scp_put_loop E c tmo (of_nat sz) s;
                   (rc, s) \<leftarrow> sendEof E c tmo s;
                   (rc, s) \<leftarrow> (if rc = 0 then waitEof E c tmo s else Some (-1, s));
                   (_, s) \<leftarrow> (if rc = 0 then waitClosed E c tmo s else Some (0, s));
                   Some ((), channel_destructor E c s) } }"

section \<open>The contract of the operations on a session\<close>

text \<open>
  Every operation on an established session keeps the connection invariant and the
  configuration. The locale collects what follows from that for sequences of operations.
\<close>

definition kept :: "('w, 'm) cst \<Rightarrow> ('w, 'm) cst \<Rightarrow> bool" where
  "kept s t \<longleftrightarrow> (conn_inv s \<longrightarrow> conn_inv t) \<and> settings t = settings s \<and> policies t = policies s
     \<and> agent_live t = agent_live s \<and> connect_in_progress t = connect_in_progress s"

definition keeps :: "(('w, 'm) cst \<Rightarrow> ('r \<times> ('w, 'm) cst) option) \<Rightarrow> bool" where
  "keeps f \<longleftrightarrow> (\<forall>s. post (f s) (\<lambda>r t. kept s t))"

lemma kept_refl [simp, intro]: "kept s s"
  by (simp add: kept_def)

lemma kept_trans [trans]: "kept s t \<Longrightarrow> kept t u \<Longrightarrow> kept s u"
  by (simp add: kept_def)

lemma kept_core:
  assumes "core t = core s"
  shows "kept s t"
  using conn_inv_core [OF assms] settings_core [OF assms] core_eq_sel(26,40) [OF assms]
  by (simp add: kept_def)

lemma kept_io: "io_step x s t \<Longrightarrow> kept s t"
  by (rule kept_core) (rule io_step_core)

lemma kept_disc: "io_step x (disc_state s) t \<Longrightarrow> kept s t"
  by (rule kept_trans [where t = "disc_state s"]) (simp add: kept_def, rule kept_io)

lemma kept_raise [simp, intro]: "kept s (raise x c s)" "kept s (doSessionErrUnlocked s)"
  by (simp_all add: kept_core doSessionErrUnlocked_def)

lemma kept_blocking [simp, intro]:
  "kept s (BlockingHelper_ctor s)" "kept s (BlockingHelper_dtor s)"
  by (simp_all add: BlockingHelper_ctor_def BlockingHelper_dtor_def setBlockingUnlocked_def kept_def
      conn_inv_def settings_def policies_def)

lemma kept_call: "call_ext f s = (r, t) \<Longrightarrow> kept s t"
  by (rule kept_io [OF io_step_call])

lemma kept_raw_wait: "raw_wait E err tmo s = (r, t) \<Longrightarrow> kept s t"
  by (auto simp: raw_wait_def split: prod.splits if_splits
      intro: kept_io [OF waitSocketRaw_io] kept_trans [OF kept_io [OF waitSocketRaw_io] kept_raise(1)])

lemma keepsI: "(\<And>s r t. f s = Some (r, t) \<Longrightarrow> kept s t) \<Longrightarrow> keeps f"
  by (simp add: keeps_def post_def)

lemma keepsD: "keeps f \<Longrightarrow> f s = Some (r, t) \<Longrightarrow> kept s t"
  by (auto simp: keeps_def post_def)

lemma keeps_wait: "keeps (waitSocketUnlocked E toerr err tmo None x)"
  unfolding keeps_def
  by (auto intro!: post_mono [OF waitSocketUnlocked_post] intro: kept_io kept_disc)

lemma keeps_retry: "keeps (retry_loop again (call_ext f) (waitSocketUnlocked E toerr err tmo None x))"
  unfolding keeps_def by (auto intro!: post_mono [OF retry_wait_post] intro: kept_io kept_disc)

lemma keeps_helper: "keeps f \<Longrightarrow> keeps (with_blocking_helper f)"
  by (rule keepsI)
    (auto simp: with_blocking_helper_def Option.bind_eq_Some_conv dest: keepsD
      intro: kept_trans [OF kept_trans [OF kept_blocking(1)] kept_blocking(2)])

locale session_op =
  fixes op :: "('w, 'm) client_scheme \<Rightarrow> ('r \<times> ('w, 'm) client_scheme) option"
  assumes op_keeps: "keeps op"
begin

lemma inv: "conn_inv s \<Longrightarrow> op s = Some (r, t) \<Longrightarrow> conn_inv t"
  using keepsD [OF op_keeps] by (simp add: kept_def)

lemma configuration: "op s = Some (r, t) \<Longrightarrow> settings t = settings s \<and> policies t = policies s"
  using keepsD [OF op_keeps] by (simp add: kept_def)

lemma followed_by:
  assumes "keeps g"
  shows "keeps (\<lambda>s. do { (_, s) \<leftarrow> op s; g s })"
  by (rule keepsI) (auto simp: Option.bind_eq_Some_conv intro: kept_trans
      dest: keepsD [OF op_keeps] keepsD [OF assms])

end

lemma kept_around:
  "kept (BlockingHelper_ctor s) u \<Longrightarrow> kept u w \<Longrightarrow> kept s (BlockingHelper_dtor w)"
  by (blast intro: kept_trans kept_blocking)

interpretation request: session_op "channel_op E c req err bad tmo" for E c req err bad tmo
proof (unfold_locales, rule keepsI)
  fix s t :: "('a, 'b) client_scheme" and r
  assume a: "channel_op E c req err bad tmo s = Some (r, t)"
  show "kept s t"
  proof (cases "chan_open s c")
    case False
    with a show ?thesis by (auto simp: channel_op_def check_open_def)
  next
    case True
    with a obtain v u where l: "retry_loop is_eagain (call_ext (channel_request E c req)) (channel_wait E err tmo)
        (BlockingHelper_ctor s) = Some (v, u)"
      and k: "(case v of
                 Some (Ret rc) \<Rightarrow>
                   Some (rc, BlockingHelper_dtor (if bad rc then doSessionErrUnlocked u else u))
               | _ \<Rightarrow> Some (-1, BlockingHelper_dtor u)) = Some (r, t)"
      by (auto simp: channel_op_def check_open_def Option.bind_eq_Some_conv)
    have "kept (BlockingHelper_ctor s) u"
      using keepsD [OF keeps_retry l [unfolded channel_wait_def]] .
    from kept_around [OF this] k show ?thesis
      by (auto split: option.splits lrc.splits if_splits)
  qed
qed

lemma open_with_kept:
  fixes E :: "('w, 'm) cenv"
  assumes reg: "\<And>h u. ssh_session u \<Longrightarrow> kept u (snd (register h u))"
    and up: "ssh_session s" and run: "open_with E call toerr err tmo register s = Some (r, t)"
  shows "kept s t"
proof -
  from run obtain v u where l: "retry_loop is_null_eagain (call_ext call)
        (waitSocketUnlocked E toerr err tmo None True) (BlockingHelper_ctor s) = Some (v, u)"
    and k: "(case v of
            Some (Got h) \<Rightarrow> (case register h u of (x, s) \<Rightarrow> Some (Some x, BlockingHelper_dtor s))
          | Some _ \<Rightarrow> Some (None, BlockingHelper_dtor (doSessionErrUnlocked u))
          | None \<Rightarrow> Some (None, BlockingHelper_dtor u)) = Some (r, t)"
    by (auto simp: open_with_def Option.bind_eq_Some_conv)
  have keep: "kept (BlockingHelper_ctor s) u" by (rule keepsD [OF keeps_retry l])
  show ?thesis
  proof (cases "\<exists>h. v = Some (Got h)")
    case True
    then obtain h where h: "v = Some (Got h)" by blast
    with post_D [OF retry_wait_post l] have "io_step False (BlockingHelper_ctor s) u" by simp
    then have "ssh_session u"
      using up by (simp add: core_eq_sel [OF io_step_core] BlockingHelper_ctor_def setBlockingUnlocked_def)
    with reg [of u h] kept_around [OF keep] k h show ?thesis by (auto split: prod.splits)
  next
    case False
    with kept_around [OF keep] k show ?thesis by (auto split: option.splits lptr.splits)
  qed
qed

lemma register_kept:
  "ssh_session s \<Longrightarrow> kept s (snd (registerChannelUnlocked h s))"
  "ssh_session s \<Longrightarrow> kept s (snd (registerListenerUnlocked p s))"
  by (auto simp: kept_def registerChannelUnlocked_def registerChannelUnlockedRaw_def
      registerListenerUnlocked_def Let_def conn_inv_def settings_def policies_def)

lemma open_connected_keeps:
  assumes "\<And>h u. ssh_session u \<Longrightarrow> kept u (snd (register h u))"
  shows "keeps (open_connected E call err tmo register)"
  by (rule keepsI)
    (auto simp: open_connected_def sshConnectedUnlocked_def split: if_splits intro: open_with_kept [OF assms])

interpretation open_channel: session_op "open_connected E call err tmo registerChannelUnlocked"
  for E call err tmo
  by unfold_locales (rule open_connected_keeps, rule register_kept)

interpretation open_listener: session_op "open_connected E call err tmo registerListenerUnlocked"
  for E call err tmo
  by unfold_locales (rule open_connected_keeps, rule register_kept)

interpretation accept: session_op "listener_accept E l tmo" for E l tmo
  by unfold_locales
    (rule keepsI, auto simp: listener_accept_def sshConnectedUnlocked_def split: if_splits
      intro: open_with_kept [OF register_kept(1)])

section \<open>The loops keep the contract\<close>

lemma kept_snd:
  "kept s (snd (call_ext f s))" "kept s (snd (raw_wait E err tmo s))" "kept s (snd (check_open c s))"
  "kept s (snd (eof E c s))"
  by (cases "call_ext f s", simp add: kept_call, cases "raw_wait E err tmo s", simp add: kept_raw_wait)
    (auto simp: check_open_def eof_def)

lemma kept_steps:
  "call_ext f s = (r, t) \<Longrightarrow> kept t u \<Longrightarrow> kept s u"
  "raw_wait E err tmo s = (b, t) \<Longrightarrow> kept t u \<Longrightarrow> kept s u"
  "waitSocketUnlocked E toerr err tmo None x s = Some (wr, t) \<Longrightarrow> kept t u \<Longrightarrow> kept s u"
  by (rule kept_trans, erule kept_call, assumption)
    (rule kept_trans, erule kept_raw_wait, assumption,
     rule kept_trans, erule keepsD [OF keeps_wait], assumption)

lemma keeps_read_available: "keeps (read_available E c stream err tmo first acc)"
proof (rule keepsI)
  fix s r t
  assume ret: "read_available E c stream err tmo first acc s = Some (r, t)"
  have "kept s (snd (r, t))"
    by (rule read_available.raw_induct [where P = "\<lambda>E c stream err tmo first acc s y. kept s (snd y)", OF _ ret])
      (fastforce simp: channel_wait_def Option.bind_eq_Some_conv
        split: prod.splits rd.splits if_splits intro: kept_steps)
  then show "kept s t" by simp
qed

lemma keeps_read_block: "keeps (read_block E c stream tmo sz b_read b_remaining acc)"
proof (rule keepsI)
  fix s r t
  assume ret: "read_block E c stream tmo sz b_read b_remaining acc s = Some (r, t)"
  have "kept s (snd (r, t))"
    by (rule read_block.raw_induct [where P = "\<lambda>E c stream tmo sz b_read b_rem acc s y. kept s (snd y)", OF _ ret])
      (fastforce simp: Let_def split: prod.splits rd.splits if_splits intro: kept_steps)
  then show "kept s t" by simp
qed

lemma keeps_read_buffer: "keeps (read_buffer E c sz stream tmo)"
proof (rule keepsI)
  fix s r t
  assume ret: "read_buffer E c sz stream tmo s = Some (r, t)"
  have "kept s (snd (r, t))"
    by (rule read_buffer.raw_induct [where P = "\<lambda>E c sz stream tmo s y. kept s (snd y)", OF _ ret])
      (fastforce split: prod.splits rd.splits if_splits intro: kept_steps)
  then show "kept s t" by simp
qed

lemma keeps_write_some: "keeps (write_some E c stream tmo data)"
proof (rule keepsI)
  fix s r t
  assume ret: "write_some E c stream tmo data s = Some (r, t)"
  have "kept s (snd (r, t))"
    by (rule write_some.raw_induct [where P = "\<lambda>E c stream tmo data s y. kept s (snd y)", OF _ ret])
      (fastforce split: prod.splits lrc.splits if_splits intro: kept_steps)
  then show "kept s t" by simp
qed

lemma kept_maybe_err: "kept (if b then doSessionErrUnlocked s else s) u \<Longrightarrow> kept s u"
  by (cases b) (auto intro: kept_trans [OF kept_raise(2)])

lemma keeps_write_loop: "keeps (write_loop E c stream tmo buf b_sent)"
proof (rule keepsI)
  fix s r t
  assume ret: "write_loop E c stream tmo buf b_sent s = Some (r, t)"
  have "kept s (snd (r, t))"
  proof (rule write_loop.raw_induct [where P = "\<lambda>E c stream tmo buf b_sent s y. kept s (snd y)", OF _ ret])
    fix f E c stream tmo buf and b_sent :: "64 word" and s :: "('a, 'b) client_scheme" and y
    assume IH: "\<And>E c stream tmo buf b_sent s y. f E c stream tmo buf b_sent s = Some y \<Longrightarrow> kept s (snd y)"
      and body: "do { (r, s) \<leftarrow> write_some E c stream tmo (drop (unat b_sent) buf) s;
          case r of
            None \<Rightarrow> Some (-1, s)
          | Some rc \<Rightarrow>
              (let s = (if rc < 0 then doSessionErrUnlocked s else s);
                   b_sent = b_sent + word_of_int rc
               in if b_sent \<ge> of_nat (length buf) then Some (b_sent, s)
                  else f E c stream tmo buf b_sent s) } = Some y"
    then obtain r u where w: "write_some E c stream tmo (drop (unat b_sent) buf) s = Some (r, u)"
      by (auto simp: Option.bind_eq_Some_conv)
    have "kept u (snd y)"
    proof (cases r)
      case None
      with w body show ?thesis by auto
    next
      case (Some rc)
      have "kept (if rc < 0 then doSessionErrUnlocked u else u) (snd y)"
        using w body Some IH by (auto simp: Let_def split: if_splits)
      then show ?thesis by (rule kept_maybe_err)
    qed
    then show "kept s (snd y)" by (rule kept_trans [OF keepsD [OF keeps_write_some w]])
  qed
  then show "kept s t" by simp
qed

lemma keeps_opened:
  assumes "keeps f"
  shows "keeps (\<lambda>s. case check_open c s of (rc, s) \<Rightarrow>
     if rc \<noteq> 0 then Some (d, s) else with_blocking_helper f s)"
  by (rule keepsI)
    (auto simp: check_open_def split: if_splits dest: keepsD [OF keeps_helper [OF assms]])

interpretation read_all: session_op "channel_read_all E c stream tmo" for E c stream tmo
  unfolding channel_read_all_def by unfold_locales (rule keeps_opened, rule keeps_read_available)

interpretation read_all_binary: session_op "channel_read_all_binary E c stream tmo" for E c stream tmo
  unfolding channel_read_all_binary_def by unfold_locales (rule keeps_opened, rule keeps_read_available)

interpretation read_size: session_op "channel_read_size E c sz stream tmo" for E c sz stream tmo
  unfolding channel_read_size_def by unfold_locales (rule keeps_opened, rule keeps_read_block)

interpretation read_size_binary: session_op "channel_read_size_binary E c sz stream tmo" for E c sz stream tmo
  unfolding channel_read_size_binary_def by unfold_locales (rule keeps_opened, rule keeps_read_block)

interpretation read_into: session_op "channel_read_buffer E c sz stream tmo" for E c sz stream tmo
  unfolding channel_read_buffer_def by unfold_locales (rule keeps_opened, rule keeps_read_buffer)

interpretation write_all: session_op "channel_write_all E c buf stream tmo" for E c buf stream tmo
  unfolding channel_write_all_def by unfold_locales (rule keeps_opened, rule keeps_write_loop)

lemma kept_channel_destructor: "kept s (channel_destructor E c s)"
  by (auto simp: kept_def channel_destructor_def channel_closeUnlocked_def channelDeletedUnlocked_def
      run_ext_def conn_inv_def settings_def policies_def distinct_removeAll)

lemma kept_listener_cancel: "kept s (listener_cancelUnlocked E l s)"
  by (auto simp: kept_def listener_cancelUnlocked_def listenerDeletedUnlocked_def Let_def
      run_ext_def conn_inv_def settings_def policies_def distinct_removeAll)

lemma kept_listener_ops: "kept s (listener_destructor E l s)" "kept s (listener_cancel E l s)"
  by (simp_all add: listener_destructor_def listener_cancel_def kept_listener_cancel)

lemma keeps_scp_get_loop: "keeps (scp_get_loop E c tmo)"
proof (rule keepsI)
  fix s r t
  assume ret: "scp_get_loop E c tmo s = Some (r, t)"
  have "kept s (snd (r, t))"
  proof (rule scp_get_loop.raw_induct [where P = "\<lambda>E c tmo s y. kept s (snd y)", OF _ ret])
    fix f E c tmo and s :: "('a, 'b) client_scheme" and y
    assume IH: "\<And>E c tmo s y. f E c tmo s = Some y \<Longrightarrow> kept s (snd y)"
      and body: "(case eof E c s of (at_end, s) \<Rightarrow>
        if at_end then Some ((), s)
        else
          do { (d, s) \<leftarrow> channel_read_buffer E c 4096 0 tmo s;
               case (if d \<noteq> [] then call_ext (os_write E d) s else (False, s)) of (raised, s) \<Rightarrow>
                 (let s = (if raised then raise True (stream_exn E) s else s)
                  in if xsink s \<noteq> [] then Some ((), s) else f E c tmo s) }) = Some y"
    obtain b u where e: "eof E c s = (b, u)" by fastforce
    have u: "kept s u" using kept_snd(4) [of s E c] e by simp
    show "kept s (snd y)"
    proof (cases b)
      case True
      with body e u show ?thesis by auto
    next
      case False
      with body e obtain d v where rd: "channel_read_buffer E c 4096 0 tmo u = Some (d, v)"
        by (auto simp: Option.bind_eq_Some_conv)
      obtain raised w where os: "(if d \<noteq> [] then call_ext (os_write E d) v else (False, v)) = (raised, w)"
        by fastforce
      then have w: "kept v w" by (auto split: if_splits intro: kept_call)
      have "kept (if raised then raise True (stream_exn E) w else w) (snd y)"
        using body e False rd os IH by (auto simp: Let_def split: if_splits)
      then have "kept w (snd y)" by (auto split: if_splits intro: kept_trans [OF kept_raise(1)])
      with u w keepsD [OF read_into.op_keeps rd] show ?thesis by (blast intro: kept_trans)
    qed
  qed
  then show "kept s t" by simp
qed

lemma keeps_scp_put_loop: "keeps (scp_put_loop E c tmo left)"
proof (rule keepsI)
  fix s r t
  assume ret: "scp_put_loop E c tmo left s = Some (r, t)"
  have "kept s (snd (r, t))"
  proof (rule scp_put_loop.raw_induct [where P = "\<lambda>E c tmo left s y. kept s (snd y)", OF _ ret])
    fix f E c tmo and left :: "64 word" and s :: "('a, 'b) client_scheme" and y
    assume IH: "\<And>E c tmo left s y. f E c tmo left s = Some y \<Longrightarrow> kept s (snd y)"
      and body: "(if left = 0 then Some ((), s)
      else case call_ext (is_read E (min 4096 (unat left))) s of
        (None, s) \<Rightarrow> Some ((), raise True (stream_exn E) s)
      | (Some d, s) \<Rightarrow>
          if xsink s \<noteq> [] then Some ((), s)
          else if d = [] then Some ((), raise True ''SSH2CLIENT-SCPPUT-ERROR'' s)
          else
            do { (_, s) \<leftarrow> channel_write_all E c d 0 tmo s;
                 if xsink s \<noteq> [] then Some ((), s)
                 else f E c tmo (left - of_nat (length d)) s }) = Some y"
    obtain d u where c: "call_ext (is_read E (min 4096 (unat left))) s = (d, u)" by fastforce
    show "kept s (snd y)"
    proof (cases "left = 0 \<or> d = None \<or> d = Some [] \<or> xsink u \<noteq> []")
      case True
      with body c kept_call [OF c] kept_trans [OF kept_call [OF c] kept_raise(1)] show ?thesis
        by (cases d) (auto split: if_splits)
    next
      case False
      then obtain d' where d: "d = Some d'" by (cases d) auto
      with False body c obtain b v where w: "channel_write_all E c d' 0 tmo u = Some (b, v)"
        by (auto simp: Option.bind_eq_Some_conv)
      with False body c d IH have "kept v (snd y)" by (auto split: if_splits)
      then show ?thesis
        by (rule kept_trans [OF kept_trans [OF kept_call [OF c] keepsD [OF write_all.op_keeps w]]])
    qed
  qed
  then show "kept s t" by simp
qed

lemma keeps_bind:
  assumes "keeps f" and "\<And>r. keeps (g r)"
  shows "keeps (\<lambda>s. do { (r, s) \<leftarrow> f s; g r s })"
  by (rule keepsI)
    (auto simp: Option.bind_eq_Some_conv intro: kept_trans dest: keepsD [OF assms(1)] keepsD [OF assms(2)])

lemma keeps_ret: "(\<And>s. kept s (f s)) \<Longrightarrow> keeps (\<lambda>s. Some (r, f s))"
  by (auto intro: keepsI)

lemma keeps_if: "keeps f \<Longrightarrow> keeps g \<Longrightarrow> keeps (\<lambda>s. if b then f s else g s)"
  by (cases b) simp_all

lemma keeps_case: "keeps f \<Longrightarrow> (\<And>x. keeps (g x)) \<Longrightarrow> keeps (\<lambda>s. case v of None \<Rightarrow> f s | Some x \<Rightarrow> g x s)"
  by (cases v) auto

lemmas keeps_intros = keeps_bind keeps_ret keeps_if keeps_case kept_channel_destructor
  keeps_scp_get_loop keeps_scp_put_loop request.op_keeps open_channel.op_keeps kept_refl

interpretation scp_get: session_op "scpGet E path tmo" for E path tmo
  unfolding scpGet_def scpGetChannel_def sendEof_def waitClosed_def
  by unfold_locales (intro keeps_intros)

interpretation scp_put: session_op "scpPut E path sz mode mtime atime tmo" for E path sz mode mtime atime tmo
  unfolding scpPut_def scpPutChannel_def sendEof_def waitEof_def waitClosed_def
  by unfold_locales (intro keeps_intros)

section \<open>What the operations do\<close>

lemma blocking_sel [simp]:
  "xsink (BlockingHelper_ctor s) = xsink s" "xsink (BlockingHelper_dtor s) = xsink s"
  "world (BlockingHelper_ctor s) = world s" "world (BlockingHelper_dtor s) = world s"
  "channel_set (BlockingHelper_ctor s) = channel_set s" "channel_set (BlockingHelper_dtor s) = channel_set s"
  "next_id (BlockingHelper_ctor s) = next_id s" "chan_open (BlockingHelper_ctor s) = chan_open s"
  "chan_open (BlockingHelper_dtor s) = chan_open s" "listener_set (BlockingHelper_ctor s) = listener_set s"
  "listener_set (BlockingHelper_dtor s) = listener_set s"
  "ssh_session (BlockingHelper_ctor s) = ssh_session s"
  by (simp_all add: BlockingHelper_ctor_def BlockingHelper_dtor_def setBlockingUnlocked_def)

lemma blocking_disconnected [simp]:
  "is_disconnected (BlockingHelper_dtor s) = is_disconnected s"
  by (simp add: is_disconnected_def BlockingHelper_dtor_def setBlockingUnlocked_def)

lemma blocking_inv [simp]:
  "conn_inv (BlockingHelper_ctor s) = conn_inv s" "conn_inv (BlockingHelper_dtor s) = conn_inv s"
  by (simp_all add: BlockingHelper_ctor_def BlockingHelper_dtor_def setBlockingUnlocked_def conn_inv_def)

lemma not_eagain: "\<not> is_eagain v \<longleftrightarrow> (\<exists>n. v = Ret n)" "\<not> is_null_eagain p \<longleftrightarrow> p = NullErr \<or> (\<exists>h. p = Got h)"
  by (cases v; simp) (cases p; simp)

lemma retry_call_cases:
  assumes "retry_loop again (call_ext f) (waitSocketUnlocked E toerr err tmo None x) s = Some (v, t)"
  obtains r where "v = Some r" "\<not> again r" "io_step False s t"
  | "v = None" "io_step x (disc_state s) t" "x \<longrightarrow> length (xsink s) < length (xsink t)"
  using post_D [OF retry_wait_post assms] that by blast

lemma err_sel [simp]:
  "xsink (doSessionErrUnlocked s) = xsink s @ [''SSH2-ERROR'']" "channel_set (doSessionErrUnlocked s) = channel_set s"
  "chan_open (doSessionErrUnlocked s) = chan_open s" "world (doSessionErrUnlocked s) = world s"
  by (simp_all add: doSessionErrUnlocked_def raise_def)

text \<open>
  C16 (error). A request on a channel object that is closed only raises the error. On an open
  channel it reports success exactly when libssh2 did and nothing was raised, it raises
  exactly one exception when libssh2 failed, and in both cases the registered channels stay;
  when the wait for the socket fails it raises and the client is disconnected. The connection
  invariant holds afterwards in every case.
\<close>

theorem channel_request_outcome:
  assumes inv: "conn_inv s" and run: "channel_op E c req err bad tmo s = Some (rc, t)"
  shows "conn_inv t \<and>
    (if \<not> chan_open s c then rc = -1 \<and> t = s\<lparr>xsink := xsink s @ [''SSH2-CHANNEL-ERROR'']\<rparr>
     else (\<not> bad rc \<and> xsink t = xsink s \<and> channel_set t = channel_set s)
       \<or> (bad rc \<and> xsink t = xsink s @ [''SSH2-ERROR''] \<and> channel_set t = channel_set s)
       \<or> (rc = -1 \<and> length (xsink s) < length (xsink t) \<and> is_disconnected t))"
proof -
  have "conn_inv t" by (rule request.inv [OF inv run])
  moreover have "rc = -1 \<and> t = s\<lparr>xsink := xsink s @ [''SSH2-CHANNEL-ERROR'']\<rparr>" if "\<not> chan_open s c"
    using run that by (auto simp: channel_op_def check_open_def raise_def)
  moreover have "(\<not> bad rc \<and> xsink t = xsink s \<and> channel_set t = channel_set s)
       \<or> (bad rc \<and> xsink t = xsink s @ [''SSH2-ERROR''] \<and> channel_set t = channel_set s)
       \<or> (rc = -1 \<and> length (xsink s) < length (xsink t) \<and> is_disconnected t)" if "chan_open s c"
  proof -
    from run that obtain v u where l: "retry_loop is_eagain (call_ext (channel_request E c req))
        (channel_wait E err tmo) (BlockingHelper_ctor s) = Some (v, u)"
      and k: "(case v of
                 Some (Ret rc) \<Rightarrow>
                   Some (rc, BlockingHelper_dtor (if bad rc then doSessionErrUnlocked u else u))
               | _ \<Rightarrow> Some (-1, BlockingHelper_dtor u)) = Some (rc, t)"
      by (auto simp: channel_op_def check_open_def Option.bind_eq_Some_conv)
    from l [unfolded channel_wait_def] consider
        n where "v = Some (Ret n)" "io_step False (BlockingHelper_ctor s) u"
      | "v = None" "io_step True (disc_state (BlockingHelper_ctor s)) u"
        "length (xsink s) < length (xsink u)"
      by (rule retry_call_cases) (auto simp: not_eagain)
    then show ?thesis
    proof cases
      case 1
      with k have "xsink u = xsink s" "channel_set u = channel_set s"
        using io_step_xsink(2) core_eq_sel(28) [OF io_step_core] by fastforce+
      with 1 k show ?thesis by (auto split: if_splits)
    next
      case 2
      with k have "is_disconnected u" using disc_step(1) [OF _ 2(2)] inv by simp
      with 2 k show ?thesis by auto
    qed
  qed
  ultimately show ?thesis by simp
qed

theorem channel_request_outcome_witness:
  "let s = client_up\<lparr>channel_set := [0], chan_open := (\<lambda>c. c = 0), next_id := 1\<rparr>
   in case channel_op tenv 0 ReqShell ''SSH2CHANNEL-SHELL-ERROR'' (\<lambda>rc. rc \<noteq> 0) 100 s of
        None \<Rightarrow> False | Some (rc, t) \<Rightarrow> conn_inv t"
proof -
  let ?s = "client_up\<lparr>channel_set := [0], chan_open := (\<lambda>c. c = 0), next_id := 1\<rparr>"
  have "map_option (\<lambda>_. ()) (channel_op tenv 0 ReqShell ''SSH2CHANNEL-SHELL-ERROR'' (\<lambda>rc. rc \<noteq> 0) 100 ?s) = Some ()"
    by code_simp
  then obtain rc t where r: "channel_op tenv 0 ReqShell ''SSH2CHANNEL-SHELL-ERROR'' (\<lambda>rc. rc \<noteq> 0) 100 ?s = Some (rc, t)"
    by fastforce
  moreover have "conn_inv ?s" by (simp add: conn_inv_def example_defs)
  ultimately show ?thesis using channel_request_outcome [of ?s tenv 0] by (simp add: Let_def)
qed

text \<open>
  C17 (functional). Opening a channel on a connected client: success registers exactly one new
  open channel under a fresh number and raises nothing; a failure raises, and either leaves
  the registered channels as they were or has disconnected the client.
\<close>

theorem open_channel_outcome:
  assumes inv: "conn_inv s" and run: "open_connected E call err tmo registerChannelUnlocked s = Some (r, t)"
  shows "conn_inv t \<and>
    (case r of
       Some c \<Rightarrow> \<not> chan_open s c \<and> chan_open t = (chan_open s)(c := True)
         \<and> channel_set t = channel_set s @ [c] \<and> xsink t = xsink s
     | None \<Rightarrow> length (xsink s) < length (xsink t) \<and> (channel_set t = channel_set s \<or> is_disconnected t))"
proof -
  have i: "conn_inv t" by (rule open_channel.inv [OF inv run])
  show ?thesis
  proof (cases "sshConnectedUnlocked s")
    case False
    with run i show ?thesis by (auto simp: open_connected_def raise_def)
  next
    case True
    with run obtain v u where l: "retry_loop is_null_eagain (call_ext call)
        (waitSocketUnlocked E ''SSH2CLIENT-TIMEOUT'' err tmo None True) (BlockingHelper_ctor s) = Some (v, u)"
      and k: "(case v of
            Some (Got h) \<Rightarrow> (case registerChannelUnlocked h u of (x, s) \<Rightarrow> Some (Some x, BlockingHelper_dtor s))
          | Some _ \<Rightarrow> Some (None, BlockingHelper_dtor (doSessionErrUnlocked u))
          | None \<Rightarrow> Some (None, BlockingHelper_dtor u)) = Some (r, t)"
      by (auto simp: open_connected_def open_with_def Option.bind_eq_Some_conv)
    have u: "xsink u = xsink s \<and> channel_set u = channel_set s \<and> chan_open u = chan_open s \<and> next_id u = next_id s"
      if "io_step False (BlockingHelper_ctor s) u"
      using io_step_xsink(2) [OF that] core_eq_sel(28,37,39) [OF io_step_core [OF that]] by simp
    have fresh: "\<not> chan_open s (next_id s)" using inv by (auto simp: conn_inv_def)
    from l consider
        h where "v = Some (Got h)" "io_step False (BlockingHelper_ctor s) u"
      | "v = Some NullErr" "io_step False (BlockingHelper_ctor s) u"
      | "v = None" "io_step True (disc_state (BlockingHelper_ctor s)) u" "length (xsink s) < length (xsink u)"
      by (rule retry_call_cases) (auto simp: not_eagain)
    then show ?thesis
    proof cases
      case 1
      with k u fresh i show ?thesis
        by (auto simp: registerChannelUnlocked_def registerChannelUnlockedRaw_def Let_def)
    next
      case 2
      with k u i show ?thesis by auto
    next
      case 3
      then have "is_disconnected u" using disc_step(1) [OF _ 3(2)] inv by simp
      with 3 k i show ?thesis by auto
    qed
  qed
qed

theorem open_channel_outcome_witness:
  "map_option fst (openSessionChannel tenv 100 client_up) = Some (Some 0) \<and>
   (\<exists>t. openSessionChannel tenv 100 client_up = Some (Some 0, t) \<and> conn_inv t \<and> channel_set t = [0])"
proof -
  have r: "map_option fst (openSessionChannel tenv 100 client_up) = Some (Some 0)" by code_simp
  then obtain t where t: "openSessionChannel tenv 100 client_up = Some (Some 0, t)" by fastforce
  have e: "conn_inv client_up" "channel_set client_up = []" by (simp_all add: conn_inv_def example_defs)
  from open_channel_outcome [OF e(1) t [unfolded openSessionChannel_def]] e(2) t r show ?thesis by simp
qed

end
