(* ===== verification/Ssh2_Transfer.thy ===== *)
theory Ssh2_Transfer
  imports Ssh2_Channel
begin

text \<open>
  The data that goes through a channel (\<open>read()\<close>, \<open>readBinary()\<close> and \<open>write()\<close> of
  \<open>src/src/SSH2Channel.cpp\<close>): what is sent and received when the library counts its bytes
  correctly, and what the loops do when it reports an error.
\<close>

section \<open>Transferred data\<close>

text \<open>
  What the data operations rely on of libssh2: \<open>sent\<close> is the data the library has taken for
  the channel's stream. A write that returns a count takes that many bytes, a write that would
  block and a wait take none. A read returns at most the bytes asked for, and \<open>rcvd\<close> is what
  has been read. Both may fail with an error, but not for ever: an error makes \<open>m\<close>, the
  measure of what is still to happen outside, fall.
\<close>

definition writes_counted :: "('w \<Rightarrow> nat) \<Rightarrow> ('w \<Rightarrow> string) \<Rightarrow> ('w, 's) env \<Rightarrow> nat \<Rightarrow> int \<Rightarrow> bool" where
  "writes_counted m sent E c stream \<longleftrightarrow>
     (\<forall>d w. case channel_write E c stream d w of
        (Ret n, w') \<Rightarrow>
          if n < 0 then m w' < m w else n \<le> int (length d) \<and> sent w' = sent w @ take (nat n) d
      | (Eagain, w') \<Rightarrow> sent w' = sent w)
     \<and> (\<forall>tmo rd wr w. sent (snd (async_io_wait E tmo rd wr w)) = sent w)"

definition reads_counted :: "('w \<Rightarrow> nat) \<Rightarrow> ('w \<Rightarrow> string) \<Rightarrow> ('w, 's) env \<Rightarrow> nat \<Rightarrow> int \<Rightarrow> bool" where
  "reads_counted m rcvd E c stream \<longleftrightarrow>
     (\<forall>n w. case channel_read E c stream n w of
        (RdData d, w') \<Rightarrow> length d \<le> n \<and> rcvd w' = rcvd w @ d
      | (RdEagain, w') \<Rightarrow> rcvd w' = rcvd w
      | (RdErr e, w') \<Rightarrow> m w' < m w \<and> rcvd w' = rcvd w)
     \<and> (\<forall>tmo rd wr w. rcvd (snd (async_io_wait E tmo rd wr w)) = rcvd w)"

text \<open>A hard error of a write.\<close>

definition write_fails :: "('w, 's) env \<Rightarrow> nat \<Rightarrow> int \<Rightarrow> bool" where
  "write_fails E c stream \<longleftrightarrow> (\<exists>d w n w'. channel_write E c stream d w = (Ret n, w') \<and> n < 0)"

lemma raw_wait_cases:
  assumes "raw_wait E err tmo s = (ready, t)" and "settling m E"
    and "\<And>tmo rd wr w. obs (snd (async_io_wait E tmo rd wr w)) = obs w"
  shows "core t = core s \<and> obs (world t) = obs (world s) \<and>
    (if ready then xsink t = xsink s \<and> m (world t) < m (world s)
     else \<exists>x \<in> {''SSH2CHANNEL-TIMEOUT'', err}. xsink t = xsink s @ [x])"
proof -
  obtain rc u where w: "waitSocketRaw E tmo s = (rc, u)" by fastforce
  have "core u = core s" "xsink u = xsink s"
    using waitSocketRaw_io [OF w, of False] by (auto simp: io_step_def)
  moreover have "obs (world u) = obs (world s)"
    using w assms(3) by (auto simp: waitSocketRaw_def call_ext_eq_pair split: prod.splits)
  moreover have "0 < rc \<Longrightarrow> m (world u) < m (world s)" by (rule waitSocketRaw_settles [OF assms(2) w])
  ultimately show ?thesis using assms(1) w
    by (auto simp: raw_wait_def raise_def split: if_splits)
qed

text \<open>One call that makes progress: bytes are taken, or a hard error is reported.\<close>

lemma write_some_sends:
  assumes live: "settling m E" "\<And>d. quiet m (channel_write E c stream d)"
    and counted: "writes_counted m sent E c stream"
  shows "\<exists>r t. write_some E c stream tmo data s = Some (r, t) \<and>
    (case r of
       None \<Rightarrow> sent (world t) = sent (world s)
         \<and> (\<exists>x \<in> {''SSH2CHANNEL-TIMEOUT'', ''SSH2CHANNEL-WRITE-ERROR''}. xsink t = xsink s @ [x])
     | Some n \<Rightarrow> n \<noteq> 0 \<and> m (world t) \<le> m (world s) \<and> xsink t = xsink s \<and>
         (if n < 0 then m (world t) < m (world s) \<and> write_fails E c stream
          else n \<le> int (length data) \<and> sent (world t) = sent (world s) @ take (nat n) data))"
proof (induction "m (world s)" arbitrary: s rule: less_induct)
  case less
  obtain r u where c: "call_ext (channel_write E c stream data) s = (r, u)" by fastforce
  obtain ready v where w: "raw_wait E ''SSH2CHANNEL-WRITE-ERROR'' tmo u = (ready, v)" by fastforce
  have obs: "sent (snd (async_io_wait E tmo rd wr w)) = sent w" for tmo rd wr w
    using counted by (simp add: writes_counted_def)
  note wait = raw_wait_cases [where obs = sent, OF w live(1) obs]
  have u: "m (world u) \<le> m (world s)" "xsink u = xsink s"
    using quiet_call [OF live(2) c] io_step_xsink(2) [OF io_step_call [OF c]] by simp_all
  have "case channel_write E c stream data (world s) of
      (Ret n, w') \<Rightarrow> if n < 0 then m w' < m (world s)
        else n \<le> int (length data) \<and> sent w' = sent (world s) @ take (nat n) data
    | (Eagain, w') \<Rightarrow> sent w' = sent (world s)"
    using counted by (simp add: writes_counted_def)
  with c have r: "case r of
      Ret n \<Rightarrow> if n < 0 then m (world u) < m (world s) \<and> write_fails E c stream
        else n \<le> int (length data) \<and> sent (world u) = sent (world s) @ take (nat n) data
    | Eagain \<Rightarrow> sent (world u) = sent (world s)"
    by (auto simp: call_ext_eq_pair write_fails_def split: prod.splits lrc.splits)
  show ?case
  proof (cases "\<exists>n. r = Ret n \<and> n \<noteq> 0")
    case True
    with c r u show ?thesis by (subst write_some.simps) auto
  next
    case False
    then have nop: "sent (world u) = sent (world s)" using r by (cases r) auto
    have step: "write_some E c stream tmo data s =
        (if \<not> ready then Some (None, v) else write_some E c stream tmo data v)"
      using False c w by (subst write_some.simps) (auto split: lrc.splits)
    show ?thesis
    proof (cases ready)
      case True
      then have v: "m (world v) < m (world s)" and e: "sent (world v) = sent (world s)" "xsink v = xsink s"
        using wait u nop by simp_all
      from less [OF v, unfolded e] obtain r t where "write_some E c stream tmo data v = Some (r, t)"
        "case r of
           None \<Rightarrow> sent (world t) = sent (world s)
             \<and> (\<exists>x \<in> {''SSH2CHANNEL-TIMEOUT'', ''SSH2CHANNEL-WRITE-ERROR''}. xsink t = xsink s @ [x])
         | Some n \<Rightarrow> n \<noteq> 0 \<and> m (world t) \<le> m (world v) \<and> xsink t = xsink s \<and>
             (if n < 0 then m (world t) < m (world v) \<and> write_fails E c stream
              else n \<le> int (length data) \<and> sent (world t) = sent (world s) @ take (nat n) data)" by blast
      with step True v show ?thesis by (auto split: option.splits)
    next
      case False
      with step wait nop u show ?thesis by simp
    qed
  qed
qed

lemma unat_of_nat64: "n < 2 ^ 64 \<Longrightarrow> unat (of_nat n :: 64 word) = n"
  by (simp add: unat_of_nat)

text \<open>
  What a write of \<open>data\<close> promises: \<open>ys\<close> are the exceptions raised. Without a hard error the
  data was sent, or one wait failed and a proper prefix was sent.
\<close>

definition write_outcome ::
  "('w \<Rightarrow> string) \<Rightarrow> 64 word \<Rightarrow> string \<Rightarrow> bool \<Rightarrow> 'w \<Rightarrow> string list \<Rightarrow> 64 word \<Rightarrow> 'w \<Rightarrow> bool" where
  "write_outcome sent len data failed w ys r w' \<longleftrightarrow>
     (if ''SSH2-ERROR'' \<in> set ys then failed
      else if ys = [] then r = len \<and> sent w' = sent w @ data
      else r = -1 \<and> length ys = 1 \<and> (\<exists>k < length data. sent w' = sent w @ take k data))"

lemma write_outcome_append:
  assumes "write_outcome sent len data failed w ys r w'" "sent w = sent v @ pre"
  shows "write_outcome sent len (pre @ data) failed v ys r w'"
proof -
  have "\<exists>j < length (pre @ data). sent w @ take k data = sent v @ take j (pre @ data)" if "k < length data" for k
    using that assms(2) by (intro exI [of _ "length pre + k"]) simp
  with assms show ?thesis by (fastforce simp: write_outcome_def split: if_splits)
qed

lemma write_loop_sends:
  assumes live: "settling m E" "\<And>d. quiet m (channel_write E c stream d)"
    and counted: "writes_counted m sent E c stream"
    and size: "length buf < 2 ^ 64" and pos: "unat b_sent < length buf"
  shows "\<exists>r t ys. write_loop E c stream tmo buf b_sent s = Some (r, t) \<and> xsink t = xsink s @ ys \<and>
    write_outcome sent (of_nat (length buf)) (drop (unat b_sent) buf) (write_fails E c stream) (world s) ys r (world t)"
  using pos
proof (induction "(m (world s), length buf - unat b_sent)" arbitrary: b_sent s
    rule: wf_induct_rule [OF wf_lex_prod [OF wf_less wf_less]])
  case 1
  let ?data = "drop (unat b_sent) buf" and ?out = "write_outcome sent (of_nat (length buf))"
  from write_some_sends [OF live counted, of tmo ?data s] obtain r t where
    w: "write_some E c stream tmo ?data s = Some (r, t)" and
    p: "case r of
       None \<Rightarrow> sent (world t) = sent (world s)
         \<and> (\<exists>x \<in> {''SSH2CHANNEL-TIMEOUT'', ''SSH2CHANNEL-WRITE-ERROR''}. xsink t = xsink s @ [x])
     | Some n \<Rightarrow> n \<noteq> 0 \<and> m (world t) \<le> m (world s) \<and> xsink t = xsink s \<and>
         (if n < 0 then m (world t) < m (world s) \<and> write_fails E c stream
          else n \<le> int (length ?data) \<and> sent (world t) = sent (world s) @ take (nat n) ?data)" by blast
  show ?case
  proof (cases r)
    case None
    with w p 1(2) show ?thesis
      by (subst write_loop.simps) (auto simp: write_outcome_def intro!: exI [of _ 0])
  next
    case (Some n)
    define b where "b = b_sent + word_of_int n"
    define u where "u = (if n < 0 then doSessionErrUnlocked t else t)"
    have u: "world u = world t" "xsink u = xsink s @ (if n < 0 then [''SSH2-ERROR''] else [])"
      using p Some by (simp_all add: u_def doSessionErrUnlocked_def raise_def)
    have step: "write_loop E c stream tmo buf b_sent s =
        (if length buf \<le> unat b then Some (b, u) else write_loop E c stream tmo buf b u)"
      using w Some size
      by (subst write_loop.simps) (simp add: Let_def b_def [symmetric] u_def [symmetric] word_le_nat_alt unat_of_nat64)
    show ?thesis
    proof (cases "n < 0")
      case True
      then have f: "m (world u) < m (world s)" "write_fails E c stream" using p Some u by simp_all
      show ?thesis
      proof (cases "length buf \<le> unat b")
        case True
        with step f(2) u \<open>n < 0\<close> show ?thesis by (simp add: write_outcome_def)
      next
        case False
        with 1(1) [of u b] f(1) obtain r' t' ys where "write_loop E c stream tmo buf b u = Some (r', t')"
          "xsink t' = xsink u @ ys" by fastforce
        with step False u \<open>n < 0\<close> f(2) show ?thesis
          by (auto simp: write_outcome_def intro!: exI [of _ "''SSH2-ERROR'' # ys"])
      qed
    next
      case pos: False
      then have n: "0 < n" "nat n \<le> length buf - unat b_sent" "sent (world u) = sent (world s) @ take (nat n) ?data"
        "xsink u = xsink s" "m (world u) \<le> m (world s)" using p Some u by auto
      have "unat (of_nat (nat n) :: 64 word) = nat n" using n(2) size by (simp add: unat_of_nat64)
      moreover have "word_of_int n = (of_nat (nat n) :: 64 word)" using n(1) by simp
      ultimately have b: "unat b = unat b_sent + nat n"
        unfolding b_def using n(2) 1(2) size by (simp add: unat_add_lem [THEN iffD1])
      have cut: "take (nat n) ?data @ drop (unat b) buf = ?data"
        unfolding b by (metis append_take_drop_id drop_drop add.commute)
      show ?thesis
      proof (cases "length buf \<le> unat b")
        case True
        with b n(2) 1(2) have e: "unat b = length buf" by linarith
        then have "b = of_nat (length buf)" by (metis of_nat_unat ucast_id)
        with True step n cut e show ?thesis by (auto simp: write_outcome_def intro!: exI [of _ "[]"])
      next
        case False
        then have "length buf - unat b < length buf - unat b_sent" using b n by simp
        with False 1(1) [of u b] n(5) obtain r' t' ys where run: "write_loop E c stream tmo buf b u = Some (r', t')"
          "xsink t' = xsink u @ ys" "?out (drop (unat b) buf) (write_fails E c stream) (world u) ys r' (world t')"
          by (auto simp: le_less)
        from write_outcome_append [OF run(3) n(3)] run(1,2) step False n(4) cut show ?thesis by auto
      qed
    qed
  qed
qed

text \<open>
  C18 (liveness). \<open>write()\<close> on an open channel, with a library that counts what it takes and
  neither asks to wait nor fails for ever, returns. The exceptions it raised tell what happened:
  without one, the whole buffer was sent, in order and once, and its length is the result; with
  one of a failed wait alone, the result is -1 and a proper prefix of the buffer was sent; a
  third outcome is possible only when libssh2 reports a hard error, and then \<open>SSH2-ERROR\<close> is
  among the exceptions.
\<close>

theorem channel_write_sends:
  assumes "settling m E" "\<forall>d. quiet m (channel_write E c stream d)" "writes_counted m sent E c stream"
    and "chan_open s c" and "0 < length buf" "length buf < 2 ^ 64"
  shows "\<exists>r t ys. channel_write_all E c buf stream tmo s = Some (r, t) \<and> xsink t = xsink s @ ys \<and>
    (if ''SSH2-ERROR'' \<in> set ys then write_fails E c stream
     else if ys = [] then r = of_nat (length buf) \<and> sent (world t) = sent (world s) @ buf
     else r = -1 \<and> length ys = 1 \<and> (\<exists>k < length buf. sent (world t) = sent (world s) @ take k buf))"
proof -
  have q: "\<And>d. quiet m (channel_write E c stream d)" using assms(2) by blast
  obtain r t ys where run: "write_loop E c stream tmo buf 0 (BlockingHelper_ctor s) = Some (r, t)"
    and p: "xsink t = xsink s @ ys"
      "write_outcome sent (of_nat (length buf)) buf (write_fails E c stream) (world s) ys r (world t)"
    using write_loop_sends [OF assms(1) q assms(3,6), of 0 tmo "BlockingHelper_ctor s"] assms(5) by auto
  then have "channel_write_all E c buf stream tmo s = Some (r, BlockingHelper_dtor t)"
    using assms(4) by (simp add: channel_write_all_def check_open_def with_blocking_helper_def)
  with p show ?thesis unfolding write_outcome_def by auto
qed

definition sent0 :: "tworld \<Rightarrow> string" where "sent0 w = concat (log w)"

text \<open>A library that takes two bytes at a time, after a hard error when something is pending.\<close>

definition env_write :: "(tworld, tworld client) env" where
  "env_write = env0\<lparr>channel_write := (\<lambda>_ _ d w. if pending w > 1 then (Eagain, w)
     else if pending w = 1 then (Ret (-1), w\<lparr>pending := 0\<rparr>)
     else (Ret (int (min 2 (length d))), logged (take 2 d) w))\<rparr>"

definition client_chan :: "tworld client" where
  "client_chan = client_up\<lparr>channel_set := [0], chan_open := (\<lambda>c. c = 0), next_id := 1,
     world := \<lparr>pending = 1, log = []\<rparr>\<rparr>"

lemma client_chan_ok: "conn_inv client_chan" "chan_open client_chan 0"
  by (simp_all add: client_chan_def conn_inv_def example_defs)

lemma env_write_ok:
  "settling pending env_write" "\<forall>d. quiet pending (channel_write env_write 0 0 d)"
  "writes_counted pending sent0 env_write 0 0"
proof -
  show "settling pending env_write"
    using settling_env0 [where 's = "tworld client"] by (simp add: env_write_def settling_def)
  show "\<forall>d. quiet pending (channel_write env_write 0 0 d)"
    by (simp add: env_write_def quiet_def logged_def)
  show "writes_counted pending sent0 env_write 0 0"
    by (auto simp: writes_counted_def env_write_def env0_def sent0_def logged_def wait0_def min_def)
qed

theorem channel_write_sends_witness:
  "\<exists>r t ys. channel_write_all env_write 0 ''hello'' 0 100 client_chan = Some (r, t) \<and> xsink t = xsink client_chan @ ys \<and>
    (if ''SSH2-ERROR'' \<in> set ys then write_fails env_write 0 0
     else if ys = [] then r = of_nat (length ''hello'') \<and> sent0 (world t) = sent0 (world client_chan) @ ''hello''
     else r = -1 \<and> length ys = 1 \<and>
       (\<exists>k < length ''hello''. sent0 (world t) = sent0 (world client_chan) @ take k ''hello''))"
  by (rule channel_write_sends [OF env_write_ok]) (simp_all add: client_chan_ok)

text \<open>A hard error: the loop goes on from the position less the error code.\<close>

lemma write_loop_error:
  assumes "channel_write E c stream (drop (unat b) buf) (world s) = (Ret (- int k), w)"
    and "0 < k" "k \<le> unat b" "unat b < length buf" "length buf < 2 ^ 64"
  shows "write_loop E c stream tmo buf b s =
    write_loop E c stream tmo buf (b - of_nat k) (raise True ''SSH2-ERROR'' (s\<lparr>world := w\<rparr>))"
proof -
  have "unat (b - of_nat k) = unat b - k"
    using assms(3,4,5) by (simp add: unat_sub_if' unat_of_nat64)
  moreover have "\<not> length buf \<le> unat b - k" using assms(4) by simp
  ultimately show ?thesis using assms
    by (subst write_loop.simps, subst write_some.simps)
      (simp add: call_ext_def doSessionErrUnlocked_def word_le_nat_alt unat_of_nat64 Let_def)
qed

lemma write_loop_takes:
  assumes "channel_write E c stream (drop (unat b) buf) (world s) = (Ret (int n), w)"
    and "0 < n" "unat b + n \<le> length buf" "length buf < 2 ^ 64"
  shows "write_loop E c stream tmo buf b s = (if unat b + n = length buf then Some (of_nat (length buf), s\<lparr>world := w\<rparr>)
     else write_loop E c stream tmo buf (b + of_nat n) (s\<lparr>world := w\<rparr>))"
proof -
  have "unat (of_nat n :: 64 word) = n" using assms by (simp add: unat_of_nat64)
  then have b: "unat (b + of_nat n) = unat b + n" using assms(3,4) by (simp add: unat_add_lem [THEN iffD1])
  then have "unat b + n = length buf \<Longrightarrow> b + of_nat n = of_nat (length buf)" by (metis of_nat_unat ucast_id)
  with b assms show ?thesis
    by (subst write_loop.simps, subst write_some.simps)
      (auto simp: call_ext_def word_le_nat_alt unat_of_nat64)
qed

text \<open>
  C29 (error). After a hard error of libssh2 \<open>write()\<close> does not stop: the error code is
  subtracted from the count of sent bytes, and the next call starts that much earlier. When
  \<open>n\<close> bytes were taken, the next call fails with the code \<open>-k\<close> and the one after it takes what it
  is given, then the last \<open>k\<close> of the \<open>n\<close> bytes go out a second time; the caller gets an exception
  and the full length as the result.
\<close>

theorem channel_write_error_resends:
  assumes "chan_open s c" "writes_counted m sent E c stream" "n < length buf" "length buf < 2 ^ 64" "0 < k" "k \<le> n"
    and "channel_write E c stream buf (world s) = (Ret (int n), w1)"
    and "channel_write E c stream (drop n buf) w1 = (Ret (- int k), w2)" "sent w2 = sent w1"
    and "channel_write E c stream (drop (n - k) buf) w2 = (Ret (int (length buf - (n - k))), w3)"
  shows "\<exists>t. channel_write_all E c buf stream tmo s = Some (of_nat (length buf), t)
     \<and> xsink t = xsink s @ [''SSH2-ERROR'']
     \<and> sent (world t) = sent (world s) @ take n buf @ take k (drop (n - k) buf) @ drop n buf"
proof -
  let ?s = "BlockingHelper_ctor s"
  have un: "unat (of_nat j :: 64 word) = j" if "j \<le> length buf" for j
    using that assms(4) by (simp add: unat_of_nat64)
  have nk: "(of_nat n - of_nat k :: 64 word) = of_nat (n - k)" using assms(6) by (simp add: of_nat_diff)
  let ?u = "raise True ''SSH2-ERROR'' (?s\<lparr>world := w2\<rparr>)"
  have "write_loop E c stream tmo buf 0 ?s = write_loop E c stream tmo buf (of_nat n) (?s\<lparr>world := w1\<rparr>)"
    using write_loop_takes [of E c stream 0 buf ?s n w1 tmo] assms by simp
  also have "\<dots> = write_loop E c stream tmo buf (of_nat n - of_nat k) (raise True ''SSH2-ERROR'' (?s\<lparr>world := w1, world := w2\<rparr>))"
    by (rule write_loop_error) (use assms(3-6,8) in \<open>simp_all add: un\<close>)
  also have "\<dots> = write_loop E c stream tmo buf (of_nat (n - k)) ?u" by (simp only: nk) simp
  also have "\<dots> = Some (of_nat (length buf), ?u\<lparr>world := w3\<rparr>)"
  proof -
    have 1: "unat (of_nat (n - k) :: 64 word) = n - k" using assms(3) by (intro un) simp
    have 2: "n - k + (length buf - (n - k)) = length buf" using assms(3) by simp
    have w: "world ?u = w2" by (simp add: raise_def)
    have "channel_write E c stream (drop (unat (of_nat (n - k) :: 64 word)) buf) (world ?u) = (Ret (int (length buf - (n - k))), w3)"
      unfolding 1 w by (rule assms(10))
    from write_loop_takes [OF this _ _ assms(4), of tmo] show ?thesis unfolding 1 2 using assms(3) by simp
  qed
  finally have run: "channel_write_all E c buf stream tmo s = Some (of_nat (length buf), BlockingHelper_dtor (?u\<lparr>world := w3\<rparr>))"
    using assms(1) by (simp add: channel_write_all_def check_open_def with_blocking_helper_def)
  have took: "sent w' = sent w @ take j d" if "channel_write E c stream d w = (Ret (int j), w')" for d w j w'
  proof -
    have "case channel_write E c stream d w of
        (Ret n, w') \<Rightarrow> if n < 0 then m w' < m w else n \<le> int (length d) \<and> sent w' = sent w @ take (nat n) d
      | (Eagain, w') \<Rightarrow> sent w' = sent w"
      using assms(2) by (simp add: writes_counted_def)
    with that show ?thesis by simp
  qed
  from took [OF assms(7)] took [OF assms(10)]
  have "sent w1 = sent (world s) @ take n buf" "sent w3 = sent w2 @ drop (n - k) buf" by simp_all
  moreover have "drop (n - k) buf = take k (drop (n - k) buf) @ drop n buf"
    using assms(6) by (metis append_take_drop_id drop_drop le_add_diff_inverse2 add.commute)
  ultimately show ?thesis using run assms(9) by simp
qed

definition env_write_err :: "(tworld, tworld client) env" where
  "env_write_err = env0\<lparr>channel_write := (\<lambda>_ _ d w.
     if length (log w) = 1 \<and> pending w > 0 then (Ret (-3), w\<lparr>pending := 0\<rparr>)
     else (Ret (int (length (take (if log w = [] then 5 else 8) d))), logged (take (if log w = [] then 5 else 8) d) w))\<rparr>"

theorem channel_write_error_resends_witness:
  "\<exists>t. channel_write_all env_write_err 0 ''abcdefgh'' 0 100 client_chan = Some (of_nat (length ''abcdefgh''), t)
     \<and> xsink t = xsink client_chan @ [''SSH2-ERROR'']
     \<and> sent0 (world t) = sent0 (world client_chan) @ take 5 ''abcdefgh'' @ take 3 (drop (5 - 3) ''abcdefgh'') @ drop 5 ''abcdefgh''"
proof (rule channel_write_error_resends)
  show "writes_counted pending sent0 env_write_err 0 0"
    by (auto simp: writes_counted_def env_write_err_def env0_def sent0_def logged_def wait0_def min_def)
  show "channel_write env_write_err 0 0 ''abcdefgh'' (world client_chan) = (Ret (int 5), \<lparr>pending = 1, log = [''abcde'']\<rparr>)"
    "channel_write env_write_err 0 0 (drop 5 ''abcdefgh'') \<lparr>pending = 1, log = [''abcde'']\<rparr> =
       (Ret (- int 3), \<lparr>pending = 0, log = [''abcde'']\<rparr>)"
    "channel_write env_write_err 0 0 (drop (5 - 3) ''abcdefgh'') \<lparr>pending = 0, log = [''abcde'']\<rparr> =
       (Ret (int (length ''abcdefgh'' - (5 - 3))), \<lparr>pending = 0, log = [''abcde'', ''cdefgh'']\<rparr>)"
    by (simp_all add: env_write_err_def client_chan_def logged_def)
qed (simp_all add: client_chan_ok sent0_def)

lemma read_block_reads:
  assumes live: "settling m E" "\<And>n. quiet m (channel_read E c stream n)"
    and counted: "reads_counted m rcvd E c stream" and pos: "unat b_read < unat sz"
  shows "\<exists>r t d. read_block E c stream tmo sz b_read (sz - b_read) acc s = Some (r, t) \<and>
    rcvd (world t) = rcvd (world s) @ d \<and>
    (case r of Some a \<Rightarrow> a = acc @ d \<and> length d = unat sz - unat b_read \<and> xsink t = xsink s
       | None \<Rightarrow> length d < unat sz - unat b_read \<and> (\<exists>x. xsink t = xsink s @ [x]))"
  using pos
proof (induction "(unat sz - unat b_read, m (world s))" arbitrary: b_read acc s
    rule: wf_induct_rule [OF wf_lex_prod [OF wf_less wf_less]])
  case 1
  define to_read :: "64 word" where
    "to_read = (if of_nat QSSH2_BUFSIZE < sz - b_read then of_nat QSSH2_BUFSIZE else sz - b_read)"
  have rem: "unat (sz - b_read) = unat sz - unat b_read"
    using 1(2) by (simp add: unat_sub word_le_nat_alt less_imp_le)
  have le: "unat to_read \<le> unat sz - unat b_read"
    using rem by (auto simp: to_read_def word_less_nat_alt)
  obtain r u where c: "call_ext (channel_read E c stream (unat to_read)) s = (r, u)" by fastforce
  obtain ready v where w: "raw_wait E ''SSH2CHANNEL-TIMEOUT'' tmo u = (ready, v)" by fastforce
  have obs: "rcvd (snd (async_io_wait E tmo rd wr w)) = rcvd w" for tmo rd wr w
    using counted by (simp add: reads_counted_def)
  note wait = raw_wait_cases [where obs = rcvd, OF w live(1) obs]
  have u: "m (world u) \<le> m (world s)" "xsink u = xsink s"
    using quiet_call [OF live(2) c] io_step_xsink(2) [OF io_step_call [OF c]] by simp_all
  have "case channel_read E c stream (unat to_read) (world s) of
        (RdData d, w') \<Rightarrow> length d \<le> unat to_read \<and> rcvd w' = rcvd (world s) @ d
      | (RdEagain, w') \<Rightarrow> rcvd w' = rcvd (world s)
      | (RdErr e, w') \<Rightarrow> m w' < m (world s) \<and> rcvd w' = rcvd (world s)"
    using counted by (simp add: reads_counted_def)
  with c have r: "case r of RdData d \<Rightarrow> length d \<le> unat to_read \<and> rcvd (world u) = rcvd (world s) @ d
      | RdEagain \<Rightarrow> rcvd (world u) = rcvd (world s)
      | RdErr e \<Rightarrow> m (world u) < m (world s) \<and> rcvd (world u) = rcvd (world s)"
    by (auto simp: call_ext_eq_pair split: prod.splits rd.splits)
  consider (data) d where "r = RdData d" "d \<noteq> []" | (error) e where "r = RdErr e"
    | (wait) "r = RdData [] \<or> r = RdEagain" by (cases r) auto
  then show ?case
  proof cases
    case d: (data d)
    define b where "b = b_read + of_nat (length d)"
    have n: "length d \<le> unat sz - unat b_read" "rcvd (world u) = rcvd (world s) @ d" using r d le by auto
    have "unat sz < 2 ^ LENGTH(64)" by (rule unsigned_less)
    then have "unat b_read + length d < 2 ^ 64" using n(1) 1(2) by simp
    then have b: "unat b = unat b_read + length d"
      unfolding b_def by (simp add: unat_word_ariths unat_of_nat)
    have rest: "sz - b_read - of_nat (length d) = sz - b" by (simp add: b_def)
    have "read_block E c stream tmo sz b_read (sz - b_read) acc s =
        (if unat sz \<le> unat b then Some (Some (acc @ d), u)
         else read_block E c stream tmo sz b (sz - b_read - of_nat (length d)) (acc @ d) u)"
      using c d
      by (subst read_block.simps) (simp add: Let_def to_read_def [symmetric] b_def [symmetric] word_le_nat_alt)
    note step = this [unfolded rest]
    show ?thesis
    proof (cases "unat sz \<le> unat b")
      case True
      with step n b u show ?thesis by auto
    next
      case False
      moreover have "0 < length d" using d by simp
      ultimately have "unat sz - unat b < unat sz - unat b_read" using b by linarith
      with False 1(1) [of b u "acc @ d"] obtain r' t d' where
        run: "read_block E c stream tmo sz b (sz - b) (acc @ d) u = Some (r', t)"
        and p: "rcvd (world t) = rcvd (world u) @ d'" "case r' of Some a \<Rightarrow> a = (acc @ d) @ d' \<and>
          length d' = unat sz - unat b \<and> xsink t = xsink u
       | None \<Rightarrow> length d' < unat sz - unat b \<and> (\<exists>x. xsink t = xsink u @ [x])" by auto
      show ?thesis
        by (rule exI [of _ r'], rule exI [of _ t], rule exI [of _ "d @ d'"])
          (use step False run p n b u in \<open>auto split: option.splits\<close>)
    qed
  next
    case error
    with r have e: "m (world u) < m (world s)" "rcvd (world u) = rcvd (world s)" by auto
    have "read_block E c stream tmo sz b_read (sz - b_read) acc s = read_block E c stream tmo sz b_read (sz - b_read) acc u"
      using c error by (subst read_block.simps) (simp add: Let_def to_read_def [symmetric])
    with 1(1) [of b_read u acc, unfolded e(2) u(2)] e(1) 1(2) show ?thesis by simp
  next
    case wait_case: wait
    then have nop: "rcvd (world u) = rcvd (world s)" using r by auto
    have step: "read_block E c stream tmo sz b_read (sz - b_read) acc s =
        (if \<not> ready then Some (None, v) else read_block E c stream tmo sz b_read (sz - b_read) acc v)"
      using wait_case c w
      by (subst read_block.simps) (auto simp: Let_def to_read_def [symmetric] split: rd.splits)
    show ?thesis
    proof (cases ready)
      case True
      then have v: "m (world v) < m (world s)" and e: "rcvd (world v) = rcvd (world s)" "xsink v = xsink s"
        using wait u nop by simp_all
      from 1(1) [of b_read v acc, unfolded e] v 1(2) step True show ?thesis by simp
    next
      case False
      with step wait nop u 1(2) show ?thesis by (auto intro!: exI [of _ "[]"])
    qed
  qed
qed

text \<open>
  C19 (liveness). \<open>read()\<close> of a block of a given size on an open channel, with a library that
  neither asks to wait nor fails for ever, returns: either a block of exactly that size, the
  next bytes of the stream, or nothing with exactly one exception, that of a failed wait; in the
  second case the bytes read before it are lost to the caller. Hard errors of libssh2 that end
  are passed over: the call that failed is repeated, and no exception is raised for them.
\<close>

theorem channel_read_exact:
  assumes "settling m E" "\<forall>n. quiet m (channel_read E c stream n)" "reads_counted m rcvd E c stream"
    and "chan_open s c" and "0 < sz"
  shows "\<exists>r t d. channel_read_size E c sz stream tmo s = Some (r, t) \<and> rcvd (world t) = rcvd (world s) @ d \<and>
    (case r of Some a \<Rightarrow> a = d \<and> length d = unat sz \<and> xsink t = xsink s
       | None \<Rightarrow> length d < unat sz \<and> (\<exists>x. xsink t = xsink s @ [x]))"
proof -
  have q: "\<And>n. quiet m (channel_read E c stream n)" using assms(2) by blast
  have pos: "unat (0 :: 64 word) < unat sz" using assms(5) by (simp add: word_less_nat_alt)
  from read_block_reads [OF assms(1) q assms(3) pos, of tmo "[]" "BlockingHelper_ctor s"] obtain r t d where
    "read_block E c stream tmo sz 0 sz [] (BlockingHelper_ctor s) = Some (r, t)"
    "rcvd (world t) = rcvd (world s) @ d"
    "case r of Some a \<Rightarrow> a = d \<and> length d = unat sz \<and> xsink t = xsink s
       | None \<Rightarrow> length d < unat sz \<and> (\<exists>x. xsink t = xsink s @ [x])"
    by (auto cong: option.case_cong)
  then show ?thesis
    using assms(4) by (auto simp: channel_read_size_def check_open_def with_blocking_helper_def cong: option.case_cong)
qed

definition env_read :: "(tworld, tworld client) env" where
  "env_read = env0\<lparr>channel_read := (\<lambda>_ _ n w. if pending w > 1 then (RdEagain, w)
     else if pending w = 1 then (RdErr (-1), w\<lparr>pending := 0\<rparr>)
     else (RdData (take n ''abc''), logged (take n ''abc'') w))\<rparr>"

theorem channel_read_exact_witness:
  "\<exists>r t d. channel_read_size env_read 0 8 0 100 client_chan = Some (r, t) \<and>
    sent0 (world t) = sent0 (world client_chan) @ d \<and>
    (case r of Some a \<Rightarrow> a = d \<and> length d = unat (8 :: 64 word) \<and> xsink t = xsink client_chan
       | None \<Rightarrow> length d < unat (8 :: 64 word) \<and> (\<exists>x. xsink t = xsink client_chan @ [x]))"
proof (rule channel_read_exact)
  show "settling pending env_read"
    using settling_env0 [where 's = "tworld client"] by (simp add: env_read_def settling_def)
  show "\<forall>n. quiet pending (channel_read env_read 0 0 n)"
    by (simp add: env_read_def quiet_def logged_def)
  show "reads_counted pending sent0 env_read 0 0"
    by (auto simp: reads_counted_def env_read_def env0_def sent0_def logged_def wait0_def)
qed (simp_all add: client_chan_ok)

text \<open>
  C30 (termination). The same \<open>read()\<close> does not return when libssh2 keeps reporting a hard
  error: no branch of its loop handles one.
\<close>

theorem channel_read_error_diverges:
  assumes "\<forall>n w. \<exists>e w'. channel_read E c stream n w = (RdErr e, w')" and "chan_open s c"
  shows "channel_read_size E c sz stream tmo s = None"
proof -
  let ?P = "\<lambda>E c stream (tmo :: int) (sz :: 64 word) (b_read :: 64 word) (b_rem :: 64 word) (acc :: string)
    (u :: ('a, 'b) client_scheme) (y :: string option \<times> ('a, 'b) client_scheme).
    \<not> (\<forall>n w. \<exists>e w'. channel_read E c stream n w = (RdErr e, w'))"
  have "read_block E c stream tmo sz b_read b_rem acc u \<noteq> Some y" for b_read b_rem acc u y
  proof
    assume ret: "read_block E c stream tmo sz b_read b_rem acc u = Some y"
    have "?P E c stream tmo sz b_read b_rem acc u y"
    proof (rule read_block.raw_induct [where P = ?P, OF _ ret], rule notI)
      fix f E c stream tmo sz b_read b_remaining acc and s :: "('a, 'b) client_scheme" and y
      assume IH: "\<And>E c stream tmo sz b_read b_rem acc s y. f E c stream tmo sz b_read b_rem acc s = Some y \<Longrightarrow>
          ?P E c stream tmo sz b_read b_rem acc s y"
        and body: "(let to_read = (if of_nat QSSH2_BUFSIZE < b_remaining then of_nat QSSH2_BUFSIZE else b_remaining)
          in case call_ext (channel_read E c stream (unat to_read)) s of (r, s) \<Rightarrow>
           (case r of
              RdErr e \<Rightarrow> f E c stream tmo sz b_read b_remaining acc s
            | RdData d \<Rightarrow>
                if d \<noteq> [] then
                  (let b_read = b_read + of_nat (length d)
                   in if b_read \<ge> sz then Some (Some (acc @ d), s)
                      else f E c stream tmo sz b_read (b_remaining - of_nat (length d)) (acc @ d) s)
                else
                  (case raw_wait E ''SSH2CHANNEL-TIMEOUT'' tmo s of (ready, s) \<Rightarrow>
                     if \<not> ready then Some (None, s)
                     else f E c stream tmo sz b_read b_remaining acc s)
            | RdEagain \<Rightarrow>
                (case raw_wait E ''SSH2CHANNEL-TIMEOUT'' tmo s of (ready, s) \<Rightarrow>
                   if \<not> ready then Some (None, s)
                   else f E c stream tmo sz b_read b_remaining acc s))) = Some y"
        and err: "\<forall>n w. \<exists>e w'. channel_read E c stream n w = (RdErr e, w')"
      define n where
        "n = unat (if of_nat QSSH2_BUFSIZE < b_remaining then of_nat QSSH2_BUFSIZE else b_remaining)"
      obtain e w' where "channel_read E c stream n (world s) = (RdErr e, w')" using err by blast
      with body have "f E c stream tmo sz b_read b_remaining acc (s\<lparr>world := w'\<rparr>) = Some y"
        by (simp add: Let_def n_def [symmetric] call_ext_def)
      from IH [OF this] err show False by simp
    qed
    with assms(1) show False by simp
  qed
  then have "read_block E c stream tmo sz 0 sz [] u = None" for u
    by (cases "read_block E c stream tmo sz 0 sz [] u") auto
  with assms(2) show ?thesis
    by (simp add: channel_read_size_def check_open_def with_blocking_helper_def)
qed

theorem channel_read_error_diverges_witness:
  "channel_read_size (env0\<lparr>channel_read := (\<lambda>_ _ _ w. (RdErr (-1), w))\<rparr> :: (tworld, tworld client) env)
     0 8 0 100 client_chan = None"
  by (rule channel_read_error_diverges) (simp_all add: client_chan_ok)

end
