(* ===== verification/Sftp_Client.thy ===== *)
theory Sftp_Client
  imports Ssh2_Transfer
begin

text \<open>
  The SFTP client (\<open>src/src/SFTPClient.cpp\<close>): the SFTP session on top of the SSH session and
  the operations on remote files and directories. Every operation first makes sure that the
  connection is alive, connecting implicitly if it is not. The helper \<open>QSftpHelper\<close> owns an
  open remote handle; here it is the flag \<open>h\<close> (a handle is open) together with its error code
  and timeout. libssh2 is called with the session pointer the client has: what it answers to a
  null one is part of the environment. The counters of the Qore socket for slow calls and
  throughput are left out.
\<close>

section \<open>The handle helper\<close>

definition qsftp_closeIntern ::
  "('w, 'm) cenv \<Rightarrow> string \<Rightarrow> int \<Rightarrow> ('w, 'm) cst \<Rightarrow> (lrc \<times> ('w, 'm) cst) option" where
  "qsftp_closeIntern E err tmo s =
     do { (r, s) \<leftarrow> retry_loop is_eagain (call_ext (sftp_close_handle E))
            (wait_in_disconnect E True ''SFTPCLIENT-TIMEOUT'' err tmo) s;
          case r of
            Some rc \<Rightarrow> Some (rc, s)
          | None \<Rightarrow> do { (_, s) \<leftarrow> disconnectUnlocked E True 10 None True s; Some (Eagain, s) } }"

text \<open>\<open>tryClose()\<close>, \<open>preDisconnect()\<close> and the destructor.\<close>

definition qsftp_tryClose ::
  "('w, 'm) cenv \<Rightarrow> bool \<Rightarrow> string \<Rightarrow> int \<Rightarrow> ('w, 'm) cst \<Rightarrow> (int \<times> ('w, 'm) cst) option" where
  "qsftp_tryClose E h err tmo s =
     (if h then do { (_, s) \<leftarrow> qsftp_closeIntern E err tmo s; Some (0, s) } else Some (0, s))"

definition qsftp_waitSocket ::
  "('w, 'm) cenv \<Rightarrow> bool \<Rightarrow> string \<Rightarrow> int \<Rightarrow> ('w, 'm) cst \<Rightarrow> (int \<times> ('w, 'm) cst) option" where
  "qsftp_waitSocket E h err tmo s =
     do { (rc, s) \<leftarrow> waitSocketUnlocked E ''SFTPCLIENT-TIMEOUT'' err tmo
            (Some (qsftp_tryClose E h err tmo)) True s;
          Some (if rc \<noteq> 0 then -1 else 0, s) }"

text \<open>
  The errors of a session: an exception, and a disconnect when data is waiting, which is taken
  for the end of the connection.
\<close>

definition sftp_doSessionErrUnlocked :: "('w, 'm) cenv \<Rightarrow> ('w, 'm) cst \<Rightarrow> (int \<times> ('w, 'm) cst) option" where
  "sftp_doSessionErrUnlocked E s =
     (case call_ext (async_io_wait E 0 True False) (raise True ''SSH2-ERROR'' s) of (rc, s) \<Rightarrow>
        if rc > 0 then disconnectUnlocked E True 10 None True s else Some (0, s))"

definition qsftp_err ::
  "('w, 'm) cenv \<Rightarrow> bool \<Rightarrow> string \<Rightarrow> int \<Rightarrow> ('w, 'm) cst \<Rightarrow> (int \<times> ('w, 'm) cst) option" where
  "qsftp_err E h err tmo s =
     do { (_, s) \<leftarrow> qsftp_tryClose E h err tmo s; sftp_doSessionErrUnlocked E s }"

text \<open>A failed step: the error is reported and \<open>r\<close> returned; the handle is closed.\<close>

definition fail_with ::
  "('w, 'm) cenv \<Rightarrow> bool \<Rightarrow> string \<Rightarrow> int \<Rightarrow> 'r \<Rightarrow> ('w, 'm) cst \<Rightarrow> ('r \<times> ('w, 'm) cst) option" where
  "fail_with E h err tmo r s = do { (_, s) \<leftarrow> qsftp_err E h err tmo s; Some (r, s) }"

section \<open>The connection\<close>

text \<open>After a wait the loop of the source ends without another attempt.\<close>

definition sftpIsAliveUnlocked :: "('w, 'm) cenv \<Rightarrow> int \<Rightarrow> ('w, 'm) cst \<Rightarrow> (bool \<times> ('w, 'm) cst) option" where
  "sftpIsAliveUnlocked E tmo s =
     (let path = (if sftppath s = [] then ''/'' else sftppath s)
      in case call_ext (sftp_opendir E path) s of
           (Got _, s) \<Rightarrow> do { (_, s) \<leftarrow> qsftp_tryClose E True ''SFTPCLIENT-ERROR'' tmo s; Some (True, s) }
         | (NullEagain, s) \<Rightarrow>
             if \<not> ssh_session s then Some (False, s)
             else do { (wr, s) \<leftarrow> qsftp_waitSocket E False ''SFTPCLIENT-ERROR'' tmo s; Some (wr = 0, s) }
         | (NullErr, s) \<Rightarrow>
             if \<not> ssh_session s then Some (False, s)
             else if session_last_errno E (world s) = ERR_SOCKET_RECV then Some (False, s)
             else fail_with E False ''SFTPCLIENT-ERROR'' tmo False s)"

text \<open>With an exception sink of its own, which is cleared.\<close>

definition sftpConnectedUnlocked :: "('w, 'm) cenv \<Rightarrow> ('w, 'm) cst \<Rightarrow> (bool \<times> ('w, 'm) cst) option" where
  "sftpConnectedUnlocked E s =
     (if sftp_session s then
        do { (b, t) \<leftarrow> sftpIsAliveUnlocked E 100 (s\<lparr>xsink := []\<rparr>); Some (b, t\<lparr>xsink := xsink s\<rparr>) }
      else Some (False, s))"

definition sftpIsAliveEx :: "('w, 'm) cenv \<Rightarrow> int \<Rightarrow> ('w, 'm) cst \<Rightarrow> (bool \<times> ('w, 'm) cst) option" where
  "sftpIsAliveEx E tmo s = sftpIsAliveUnlocked E tmo s"

text \<open>A failed step of the connection: the error is reported and the connection shut down.\<close>

definition fail_connect :: "('w, 'm) cenv \<Rightarrow> int \<Rightarrow> ('w, 'm) cst \<Rightarrow> (int \<times> ('w, 'm) cst) option" where
  "fail_connect E tmo s =
     do { (_, s) \<leftarrow> qsftp_err E False ''SFTPCLIENT-CONNECT-ERROR'' tmo s;
          (_, s) \<leftarrow> force_disconnect E s;
          Some (-1, s) }"

text \<open>The remote working directory is asked for once.\<close>

definition sftp_resolve_path :: "('w, 'm) cenv \<Rightarrow> int \<Rightarrow> ('w, 'm) cst \<Rightarrow> (int \<times> ('w, 'm) cst) option" where
  "sftp_resolve_path E tmo s =
     (if sftppath s \<noteq> [] then Some (0, s)
      else
        do { (r, s) \<leftarrow> retry_loop is_rd_eagain (call_ext (sftp_realpath E ''.''))
               (qsftp_waitSocket E False ''SFTPCLIENT-CONNECT-ERROR'' tmo) s;
             case r of
               None \<Rightarrow> Some (-1, s)
             | Some (RdData (c # d)) \<Rightarrow> Some (0, s\<lparr>sftppath := c_str (c # d)\<rparr>)
             | Some _ \<Rightarrow> fail_connect E tmo s })"

definition sftp_open_session :: "('w, 'm) cenv \<Rightarrow> int \<Rightarrow> ('w, 'm) cst \<Rightarrow> (int \<times> ('w, 'm) cst) option" where
  "sftp_open_session E tmo s =
     do { (r, s) \<leftarrow> retry_loop is_null_eagain (call_ext (sftp_init E))
            (qsftp_waitSocket E False ''SFTPCLIENT-CONNECT-ERROR'' tmo) s;
          case r of
            None \<Rightarrow> Some (-1, s)
          | Some (Got _) \<Rightarrow> sftp_resolve_path E tmo (s\<lparr>sftp_session := True\<rparr>)
          | Some _ \<Rightarrow> fail_connect E tmo s }"

definition sftpConnectUnlocked :: "('w, 'm) cenv \<Rightarrow> int \<Rightarrow> ('w, 'm) cst \<Rightarrow> (int \<times> ('w, 'm) cst) option" where
  "sftpConnectUnlocked E tmo s =
     (case checkPollOpUnlocked True s of (rc, s) \<Rightarrow>
        if rc \<noteq> 0 then Some (-1, s)
        else
          do { (_, s) \<leftarrow> (if sftp_session s then force_disconnect E s else Some (0, s));
               (rc, s) \<leftarrow> sshConnectUnlocked E tmo s;
               if rc \<noteq> 0 then Some (rc, s)
               else with_blocking_helper (sftp_open_session E tmo) s })"

definition sftpConnect :: "('w, 'm) cenv \<Rightarrow> int \<Rightarrow> ('w, 'm) cst \<Rightarrow> (int \<times> ('w, 'm) cst) option" where
  "sftpConnect E tmo s = sftpConnectUnlocked E tmo s"

text \<open>
  The beginning of every operation: an implicit connection, or the result \<open>r\<close> when it cannot
  be made.
\<close>

definition connected_or ::
  "('w, 'm) cenv \<Rightarrow> int \<Rightarrow> 'r \<Rightarrow> (('w, 'm) cst \<Rightarrow> ('r \<times> ('w, 'm) cst) option) \<Rightarrow> ('w, 'm) cst \<Rightarrow>
   ('r \<times> ('w, 'm) cst) option" where
  "connected_or E tmo r f s =
     do { (alive, s) \<leftarrow> sftpConnectedUnlocked E s;
          (rc, s) \<leftarrow> (if alive then Some (0, s) else sftpConnectUnlocked E tmo s);
          if rc \<noteq> 0 then Some (r, s) else f s }"

section \<open>Requests without a handle\<close>

definition sftp_simple ::
  "('w, 'm) cenv \<Rightarrow> string \<Rightarrow> int \<Rightarrow> sftp_req \<Rightarrow> ('w, 'm) cst \<Rightarrow> (int \<times> ('w, 'm) cst) option" where
  "sftp_simple E err tmo req s =
     do { (r, s) \<leftarrow> retry_loop is_eagain (call_ext (sftp_request E req)) (qsftp_waitSocket E False err tmo) s;
          case r of
            Some (Ret rc) \<Rightarrow> if rc < 0 then fail_with E False err tmo rc s else Some (rc, s)
          | _ \<Rightarrow> Some (-3, s) }"

definition sftpMkdir where
  "sftpMkdir E dir mode tmo s =
     (if dir = [] then fail_with E False ''SFTPCLIENT-MKDIR-ERROR'' tmo (-3) s
      else connected_or E tmo (-2) (\<lambda>s. with_blocking_helper
        (sftp_simple E ''SFTPCLIENT-MKDIR-ERROR'' tmo (ReqMkdir (absolute_filename (sftppath s) (Some dir)) mode)) s) s)"

definition sftpRmdir where
  "sftpRmdir E dir tmo s =
     (if dir = [] then fail_with E False ''SFTPCLIENT-RMDIR-ERROR'' tmo (-3) s
      else connected_or E tmo (-2) (\<lambda>s. with_blocking_helper
        (sftp_simple E ''SFTPCLIENT-RMDIR-ERROR'' tmo (ReqRmdir (absolute_filename (sftppath s) (Some dir)))) s) s)"

definition sftpRename where
  "sftpRename E from to tmo s =
     connected_or E tmo (-2) (\<lambda>s. with_blocking_helper
        (sftp_simple E ''SFTPCLIENT-RENAME-ERROR'' tmo
          (ReqRename (absolute_filename (sftppath s) (Some from)) (absolute_filename (sftppath s) (Some to)))) s) s"

definition sftpUnlink where
  "sftpUnlink E file tmo s =
     connected_or E tmo (-2) (\<lambda>s. with_blocking_helper
        (sftp_simple E ''SFTPCLIENT-REMOVEFILE-ERROR'' tmo (ReqUnlink (absolute_filename (sftppath s) (Some file)))) s) s"

text \<open>A loop over one of the stat calls; \<open>None\<close> when the wait failed.\<close>

definition stat_loop ::
  "('w, 'm) cenv \<Rightarrow> ('w \<Rightarrow> (lrc \<times> 'a) \<times> 'w) \<Rightarrow> string \<Rightarrow> int \<Rightarrow> ('w, 'm) cst \<Rightarrow>
   ((int \<times> 'a) option \<times> ('w, 'm) cst) option" where
  "stat_loop E call err tmo s =
     do { (r, s) \<leftarrow> retry_loop is_stat_eagain (call_ext call) (qsftp_waitSocket E False err tmo) s;
          case r of
            Some (Ret rc, a) \<Rightarrow> Some (Some (rc, a), s)
          | _ \<Rightarrow> Some (None, s) }"

definition SFTP_UGOMASK :: "64 word" where "SFTP_UGOMASK = 0x1FF"

text \<open>After a failed request the attributes are read again: they may have been set all the same.\<close>

definition chmod_recheck ::
  "('w, 'm) cenv \<Rightarrow> string \<Rightarrow> 64 word \<Rightarrow> int \<Rightarrow> ('w, 'm) cst \<Rightarrow> (int \<times> ('w, 'm) cst) option" where
  "chmod_recheck E pstr newmode tmo s =
     do { (r, s) \<leftarrow> stat_loop E (sftp_stat E pstr) ''SFTPCLIENT-CHMOD-ERROR'' tmo s;
          case r of
            None \<Rightarrow> Some (-3, s)
          | Some (rc, attrs) \<Rightarrow>
              if rc \<ge> 0 \<and> att_permissions attrs = newmode then Some (0, s)
              else fail_with E False ''SFTPCLIENT-CHMOD-ERROR'' tmo rc s }"

definition chmod_set ::
  "('w, 'm) cenv \<Rightarrow> string \<Rightarrow> int \<Rightarrow> int \<Rightarrow> ('w, 'm) cst \<Rightarrow> (int \<times> ('w, 'm) cst) option" where
  "chmod_set E pstr mode tmo s =
     do { (r, s) \<leftarrow> stat_loop E (sftp_stat E pstr) ''SFTPCLIENT-CHMOD-ERROR'' tmo s;
          case r of
            None \<Rightarrow> Some (-3, s)
          | Some (rc, attrs) \<Rightarrow>
              if rc < 0 then fail_with E False ''SFTPCLIENT-CHMOD-ERROR'' tmo rc s
              else if att_flags attrs AND LIBSSH2_SFTP_ATTR_PERMISSIONS = 0
              then fail_with E False ''SFTPCLIENT-CHMOD-ERROR'' tmo (-3) s
              else
                (let newmode = chmod_newmode SFTP_UGOMASK (att_permissions attrs) (word_of_int mode)
                 in do { (r, s) \<leftarrow> retry_loop is_eagain
                           (call_ext (sftp_request E (ReqSetstat pstr (attrs\<lparr>att_permissions := newmode\<rparr>))))
                           (qsftp_waitSocket E False ''SFTPCLIENT-CHMOD-ERROR'' tmo) s;
                         case r of
                           Some (Ret rc) \<Rightarrow> if rc < 0 then chmod_recheck E pstr newmode tmo s else Some (rc, s)
                         | _ \<Rightarrow> Some (-3, s) }) }"

definition sftpChmod where
  "sftpChmod E file mode tmo s =
     (if file = [] then fail_with E False ''SFTPCLIENT-CHMOD-ERROR'' tmo (-3) s
      else connected_or E tmo (-2) (\<lambda>s. with_blocking_helper
        (chmod_set E (absolute_filename (sftppath s) (Some file)) mode tmo) s) s)"

definition chown_set ::
  "('w, 'm) cenv \<Rightarrow> string \<Rightarrow> int \<Rightarrow> int \<Rightarrow> int \<Rightarrow> ('w, 'm) cst \<Rightarrow> (int \<times> ('w, 'm) cst) option" where
  "chown_set E pstr uid gid tmo s =
     do { (r, s) \<leftarrow> stat_loop E (sftp_stat E pstr) ''SFTPCLIENT-CHOWN-ERROR'' tmo s;
          case r of
            None \<Rightarrow> Some (-3, s)
          | Some (rc, attrs) \<Rightarrow>
              if rc < 0 then fail_with E False ''SFTPCLIENT-CHOWN-ERROR'' tmo rc s
              else sftp_simple E ''SFTPCLIENT-CHOWN-ERROR'' tmo (ReqSetstat pstr
                     (attrs\<lparr>att_flags := LIBSSH2_SFTP_ATTR_UIDGID, att_uid := word_of_int uid,
                            att_gid := word_of_int gid\<rparr>)) s }"

definition sftpChown where
  "sftpChown E file uid gid tmo s =
     (if file = [] then fail_with E False ''SFTPCLIENT-CHOWN-ERROR'' tmo (-3) s
      else connected_or E tmo (-2) (\<lambda>s. with_blocking_helper
        (chown_set E (absolute_filename (sftppath s) (Some file)) uid gid tmo) s) s)"

text \<open>\<open>sftpGetAttributes()\<close> and \<open>sftpLGetAttributes()\<close>; the attributes are an output argument.\<close>

definition get_attributes ::
  "('w, 'm) cenv \<Rightarrow> ('w \<Rightarrow> (lrc \<times> attrs) \<times> 'w) \<Rightarrow> string \<Rightarrow> int \<Rightarrow> ('w, 'm) cst \<Rightarrow>
   ((int \<times> attrs option) \<times> ('w, 'm) cst) option" where
  "get_attributes E call err tmo s =
     do { (r, s) \<leftarrow> stat_loop E call err tmo s;
          case r of
            None \<Rightarrow> Some ((-3, None), s)
          | Some (rc, attrs) \<Rightarrow>
              if rc < 0 then
                (if session_last_errno E (world s) = ERR_SFTP_PROTOCOL \<and> sftp_last_error E (world s) = FX_NO_SUCH_FILE
                 then Some ((-2, None), s)
                 else fail_with E False err tmo (-1, None) s)
              else Some ((0, Some attrs), s) }"

definition sftpGetAttributes where
  "sftpGetAttributes E fname tmo s =
     connected_or E tmo (-3, None) (\<lambda>s.
       if fname = [] then fail_with E False ''SFTPCLIENT-STAT-ERROR'' tmo (-2, None) s
       else with_blocking_helper (get_attributes E (sftp_stat E (absolute_filename (sftppath s) (Some fname)))
              ''SFTPCLIENT-STAT-ERROR'' tmo) s) s"

definition sftpLGetAttributes where
  "sftpLGetAttributes E fname tmo s =
     connected_or E tmo (-3, None) (\<lambda>s.
       if fname = [] then fail_with E False ''SFTPCLIENT-LSTAT-ERROR'' tmo (-2, None) s
       else with_blocking_helper (get_attributes E (sftp_lstat E (absolute_filename (sftppath s) (Some fname)))
              ''SFTPCLIENT-LSTAT-ERROR'' tmo) s) s"

section \<open>Symbolic links\<close>

definition sftpSymlinkResolvesUnlocked ::
  "('w, 'm) cenv \<Rightarrow> string \<Rightarrow> string \<Rightarrow> string \<Rightarrow> int \<Rightarrow> ('w, 'm) cst \<Rightarrow> (bool \<times> ('w, 'm) cst) option" where
  "sftpSymlinkResolvesUnlocked E link_path target err tmo s =
     do { (r, s) \<leftarrow> retry_loop is_rd_eagain (call_ext (sftp_readlink E link_path)) (qsftp_waitSocket E False err tmo) s;
          case r of
            Some (RdData d) \<Rightarrow> Some (target = c_str d, s)
          | _ \<Rightarrow> Some (False, s) }"

text \<open>
  A failure reported as a protocol error is checked by asking the server for the link: some
  versions of libssh2 report a success that way.
\<close>

definition symlink_verify ::
  "('w, 'm) cenv \<Rightarrow> string \<Rightarrow> string \<Rightarrow> int \<Rightarrow> int \<Rightarrow> ('w, 'm) cst \<Rightarrow> (int \<times> ('w, 'm) cst) option" where
  "symlink_verify E tstr lstr tmo rc s =
     do { (ok, s) \<leftarrow>
            (if session_last_errno E (world s) = ERR_SFTP_PROTOCOL
             then sftpSymlinkResolvesUnlocked E lstr tstr ''SFTPCLIENT-SYMLINK-ERROR'' tmo s
             else Some (False, s));
          if ok then Some (0, s)
          else if xsink s \<noteq> [] then Some (-3, s)
          else fail_with E False ''SFTPCLIENT-SYMLINK-ERROR'' tmo rc s }"

definition symlink_make ::
  "('w, 'm) cenv \<Rightarrow> string \<Rightarrow> string \<Rightarrow> int \<Rightarrow> ('w, 'm) cst \<Rightarrow> (int \<times> ('w, 'm) cst) option" where
  "symlink_make E tstr lstr tmo s =
     do { (r, s) \<leftarrow> retry_loop is_eagain (call_ext (sftp_request E (ReqSymlink tstr lstr)))
            (qsftp_waitSocket E False ''SFTPCLIENT-SYMLINK-ERROR'' tmo) s;
          case r of
            Some (Ret rc) \<Rightarrow> if rc \<ge> 0 then Some (rc, s) else symlink_verify E tstr lstr tmo rc s
          | _ \<Rightarrow> Some (-3, s) }"

definition sftpSymlink where
  "sftpSymlink E target link_path tmo s =
     (if target = [] \<or> link_path = [] then fail_with E False ''SFTPCLIENT-SYMLINK-ERROR'' tmo (-3) s
      else connected_or E tmo (-2) (\<lambda>s. with_blocking_helper
        (symlink_make E (absolute_filename (sftppath s) (Some target)) (absolute_filename (sftppath s) (Some link_path)) tmo) s) s)"

definition sftpReadlink where
  "sftpReadlink E path tmo s =
     (if path = [] then fail_with E False ''SFTPCLIENT-READLINK-ERROR'' tmo None s
      else connected_or E tmo None (\<lambda>s. with_blocking_helper (\<lambda>s.
        do { (r, s) \<leftarrow> retry_loop is_rd_eagain
               (call_ext (sftp_readlink E (absolute_filename (sftppath s) (Some path))))
               (qsftp_waitSocket E False ''SFTPCLIENT-READLINK-ERROR'' tmo) s;
             case r of
               Some (RdData d) \<Rightarrow> Some (Some (c_str d), s)
             | Some _ \<Rightarrow> fail_with E False ''SFTPCLIENT-READLINK-ERROR'' tmo None s
             | None \<Rightarrow> Some (None, s) }) s) s)"

definition sftpStatvfs where
  "sftpStatvfs E path tmo s =
     (if path = [] then fail_with E False ''SFTPCLIENT-STATVFS-ERROR'' tmo None s
      else connected_or E tmo None (\<lambda>s. with_blocking_helper (\<lambda>s.
        do { (r, s) \<leftarrow> stat_loop E (sftp_statvfs E (absolute_filename (sftppath s) (Some path)))
               ''SFTPCLIENT-STATVFS-ERROR'' tmo s;
             case r of
               None \<Rightarrow> Some (None, s)
             | Some (rc, st) \<Rightarrow>
                 if rc < 0 then fail_with E False ''SFTPCLIENT-STATVFS-ERROR'' tmo None s else Some (Some st, s) }) s) s)"

section \<open>Directories\<close>

definition list_path :: "('w, 'm) cst \<Rightarrow> string option \<Rightarrow> string" where
  "list_path s path = (case path of None \<Rightarrow> sftppath s | Some p \<Rightarrow> absolute_filename (sftppath s) (Some p))"

text \<open>Opening a handle: \<open>True\<close> with the handle open, \<open>False\<close> after an error or a failed wait.\<close>

definition open_handle ::
  "('w, 'm) cenv \<Rightarrow> ('w \<Rightarrow> unit lptr \<times> 'w) \<Rightarrow> string \<Rightarrow> int \<Rightarrow> ('w, 'm) cst \<Rightarrow> (bool \<times> ('w, 'm) cst) option" where
  "open_handle E call err tmo s =
     do { (r, s) \<leftarrow> retry_loop is_null_eagain (call_ext call) (qsftp_waitSocket E False err tmo) s;
          case r of
            Some (Got _) \<Rightarrow> Some (True, s)
          | Some _ \<Rightarrow> fail_with E False err tmo False s
          | None \<Rightarrow> Some (False, s) }"

text \<open>In \<open>chdir()\<close> the blocking mode is restored before the handle is closed.\<close>

definition chdir_to ::
  "('w, 'm) cenv \<Rightarrow> string \<Rightarrow> int \<Rightarrow> ('w, 'm) cst \<Rightarrow> (string option \<times> ('w, 'm) cst) option" where
  "chdir_to E npath tmo s =
     do { (r, s) \<leftarrow> retry_loop is_rd_eagain (call_ext (sftp_realpath E npath))
            (qsftp_waitSocket E False ''SFTPCLIENT-CHDIR-ERROR'' tmo) (BlockingHelper_ctor s);
          case r of
            None \<Rightarrow> Some (None, BlockingHelper_dtor s)
          | Some (RdData (c # d)) \<Rightarrow>
              do { (opened, s) \<leftarrow> open_handle E (sftp_opendir E (c_str (c # d))) ''SFTPCLIENT-CHDIR-ERROR'' tmo s;
                   if \<not> opened then Some (None, BlockingHelper_dtor s)
                   else
                     do { (_, s) \<leftarrow> qsftp_tryClose E True ''SFTPCLIENT-CHDIR-ERROR'' tmo
                            (BlockingHelper_dtor (s\<lparr>sftppath := c_str (c # d)\<rparr>));
                          Some (Some (c_str (c # d)), s) } }
          | Some _ \<Rightarrow>
              do { (_, s) \<leftarrow> qsftp_err E False ''SFTPCLIENT-CHDIR-ERROR'' tmo s;
                   Some (None, BlockingHelper_dtor s) } }"

definition sftpChdir where
  "sftpChdir E nwd tmo s = connected_or E tmo None (\<lambda>s. chdir_to E (list_path s nwd) tmo s) s"

definition sftpPath :: "('w, 'm) cst \<Rightarrow> string option" where
  "sftpPath s = (if sftppath s = [] then None else Some (sftppath s))"

text \<open>The entries of an open directory, in the order of the server; the handle is closed after a failure.\<close>

partial_function (option) readdir_loop ::
  "('w, 'm) cenv \<Rightarrow> string \<Rightarrow> int \<Rightarrow> (string \<times> attrs) list \<Rightarrow> ('w, 'm) cst \<Rightarrow>
   ((string \<times> attrs) list option \<times> ('w, 'm) cst) option" where
  "readdir_loop E err tmo acc s =
     do { (r, s) \<leftarrow> retry_loop is_dir_eagain (call_ext (sftp_readdir E)) (qsftp_waitSocket E True err tmo) s;
          case r of
            None \<Rightarrow> Some (None, s)
          | Some DirEnd \<Rightarrow> Some (Some acc, s)
          | Some (DirEntry name attrs) \<Rightarrow> readdir_loop E err tmo (acc @ [(c_str name, attrs)]) s
          | Some _ \<Rightarrow> fail_with E True err tmo None s }"

declare readdir_loop.simps [code]

definition read_directory ::
  "('w, 'm) cenv \<Rightarrow> string \<Rightarrow> string \<Rightarrow> int \<Rightarrow> ('w, 'm) cst \<Rightarrow> ((string \<times> attrs) list option \<times> ('w, 'm) cst) option" where
  "read_directory E pstr err tmo s =
     do { (opened, s) \<leftarrow> open_handle E (sftp_opendir E pstr) err tmo s;
          if \<not> opened then Some (None, s)
          else
            do { (r, s) \<leftarrow> readdir_loop E err tmo [] s;
                 (_, s) \<leftarrow> qsftp_tryClose E (r \<noteq> None) err tmo s;
                 Some (r, s) } }"

record dir_info =
  dir_path :: string
  dir_directories :: "string list"
  dir_files :: "string list"
  dir_links :: "string list"

definition has_permissions :: "attrs \<Rightarrow> bool" where
  "has_permissions a \<longleftrightarrow> att_flags a AND LIBSSH2_SFTP_ATTR_PERMISSIONS \<noteq> 0"

definition entry_is_dir :: "attrs \<Rightarrow> bool" where
  "entry_is_dir a \<longleftrightarrow> has_permissions a \<and> file_type_is S_IFDIR (ucast (att_permissions a))"

definition entry_is_link :: "attrs \<Rightarrow> bool" where
  "entry_is_link a \<longleftrightarrow> has_permissions a \<and> \<not> file_type_is S_IFDIR (ucast (att_permissions a))
     \<and> file_type_is S_IFLNK (ucast (att_permissions a))"

definition make_dir_info :: "('w, 'm) cenv \<Rightarrow> string \<Rightarrow> (string \<times> attrs) list \<Rightarrow> dir_info" where
  "make_dir_info E pstr es =
     \<lparr>dir_path = pstr,
      dir_directories = list_sort E [n. (n, a) \<leftarrow> es, entry_is_dir a],
      dir_files = list_sort E [n. (n, a) \<leftarrow> es, \<not> entry_is_dir a \<and> \<not> entry_is_link a],
      dir_links = list_sort E [n. (n, a) \<leftarrow> es, entry_is_link a]\<rparr>"

definition list_entries ::
  "('w, 'm) cenv \<Rightarrow> string \<Rightarrow> int \<Rightarrow> ('w, 'm) cst \<Rightarrow> (dir_info option \<times> ('w, 'm) cst) option" where
  "list_entries E pstr tmo s =
     do { (r, s) \<leftarrow> read_directory E pstr ''SFTPCLIENT-LIST-ERROR'' tmo s;
          Some (map_option (make_dir_info E pstr) r, s) }"

definition sftpList where
  "sftpList E path tmo s =
     connected_or E tmo None (\<lambda>s. with_blocking_helper (list_entries E (list_path s path) tmo) s) s"

text \<open>The full entry has the attributes only when the server sent the permissions.\<close>

record file_info =
  fi_name :: string
  fi_attrs :: "(attrs \<times> string \<times> string) option"

definition make_file_info :: "string \<times> attrs \<Rightarrow> file_info" where
  "make_file_info e =
     \<lparr>fi_name = fst e,
      fi_attrs = (if has_permissions (snd e)
        then Some (snd e, ssh2_mode_to_perm (ucast (att_permissions (snd e)))) else None)\<rparr>"

definition list_entries_full ::
  "('w, 'm) cenv \<Rightarrow> string \<Rightarrow> int \<Rightarrow> ('w, 'm) cst \<Rightarrow> (file_info list option \<times> ('w, 'm) cst) option" where
  "list_entries_full E pstr tmo s =
     do { (r, s) \<leftarrow> read_directory E pstr ''SFTPCLIENT-LISTFULL-ERROR'' tmo s;
          Some (map_option (map make_file_info) r, s) }"

definition sftpListFull where
  "sftpListFull E path tmo s =
     connected_or E tmo None (\<lambda>s. with_blocking_helper (list_entries_full E (list_path s path) tmo) s) s"

section \<open>The contract of the SFTP operations\<close>

text \<open>
  Like the operations of a session, those of an SFTP client keep the connection invariant and
  the configuration, and they only add exceptions.
\<close>

definition sstep :: "('w, 'm) cst \<Rightarrow> ('w, 'm) cst \<Rightarrow> bool" where
  "sstep s t \<longleftrightarrow> kept s t \<and> (\<exists>e. xsink t = xsink s @ e)"

definition skeeps :: "(('w, 'm) cst \<Rightarrow> ('r \<times> ('w, 'm) cst) option) \<Rightarrow> bool" where
  "skeeps f \<longleftrightarrow> (\<forall>s. is_sftp s \<longrightarrow> post (f s) (\<lambda>r t. sstep s t))"

lemma sstep_refl [simp, intro]: "sstep s s"
  by (simp add: sstep_def)

lemma sstep_trans [trans]: "sstep s t \<Longrightarrow> sstep t u \<Longrightarrow> sstep s u"
  by (auto simp: sstep_def intro: kept_trans)

lemma sstep_sftp: "sstep s t \<Longrightarrow> is_sftp t = is_sftp s"
  by (simp add: sstep_def kept_def settings_def)

lemma sstep_sink: "sstep s t \<Longrightarrow> length (xsink s) \<le> length (xsink t)"
  by (auto simp: sstep_def)

lemma sstep_io: "io_step x s t \<Longrightarrow> sstep s t"
  by (auto simp: sstep_def io_step_def intro: kept_core)

lemma sstep_disc: "io_step x (disc_state s) t \<Longrightarrow> sstep s t"
  using kept_disc [of x s t] by (auto simp: sstep_def io_step_def disc_state_def)

lemma sstep_call: "call_ext f s = (r, t) \<Longrightarrow> sstep s t"
  by (rule sstep_io [OF io_step_call])

lemma sstep_raise [simp, intro]: "sstep s (raise x c s)"
  by (rule sstep_io [OF io_step_raise])

lemma sstep_blocking [simp, intro]: "sstep s (BlockingHelper_ctor s)" "sstep s (BlockingHelper_dtor s)"
  by (simp_all add: sstep_def)

lemma sstep_path [simp, intro]: "sstep s (s\<lparr>sftppath := p\<rparr>)"
  by (simp add: sstep_def kept_def conn_inv_def settings_def policies_def)

lemma skeepsI: "(\<And>s r t. is_sftp s \<Longrightarrow> f s = Some (r, t) \<Longrightarrow> sstep s t) \<Longrightarrow> skeeps f"
  by (simp add: skeeps_def post_def)

lemma skeepsD: "skeeps f \<Longrightarrow> is_sftp s \<Longrightarrow> f s = Some (r, t) \<Longrightarrow> sstep s t"
  by (auto simp: skeeps_def post_def)

lemma skeeps_bind:
  assumes "skeeps f" and "\<And>r. skeeps (g r)"
  shows "skeeps (\<lambda>s. do { (r, s) \<leftarrow> f s; g r s })"
proof (rule skeepsI)
  fix s r t
  assume s: "is_sftp s" and "do { (r, s) \<leftarrow> f s; g r s } = Some (r, t)"
  then obtain a u where f: "f s = Some (a, u)" and g: "g a u = Some (r, t)"
    by (auto simp: Option.bind_eq_Some_conv)
  have u: "sstep s u" by (rule skeepsD [OF assms(1) s f])
  then have "sstep u t" using skeepsD [OF assms(2) _ g] sstep_sftp s by blast
  with u show "sstep s t" by (rule sstep_trans)
qed

lemma skeeps_ret: "(\<And>s. sstep s (f s)) \<Longrightarrow> skeeps (\<lambda>s. Some (r s, f s))"
  by (rule skeepsI) auto

lemma skeeps_return: "skeeps (\<lambda>s. Some (r s, s))"
  by (rule skeepsI) auto

lemma skeeps_if: "skeeps f \<Longrightarrow> skeeps g \<Longrightarrow> skeeps (\<lambda>s. if b s then f s else g s)"
  by (auto simp: skeeps_def)

lemma skeeps_case:
  "skeeps f \<Longrightarrow> (\<And>x. skeeps (g x)) \<Longrightarrow> skeeps (\<lambda>s. case v of None \<Rightarrow> f s | Some x \<Rightarrow> g x s)"
  "(\<And>n. skeeps (h n)) \<Longrightarrow> skeeps k \<Longrightarrow> skeeps (\<lambda>s. case c of Ret n \<Rightarrow> h n s | Eagain \<Rightarrow> k s)"
  by (cases v; simp) (cases c; simp)

lemma skeeps_let: "(\<And>x. skeeps (f x)) \<Longrightarrow> skeeps (\<lambda>s. f (v s) s)"
  by (auto simp: skeeps_def)

lemma skeeps_pair: "skeeps (f (fst p) (snd p)) \<Longrightarrow> skeeps (\<lambda>s. case p of (x, y) \<Rightarrow> f x y s)"
  by (cases p) simp

lemma skeeps_call:
  assumes "\<And>r. skeeps (g r)"
  shows "skeeps (\<lambda>s. case call_ext f s of (r, s) \<Rightarrow> g r s)"
proof (rule skeepsI)
  fix s r t
  assume s: "is_sftp s" and c: "(case call_ext f s of (r, s) \<Rightarrow> g r s) = Some (r, t)"
  obtain a u where u: "call_ext f s = (a, u)" by fastforce
  have su: "sstep s u" by (rule sstep_call [OF u])
  then have "sstep u t" using skeepsD [OF assms, of u a r t] c u s by (simp add: sstep_sftp)
  with su show "sstep s t" by (rule sstep_trans)
qed

lemma skeeps_helper: "skeeps f \<Longrightarrow> skeeps (with_blocking_helper f)"
proof (rule skeepsI)
  fix s r t
  assume f: "skeeps f" and s: "is_sftp s" and w: "with_blocking_helper f s = Some (r, t)"
  from w obtain u where u: "f (BlockingHelper_ctor s) = Some (r, u)" and t: "t = BlockingHelper_dtor u"
    by (auto simp: with_blocking_helper_def Option.bind_eq_Some_conv)
  have "sstep (BlockingHelper_ctor s) u"
    by (rule skeepsD [OF f _ u]) (use s in \<open>simp add: BlockingHelper_ctor_def setBlockingUnlocked_def\<close>)
  then show "sstep s t" unfolding t
    by (rule sstep_trans [OF sstep_trans [OF sstep_blocking(1)] sstep_blocking(2)])
qed

lemma skeeps_retry:
  assumes "skeeps wait"
  shows "skeeps (retry_loop again (call_ext f) wait)"
  unfolding skeeps_def
proof (intro allI impI)
  fix s :: "('a, 'b) client_scheme"
  assume s: "is_sftp s"
  show "post (retry_loop again (call_ext f) wait s) (\<lambda>r t. sstep s t)"
  proof (rule retry_loop_post [where I = "\<lambda>t. sstep s t"])
    fix t r u
    assume st: "sstep s t" and c: "call_ext f t = (r, u)"
    then have u: "sstep s u" by (blast intro: sstep_trans sstep_call)
    with s have "is_sftp u" by (simp add: sstep_sftp)
    with skeepsD [OF assms] u show "post (wait u) (\<lambda>wr v. if wr \<noteq> 0 then sstep s v else sstep s v)"
      by (auto intro!: post_I intro: sstep_trans)
    from u show "sstep s u" .
  qed simp
qed

text \<open>\<open>lost s t\<close>: from \<open>s\<close> to \<open>t\<close> an exception was raised and the client was disconnected.\<close>

definition raised :: "('w, 'm) cst \<Rightarrow> ('w, 'm) cst \<Rightarrow> bool" where
  "raised s t \<longleftrightarrow> sstep s t \<and> length (xsink s) < length (xsink t)"

definition lost :: "('w, 'm) cst \<Rightarrow> ('w, 'm) cst \<Rightarrow> bool" where
  "lost s t \<longleftrightarrow> raised s t \<and> \<not> ssh_session t \<and> \<not> sftp_session t"

lemma raised_trans: "sstep s t \<Longrightarrow> raised t u \<Longrightarrow> raised s u" "raised s t \<Longrightarrow> sstep t u \<Longrightarrow> raised s u"
  unfolding raised_def by (auto intro: sstep_trans dest: sstep_sink)

lemma lost_trans: "sstep s t \<Longrightarrow> lost t u \<Longrightarrow> lost s u"
  by (auto simp: lost_def intro: raised_trans)

lemma raised_sink: "raised s t \<Longrightarrow> xsink t \<noteq> []" "lost s t \<Longrightarrow> raised s t"
  by (auto simp: raised_def lost_def)

lemma raised_raise: "sstep s t \<Longrightarrow> raised s (raise True c t)"
  by (rule raised_trans(1), assumption) (use sstep_raise [of t True c] in \<open>simp add: raised_def raise_def\<close>)

lemma disconnect_adh_post:
  assumes "case adh of None \<Rightarrow> True | Some f \<Rightarrow> skeeps f" and s: "is_sftp s"
  shows "post (disconnectUnlocked E force tmo adh x s) (\<lambda>r t. sstep s t \<and> \<not> ssh_session t \<and> \<not> sftp_session t)"
proof (rule post_I)
  fix r t
  assume "disconnectUnlocked E force tmo adh x s = Some (r, t)"
  then obtain rc u where p: "preDisconnect adh s = Some (rc, u)"
    and r: "do { (_, s) \<leftarrow> doShutdown E tmo x u; ssh_disconnectUnlocked E force tmo None x s } = Some (r, t)"
    using s by (auto simp: disconnectUnlocked_def sftp_disconnectUnlocked_def Option.bind_eq_Some_conv)
  have u: "sstep s u"
    using assms p by (auto simp: preDisconnect_def split: option.splits dest: skeepsD)
  then have su: "is_sftp u" using s by (simp add: sstep_sftp)
  then have "disconnectUnlocked E force tmo None x u = Some (r, t)"
    using r by (simp add: disconnectUnlocked_def sftp_disconnectUnlocked_def preDisconnect_def)
  then have d: "io_step x (disc_state u) t" by (auto dest!: post_D [OF disconnectUnlocked_post])
  have "ssh_session t = ssh_session (disc_state u)" "sftp_session t = sftp_session (disc_state u)"
    by (rule core_eq_sel [OF io_step_core [OF d]])+
  then have "\<not> ssh_session t" "\<not> sftp_session t" using su by (simp_all add: disc_state_def)
  with u sstep_disc [OF d] show "sstep s t \<and> \<not> ssh_session t \<and> \<not> sftp_session t" by (auto intro: sstep_trans)
qed

lemma skeeps_disconnect: "(case adh of None \<Rightarrow> True | Some f \<Rightarrow> skeeps f) \<Longrightarrow> skeeps (disconnectUnlocked E force tmo adh x)"
  by (rule skeepsI) (auto dest: post_D [OF disconnect_adh_post])

lemma skeeps_in_disconnect: "skeeps (wait_in_disconnect E x toerr err tmo)"
  by (rule skeepsI) (auto dest!: post_D [OF wait_in_disconnect_post] intro: sstep_io)

lemma skeeps_force: "skeeps (force_disconnect E)"
  unfolding force_disconnect_def by (rule skeeps_disconnect) simp

lemma skeeps_closeIntern: "skeeps (qsftp_closeIntern E err tmo)"
  unfolding qsftp_closeIntern_def
  by (intro skeeps_bind skeeps_retry skeeps_in_disconnect skeeps_case skeeps_return skeeps_disconnect) simp

lemma skeeps_tryClose: "skeeps (qsftp_tryClose E h err tmo)"
  unfolding qsftp_tryClose_def
  by (intro skeeps_if skeeps_bind skeeps_closeIntern skeeps_return)

lemma check_cancel_step:
  "qore_check_cancel E s = (b, t) \<Longrightarrow> (if b then raised s t else io_step False s t)"
  by (auto simp: qore_check_cancel_def split: prod.splits if_splits
      intro: raised_raise sstep_call io_step_call)

lemma wait_adh_post:
  assumes "skeeps f" "is_sftp s"
  shows "post (waitSocketUnlocked E toerr err tmo (Some f) True s)
    (\<lambda>r t. if r = 0 then io_step False s t else lost s t)"
proof -
  have d: "post (disconnectUnlocked E True (max tmo DEFAULT_TIMEOUT_MS) (Some f) True u) (\<lambda>r t. lost s t)"
    if "raised s u" for u
  proof (rule post_mono [OF disconnect_adh_post])
    show "is_sftp u" using that assms(2) sstep_sftp [of s u] by (simp add: raised_def)
    show "lost s t" if "sstep u t \<and> \<not> ssh_session t \<and> \<not> sftp_session t" for t
      using that \<open>raised s u\<close> by (auto simp: lost_def intro: raised_trans)
  qed (simp add: assms(1))
  obtain b v where c: "qore_check_cancel E s = (b, v)" by fastforce
  obtain rc w where r: "waitSocketRaw E tmo v = (rc, w)" by fastforce
  have v: "if b then raised s v else io_step False s v" by (rule check_cancel_step [OF c])
  then have w: "\<not> b \<Longrightarrow> io_step False s w" using waitSocketRaw_io [OF r] by (auto intro: io_step_trans)
  then have x: "\<not> b \<Longrightarrow> raised s (raise True e w)" for e by (blast intro: raised_raise sstep_io)
  show ?thesis
    using v w d [OF x] d [of v]
    by (auto simp: waitSocketUnlocked_def waitSocket_with_def c r Let_def elim!: post_mono)
qed

lemma qsftp_wait_post:
  assumes "is_sftp s"
  shows "post (qsftp_waitSocket E h err tmo s) (\<lambda>r t. if r = 0 then io_step False s t else lost s t)"
  unfolding qsftp_waitSocket_def
  by (auto intro!: post_mono [OF wait_adh_post [OF skeeps_tryClose assms]] split: if_splits)

lemma lost_step: "lost s t \<Longrightarrow> sstep s t"
  by (simp add: lost_def raised_def)

lemma skeeps_wait: "skeeps (qsftp_waitSocket E h err tmo)"
  by (rule skeepsI) (auto dest!: post_D [OF qsftp_wait_post] split: if_splits intro: sstep_io lost_step)

lemma qsftp_retry_post:
  assumes "is_sftp s"
  shows "post (retry_loop again (call_ext f) (qsftp_waitSocket E h err tmo) s)
    (\<lambda>r t. case r of Some v \<Rightarrow> \<not> again v \<and> io_step False s t | None \<Rightarrow> lost s t)"
proof (rule retry_loop_post [where I = "\<lambda>t. io_step False s t"])
  fix t r u
  assume st: "io_step False s t" and c: "call_ext f t = (r, u)"
  then have u: "io_step False s u" by (blast intro: io_step_trans io_step_call)
  have "is_sftp u" using assms sstep_sftp [OF sstep_io [OF u]] by simp
  show "post (qsftp_waitSocket E h err tmo u) (\<lambda>wr v. if wr \<noteq> 0 then
      (case None of Some v' \<Rightarrow> \<not> again v' \<and> io_step False s v | None \<Rightarrow> lost s v) else io_step False s v)"
    by (rule post_mono [OF qsftp_wait_post [OF \<open>is_sftp u\<close>]])
      (use u in \<open>auto split: if_splits intro: io_step_trans lost_trans sstep_io\<close>)
  show "\<not> again r \<Longrightarrow> case Some r of Some v \<Rightarrow> \<not> again v \<and> io_step False s u | None \<Rightarrow> lost s u"
    using u by simp
qed simp


text \<open>The operations, from the error report on.\<close>

lemma sessionErr_post:
  assumes "is_sftp s"
  shows "post (sftp_doSessionErrUnlocked E s) (\<lambda>r t. raised s t)"
proof -
  obtain rc u where c: "call_ext (async_io_wait E 0 True False) (raise True ''SSH2-ERROR'' s) = (rc, u)" by fastforce
  have u: "raised s u" by (rule raised_trans(2) [OF raised_raise sstep_call [OF c]]) simp
  then have "is_sftp u" using assms sstep_sftp [of s u] by (simp add: raised_def)
  with u show ?thesis
    by (auto simp: sftp_doSessionErrUnlocked_def c
        intro!: post_mono [OF disconnect_adh_post] intro: raised_trans)
qed

lemma qsftp_err_post:
  assumes "is_sftp s"
  shows "post (qsftp_err E h err tmo s) (\<lambda>r t. raised s t)"
proof (rule post_I)
  fix r t
  assume "qsftp_err E h err tmo s = Some (r, t)"
  then obtain a u where "qsftp_tryClose E h err tmo s = Some (a, u)"
    and e: "sftp_doSessionErrUnlocked E u = Some (r, t)"
    by (auto simp: qsftp_err_def Option.bind_eq_Some_conv)
  then have u: "sstep s u" using assms by (blast intro: skeepsD [OF skeeps_tryClose])
  then have "is_sftp u" using assms by (simp add: sstep_sftp)
  from post_D [OF sessionErr_post [OF this] e] u show "raised s t" by (blast intro: raised_trans)
qed

lemma fail_with_post:
  "is_sftp s \<Longrightarrow> post (fail_with E h err tmo r s) (\<lambda>r' t. r' = r \<and> raised s t)"
  by (auto simp: fail_with_def intro: post_mono [OF qsftp_err_post])

lemma skeeps_err: "skeeps (qsftp_err E h err tmo)"
  by (rule skeepsI) (auto dest!: post_D [OF qsftp_err_post] simp: raised_def)

lemma skeeps_fail: "skeeps (fail_with E h err tmo r)"
  by (rule skeepsI) (auto dest!: post_D [OF fail_with_post] simp: raised_def)

lemmas skeeps_intros = skeeps_bind skeeps_return skeeps_if skeeps_case skeeps_helper
  skeeps_retry skeeps_wait skeeps_tryClose skeeps_err skeeps_fail skeeps_force

lemma skeeps_rd: "(\<And>d. skeeps (f d)) \<Longrightarrow> (\<And>e. skeeps (g e)) \<Longrightarrow> skeeps h \<Longrightarrow>
    skeeps (\<lambda>s. case r of RdData d \<Rightarrow> f d s | RdErr e \<Rightarrow> g e s | RdEagain \<Rightarrow> h s)"
  by (cases r) simp_all

lemma skeeps_ptr: "(\<And>d. skeeps (f d)) \<Longrightarrow> skeeps g \<Longrightarrow> skeeps h \<Longrightarrow>
    skeeps (\<lambda>s. case r of Got d \<Rightarrow> f d s | NullErr \<Rightarrow> g s | NullEagain \<Rightarrow> h s)"
  by (cases r) simp_all

lemma skeeps_list: "skeeps f \<Longrightarrow> (\<And>x xs. skeeps (g x xs)) \<Longrightarrow>
    skeeps (\<lambda>s. case l of [] \<Rightarrow> f s | x # xs \<Rightarrow> g x xs s)"
  by (cases l) simp_all

lemma skeeps_alive: "skeeps (sftpIsAliveUnlocked E tmo)"
  unfolding sftpIsAliveUnlocked_def Let_def
  by (rule skeeps_let [where f = "\<lambda>p s. case call_ext (sftp_opendir E p) s of (r, s) \<Rightarrow> _ r s"])
    (intro skeeps_call skeeps_ptr skeeps_intros)


lemma kept_sink: "kept (s\<lparr>xsink := e\<rparr>) t \<Longrightarrow> kept s (t\<lparr>xsink := e'\<rparr>)"
  using kept_trans [OF kept_trans [OF kept_core]] kept_core by (metis core_upd(2))

lemma sftpConnectedUnlocked_post:
  assumes "is_sftp s"
  shows "post (sftpConnectedUnlocked E s) (\<lambda>r t. kept s t \<and> xsink t = xsink s)"
proof -
  have "post (sftpIsAliveUnlocked E 100 (s\<lparr>xsink := []\<rparr>)) (\<lambda>r t. kept (s\<lparr>xsink := []\<rparr>) t)"
    using assms by (auto intro!: post_I dest!: skeepsD [OF skeeps_alive, rotated] simp: sstep_def)
  then show ?thesis
    by (auto simp: sftpConnectedUnlocked_def intro: kept_sink elim!: post_mono)
qed

lemma fail_connect_post:
  assumes "is_sftp s"
  shows "post (fail_connect E tmo s) (\<lambda>rc t. rc = -1 \<and> lost s t)"
proof (rule post_I, clarsimp simp: Option.bind_eq_Some_conv fail_connect_def)
  fix a t b u
  assume e: "qsftp_err E False ''SFTPCLIENT-CONNECT-ERROR'' tmo s = Some (a, t)"
    and f: "force_disconnect E t = Some (b, u)"
  have r: "raised s t" by (rule post_D [OF qsftp_err_post [OF assms] e])
  then have "is_sftp t" using assms sstep_sftp [of s t] by (simp add: raised_def)
  then have "sstep t u \<and> \<not> ssh_session u \<and> \<not> sftp_session u"
    using f unfolding force_disconnect_def by (auto dest: post_D [OF disconnect_adh_post, rotated 2])
  with r show "lost s u" by (auto simp: lost_def intro: raised_trans)
qed

lemma fail_connect_io:
  assumes "io_step False s t" "is_sftp s"
  shows "post (fail_connect E tmo t) (\<lambda>rc u. rc = -1 \<and> lost s u)"
proof (rule post_mono [OF fail_connect_post])
  show "is_sftp t" using assms sstep_sftp [OF sstep_io [OF assms(1)]] by simp
qed (use assms in \<open>auto intro: lost_trans sstep_io\<close>)

text \<open>What opening the SFTP session does: only the session and the path are set.\<close>

definition resolved :: "('w, 'm) cst \<Rightarrow> int \<Rightarrow> ('w, 'm) cst \<Rightarrow> bool" where
  "resolved s rc t \<longleftrightarrow> rc = 0 \<and> (\<exists>u p. io_step False s u \<and> t = u\<lparr>sftppath := p\<rparr>) \<or> rc = -1 \<and> lost s t"

lemma resolve_path_post:
  assumes "is_sftp s"
  shows "post (sftp_resolve_path E tmo s) (resolved s)"
proof (cases "sftppath s = []")
  case False
  then show ?thesis
    by (auto simp: sftp_resolve_path_def resolved_def intro!: exI [of _ s] exI [of _ "sftppath s"])
next
  case True
  have e: "post (fail_connect E tmo u) (resolved s)" if "io_step False s u" for u
    by (rule post_mono [OF fail_connect_io [OF that assms]]) (simp add: resolved_def)
  have g: "resolved s 0 (u\<lparr>sftppath := p\<rparr>)" if "io_step False s u" for u p
    using that by (auto simp: resolved_def)
  show ?thesis using True unfolding sftp_resolve_path_def
    by (simp del: post_bind, intro post_bindI [OF qsftp_retry_post [OF assms]])
      (auto intro: e g split: option.splits rd.splits list.splits simp: resolved_def [of _ "-1"])
qed

lemma io_step_sftp_session: "io_step x s t \<Longrightarrow> io_step x (s\<lparr>sftp_session := b\<rparr>) (t\<lparr>sftp_session := b\<rparr>)"
  unfolding io_step_def by (elim conjE coreE) (simp add: core_def)

lemma sftp_session_post:
  assumes "is_sftp s" "ssh_session s"
  shows "post (sftp_open_session E tmo s) (\<lambda>rc t. if rc = 0 then resolved (s\<lparr>sftp_session := True\<rparr>) 0 t else rc = -1 \<and> lost s t)"
  unfolding sftp_open_session_def
proof (rule post_bindI [OF qsftp_retry_post [OF assms(1)]], simp only: prod.case)
  fix r :: "unit lptr option" and t
  assume "case r of None \<Rightarrow> lost s t | Some v \<Rightarrow> \<not> is_null_eagain v \<and> io_step False s t"
  then consider "r = None" "lost s t" | "r = Some NullErr" "io_step False s t" | "r = Some (Got ())" "io_step False s t"
    by (auto split: option.splits simp: not_eagain)
  then show "post (case r of
            None \<Rightarrow> Some (-1, t)
          | Some (Got _) \<Rightarrow> sftp_resolve_path E tmo (t\<lparr>sftp_session := True\<rparr>)
          | Some _ \<Rightarrow> fail_connect E tmo t)
    (\<lambda>rc t. if rc = 0 then resolved (s\<lparr>sftp_session := True\<rparr>) 0 t else rc = -1 \<and> lost s t)"
  proof cases
    case 2
    then show ?thesis by (auto intro!: post_mono [OF fail_connect_io [OF 2(2) assms(1)]])
  next
    case 3
    let ?t = "t\<lparr>sftp_session := True\<rparr>" and ?s = "s\<lparr>sftp_session := True\<rparr>"
    have k: "is_sftp ?t" "ssh_session t" using assms core_eq_sel [OF io_step_core [OF 3(2)]] by simp_all
    then have "sstep t ?t" by (simp add: sstep_def kept_def conn_inv_def settings_def policies_def)
    then have st: "sstep s ?t" by (rule sstep_trans [OF sstep_io [OF 3(2)]])
    have io: "io_step False ?s ?t" by (rule io_step_sftp_session [OF 3(2)])
    show ?thesis
      unfolding 3(1) option.case lptr.case
      by (rule post_mono [OF resolve_path_post [OF k(1)]])
        (use st io in \<open>auto simp: resolved_def intro: lost_trans io_step_trans\<close>)
  qed simp
qed


text \<open>
  A client at the beginning of a call: an SFTP client with the connection invariant, no agent
  handle and an empty exception sink.
\<close>

definition ready :: "('w, 'm) cst \<Rightarrow> bool" where
  "ready s \<longleftrightarrow> is_sftp s \<and> conn_inv s \<and> \<not> agent_live s \<and> xsink s = []"

definition sftp_outcome :: "('w, 'm) cst \<Rightarrow> int \<Rightarrow> ('w, 'm) cst \<Rightarrow> bool" where
  "sftp_outcome s rc t \<longleftrightarrow> kept s t \<and>
     (rc = 0 \<and> xsink t = [] \<and> ssh_session t \<and> sftp_session t \<and> sock t \<noteq> None \<and> sshauthenticatedwith t \<noteq> None
      \<or> rc = -1 \<and> xsink t \<noteq> [])"

lemma ready_kept: "ready s \<Longrightarrow> kept s t \<Longrightarrow> xsink t = xsink s \<Longrightarrow> ready t"
  by (simp add: ready_def kept_def settings_def)

lemma sftp_session_helper_post:
  assumes "is_sftp s" "ssh_session s" "sock s \<noteq> None" "sshauthenticatedwith s \<noteq> None" "xsink s = []"
  shows "post (with_blocking_helper (sftp_open_session E tmo) s) (\<lambda>rc t. kept s t \<and>
     (rc = 0 \<and> xsink t = [] \<and> ssh_session t \<and> sftp_session t \<and> sock t \<noteq> None \<and> sshauthenticatedwith t \<noteq> None
      \<or> rc = -1 \<and> xsink t \<noteq> [] \<and> \<not> sftp_session t))"
proof (rule post_I)
  fix rc t
  assume "with_blocking_helper (sftp_open_session E tmo) s = Some (rc, t)"
  then obtain u where o: "sftp_open_session E tmo (BlockingHelper_ctor s) = Some (rc, u)" and t: "t = BlockingHelper_dtor u"
    by (auto simp: with_blocking_helper_def Option.bind_eq_Some_conv)
  let ?c = "BlockingHelper_ctor s"
  let ?d = "?c\<lparr>sftp_session := True\<rparr>"
  have c: "is_sftp ?c" "ssh_session ?c" "sock ?c \<noteq> None" "sshauthenticatedwith ?c \<noteq> None" "xsink ?c = []"
    using assms by (simp_all add: BlockingHelper_ctor_def setBlockingUnlocked_def)
  have d: "kept s ?d" using assms(1,2)
    by (simp add: kept_def BlockingHelper_ctor_def setBlockingUnlocked_def conn_inv_def settings_def policies_def)
  have "if rc = 0 then resolved ?d 0 u else rc = -1 \<and> lost ?c u" by (rule post_D [OF sftp_session_post [OF c(1,2)] o])
  then consider "rc = -1" "lost ?c u" | v p where "rc = 0" "io_step False ?d v" "u = v\<lparr>sftppath := p\<rparr>"
    unfolding resolved_def by (cases "rc = 0") auto
  then show "kept s t \<and>
     (rc = 0 \<and> xsink t = [] \<and> ssh_session t \<and> sftp_session t \<and> sock t \<noteq> None \<and> sshauthenticatedwith t \<noteq> None
      \<or> rc = -1 \<and> xsink t \<noteq> [] \<and> \<not> sftp_session t)"
  proof cases
    case 1
    then have "kept ?c u" by (simp add: lost_def raised_def sstep_def)
    then have "kept s t" unfolding t by (rule kept_around) simp
    with 1 show ?thesis unfolding t
      by (auto simp: lost_def raised_def BlockingHelper_dtor_def setBlockingUnlocked_def)
  next
    case 2
    have "kept s v" using d kept_io [OF 2(2)] by (rule kept_trans)
    moreover have "kept v u" unfolding 2(3) using sstep_path [of v p] by (simp add: sstep_def)
    ultimately have "kept s t" unfolding t by (rule kept_trans [OF kept_trans kept_blocking(2)])
    with 2 c core_eq_sel [OF io_step_core [OF 2(2)]] io_step_xsink(2) [OF 2(2)] show ?thesis unfolding t
      by (simp add: BlockingHelper_dtor_def setBlockingUnlocked_def)
  qed
qed

lemma sftpConnectUnlocked_post:
  assumes "callbacks_neutral E" "ready s"
  shows "post (sftpConnectUnlocked E tmo s) (sftp_outcome s)"
proof (cases "poll_op_in_progress s")
  case True
  then show ?thesis
    by (simp add: sftpConnectUnlocked_def checkPollOpUnlocked_def sftp_outcome_def)
next
  case False
  have step: "post (do { (rc, s) \<leftarrow> sshConnectUnlocked E tmo u;
        if rc \<noteq> 0 then Some (rc, s) else with_blocking_helper (sftp_open_session E tmo) s }) (sftp_outcome s)"
    if u: "kept s u" "ready u" for u
  proof (rule post_bindI [OF sshConnectUnlocked_post])
    fix rc :: int and v
    assume o: "connect_outcome u rc v"
    then have uv: "kept u v" using u(2) by (simp add: kept_def connect_outcome_def ready_def)
    then have sv: "kept s v" by (rule kept_trans [OF u(1)])
    have isf: "is_sftp v" using uv u(2) by (simp add: kept_def ready_def settings_def)
    show "post (case (rc, v) of (rc, s) \<Rightarrow> if rc \<noteq> 0 then Some (rc, s)
        else with_blocking_helper (sftp_open_session E tmo) s) (sftp_outcome s)"
    proof (cases "rc = 0")
      case True
      with o have "ssh_session v" "sock v \<noteq> None" "sshauthenticatedwith v \<noteq> None" "xsink v = []"
        by (auto simp: connect_outcome_def)
      then have "post (with_blocking_helper (sftp_open_session E tmo) v) (sftp_outcome s)"
        by (intro post_mono [OF sftp_session_helper_post [OF isf]]) (auto simp: sftp_outcome_def intro: kept_trans [OF sv])
      with True show ?thesis by simp
    next
      case False
      with o sv show ?thesis by (auto simp: connect_outcome_def sftp_outcome_def)
    qed
  qed (use u assms in \<open>simp_all add: ready_def\<close>)
  have "post (if sftp_session s then force_disconnect E s else Some (0, s)) (\<lambda>r u. kept s u \<and> ready u)"
  proof (cases "sftp_session s")
    case True
    have "kept s u \<and> ready u" if "io_step False (disc_state s) u" for u
      using kept_disc [OF that] io_step_xsink(2) [OF that] assms(2)
      by (auto simp: ready_def kept_def settings_def disc_state_def)
    with True show ?thesis by (auto intro: post_mono [OF force_disconnect_post])
  qed (use assms in simp)
  then have "post (do { (_, s) \<leftarrow> (if sftp_session s then force_disconnect E s else Some (0, s));
      (rc, s) \<leftarrow> sshConnectUnlocked E tmo s;
      if rc \<noteq> 0 then Some (rc, s) else with_blocking_helper (sftp_open_session E tmo) s }) (sftp_outcome s)"
    by (rule post_bindI) (simp only: prod.case, rule step, simp_all)
  with False show ?thesis
    by (simp add: sftpConnectUnlocked_def checkPollOpUnlocked_def del: post_bind)
qed


text \<open>
  The interface of an operation of the SFTP client: from a client at the beginning of a call
  it keeps the connection invariant and the configuration and only adds exceptions. What a
  program needs follows: a following call again finds such a client.
\<close>

definition op_keeps :: "('w, 'm) cenv \<Rightarrow> (('w, 'm) cst \<Rightarrow> ('r \<times> ('w, 'm) cst) option) \<Rightarrow> bool" where
  "op_keeps E f \<longleftrightarrow> (\<forall>s. callbacks_neutral E \<longrightarrow> ready s \<longrightarrow> post (f s) (\<lambda>r t. kept s t))"

locale sftp_op =
  fixes E :: "('w, 'm) cenv" and op :: "('w, 'm) client_scheme \<Rightarrow> ('r \<times> ('w, 'm) client_scheme) option"
  assumes keeps_op: "op_keeps E op"
begin

lemma result_kept: "callbacks_neutral E \<Longrightarrow> ready s \<Longrightarrow> op s = Some (r, t) \<Longrightarrow> kept s t"
  using keeps_op by (auto simp: op_keeps_def post_def)

lemma next_ready: "callbacks_neutral E \<Longrightarrow> ready s \<Longrightarrow> op s = Some (r, t) \<Longrightarrow> ready (t\<lparr>xsink := []\<rparr>)"
  using result_kept [of s r t] by (auto simp: kept_def ready_def settings_def conn_inv_def)

end

lemma op_keepsI: "skeeps f \<Longrightarrow> op_keeps E f"
  by (auto simp: op_keeps_def skeeps_def ready_def sstep_def elim!: post_mono)

lemma op_keeps_if: "op_keeps E f \<Longrightarrow> op_keeps E g \<Longrightarrow> op_keeps E (\<lambda>s. if b then f s else g s)"
  by (cases b) simp_all

text \<open>The implicit connection: the operation proper runs on a connected client without exceptions.\<close>

lemma connected_or_post:
  assumes "callbacks_neutral E" "ready s"
    and "\<And>t. kept s t \<Longrightarrow> ready t \<Longrightarrow> post (f t) Q"
    and "\<And>t. kept s t \<Longrightarrow> xsink t \<noteq> [] \<Longrightarrow> Q r t"
  shows "post (connected_or E tmo r f s) Q"
proof -
  have sf: "is_sftp s" using assms(2) by (simp add: ready_def)
  have con: "post (if alive then Some (0, u) else sftpConnectUnlocked E tmo u)
      (\<lambda>rc v. kept s v \<and> (if rc = 0 then ready v else xsink v \<noteq> []))" if u: "kept s u" "ready u" for alive u
  proof (cases alive)
    case False
    have "kept s v \<and> (if rc = 0 then ready v else xsink v \<noteq> [])" if "sftp_outcome u rc v" for rc v
      using that u ready_kept [OF u(2)] kept_trans [OF u(1)] by (auto simp: sftp_outcome_def ready_def)
    with False show ?thesis by (auto intro: post_mono [OF sftpConnectUnlocked_post [OF assms(1) u(2)]])
  qed (use u in simp)
  have "post (do { (rc, s) \<leftarrow> (if alive then Some (0, u) else sftpConnectUnlocked E tmo u);
      if rc \<noteq> 0 then Some (r, s) else f s }) Q" if u: "kept s u" "ready u" for alive u
    by (rule post_bindI [OF con [OF u]]) (auto simp: assms(3,4) split: if_splits)
  then show ?thesis
    unfolding connected_or_def
    by (intro post_bindI [OF sftpConnectedUnlocked_post [OF sf]])
      (simp only: prod.case, blast intro: ready_kept [OF assms(2)])
qed

lemma op_keeps_connected: "skeeps f \<Longrightarrow> op_keeps E (connected_or E tmo r f)"
  unfolding op_keeps_def
  by (intro allI impI connected_or_post)
    (auto simp: skeeps_def ready_def sstep_def elim!: post_mono intro: kept_trans)

lemma op_keeps_path:
  assumes "\<And>p. skeeps (f p)"
  shows "op_keeps E (connected_or E tmo r (\<lambda>s. with_blocking_helper (f (sftppath s)) s))"
  by (rule op_keeps_connected, rule skeeps_let [where f = "\<lambda>p. with_blocking_helper (f p)"])
    (rule skeeps_helper, rule assms)

lemma skeeps_simple: "skeeps (sftp_simple E err tmo req)"
  unfolding sftp_simple_def by (intro skeeps_intros)

lemma skeeps_stat: "skeeps (stat_loop E call err tmo)"
  unfolding stat_loop_def by (intro skeeps_intros skeeps_pair)

lemma skeeps_chmod: "skeeps (chmod_set E pstr mode tmo)"
  unfolding chmod_set_def chmod_recheck_def Let_def by (intro skeeps_intros skeeps_stat skeeps_pair)

lemma skeeps_chown: "skeeps (chown_set E pstr uid gid tmo)"
  unfolding chown_set_def by (intro skeeps_intros skeeps_stat skeeps_pair skeeps_simple)

lemma skeeps_attributes: "skeeps (get_attributes E call err tmo)"
  unfolding get_attributes_def by (intro skeeps_intros skeeps_stat skeeps_pair)

lemma skeeps_resolves: "skeeps (sftpSymlinkResolvesUnlocked E l t err tmo)"
  unfolding sftpSymlinkResolvesUnlocked_def by (intro skeeps_intros skeeps_rd)

lemma skeeps_symlink: "skeeps (symlink_make E tstr lstr tmo)"
  unfolding symlink_make_def symlink_verify_def by (intro skeeps_intros skeeps_resolves)

lemma skeeps_open: "skeeps (open_handle E call err tmo)"
  unfolding open_handle_def by (intro skeeps_intros skeeps_ptr)


lemma skeeps_readdir: "skeeps (readdir_loop E err tmo acc)"
proof (rule skeepsI)
  fix s r t
  assume sf: "is_sftp s" and ret: "readdir_loop E err tmo acc s = Some (r, t)"
  have "is_sftp s \<longrightarrow> sstep s (snd (r, t))"
  proof (rule readdir_loop.raw_induct [where P = "\<lambda>E err tmo acc s y. is_sftp s \<longrightarrow> sstep s (snd y)", OF _ ret], rule impI)
    fix f E err tmo acc and s :: "('a, 'b) client_scheme" and y
    assume IH: "\<And>E err tmo acc s y. f E err tmo acc s = Some y \<Longrightarrow> is_sftp s \<longrightarrow> sstep s (snd y)" and s: "is_sftp s"
      and body: "do { (r, s) \<leftarrow> retry_loop is_dir_eagain (call_ext (sftp_readdir E)) (qsftp_waitSocket E True err tmo) s;
          case r of
            None \<Rightarrow> Some (None, s)
          | Some DirEnd \<Rightarrow> Some (Some acc, s)
          | Some (DirEntry name attrs) \<Rightarrow> f E err tmo (acc @ [(c_str name, attrs)]) s
          | Some _ \<Rightarrow> fail_with E True err tmo None s } = Some y"
    from body obtain r u where r: "retry_loop is_dir_eagain (call_ext (sftp_readdir E)) (qsftp_waitSocket E True err tmo) s = Some (r, u)"
      and b: "(case r of
            None \<Rightarrow> Some (None, u)
          | Some DirEnd \<Rightarrow> Some (Some acc, u)
          | Some (DirEntry name attrs) \<Rightarrow> f E err tmo (acc @ [(c_str name, attrs)]) u
          | Some _ \<Rightarrow> fail_with E True err tmo None u) = Some y"
      by (auto simp: Option.bind_eq_Some_conv)
    have u: "sstep s u" by (rule skeepsD [OF skeeps_retry [OF skeeps_wait] s r])
    then have "is_sftp u" using s by (simp add: sstep_sftp)
    then have "sstep u (snd y)"
      using b IH skeepsD [OF skeeps_fail, of u E True err tmo None "fst y" "snd y"]
      by (cases r) (auto split: rdir.splits)
    with u show "sstep s (snd y)" by (rule sstep_trans)
  qed
  with sf show "sstep s t" by simp
qed

lemma skeeps_read_directory: "skeeps (read_directory E pstr err tmo)"
  unfolding read_directory_def by (intro skeeps_intros skeeps_open skeeps_readdir)

lemma skeeps_list_path: "(\<And>p. skeeps (f p)) \<Longrightarrow> skeeps (\<lambda>s. f (list_path s q) s)"
  by (rule skeeps_let)

lemma skeeps_then:
  assumes "skeeps f" "\<And>s. sstep s (g s)"
  shows "skeeps (\<lambda>s. f (g s))"
proof (rule skeepsI)
  fix s r t
  assume s: "is_sftp s" and f: "f (g s) = Some (r, t)"
  have "is_sftp (g s)" using s sstep_sftp [OF assms(2)] by simp
  from skeepsD [OF assms(1) this f] show "sstep s t" by (rule sstep_trans [OF assms(2)])
qed

lemma sstep_leave [simp, intro]: "sstep s (BlockingHelper_dtor (s\<lparr>sftppath := p\<rparr>))"
  by (rule sstep_trans [OF sstep_path sstep_blocking(2)])

lemma skeeps_chdir: "skeeps (chdir_to E npath tmo)"
  unfolding chdir_to_def
  by (intro skeeps_bind skeeps_then [OF skeeps_retry [OF skeeps_wait]] skeeps_then [OF skeeps_tryClose]
      skeeps_case skeeps_rd skeeps_list skeeps_if skeeps_open skeeps_err skeeps_return skeeps_ret sstep_blocking sstep_leave)

text \<open>Every operation fulfils the interface.\<close>

interpretation mkdir: sftp_op E "sftpMkdir E dir mode tmo" for E dir mode tmo
  unfolding sftpMkdir_def
  by unfold_locales (rule op_keeps_if [OF op_keepsI [OF skeeps_fail]], rule op_keeps_path, rule skeeps_simple)

interpretation rmdir: sftp_op E "sftpRmdir E dir tmo" for E dir tmo
  unfolding sftpRmdir_def
  by unfold_locales (rule op_keeps_if [OF op_keepsI [OF skeeps_fail]], rule op_keeps_path, rule skeeps_simple)

interpretation rename: sftp_op E "sftpRename E src dst tmo" for E src dst tmo
  unfolding sftpRename_def by unfold_locales (rule op_keeps_path, rule skeeps_simple)

interpretation unlink: sftp_op E "sftpUnlink E fname tmo" for E fname tmo
  unfolding sftpUnlink_def by unfold_locales (rule op_keeps_path, rule skeeps_simple)

interpretation chmod: sftp_op E "sftpChmod E fname mode tmo" for E fname mode tmo
  unfolding sftpChmod_def
  by unfold_locales (rule op_keeps_if [OF op_keepsI [OF skeeps_fail]], rule op_keeps_path, rule skeeps_chmod)

interpretation chown: sftp_op E "sftpChown E fname uid gid tmo" for E fname uid gid tmo
  unfolding sftpChown_def
  by unfold_locales (rule op_keeps_if [OF op_keepsI [OF skeeps_fail]], rule op_keeps_path, rule skeeps_chown)

interpretation symlink: sftp_op E "sftpSymlink E target link_path tmo" for E target link_path tmo
  unfolding sftpSymlink_def
  by unfold_locales (rule op_keeps_if [OF op_keepsI [OF skeeps_fail]], rule op_keeps_path, rule skeeps_symlink)

interpretation readlink: sftp_op E "sftpReadlink E path tmo" for E path tmo
  unfolding sftpReadlink_def
  by unfold_locales (rule op_keeps_if [OF op_keepsI [OF skeeps_fail]], rule op_keeps_connected, rule skeeps_helper,
      rule skeeps_bind, rule skeeps_let [where v = sftppath], rule skeeps_retry, rule skeeps_wait,
      intro skeeps_case skeeps_return skeeps_rd skeeps_fail)

interpretation statvfs: sftp_op E "sftpStatvfs E path tmo" for E path tmo
  unfolding sftpStatvfs_def
  by unfold_locales (rule op_keeps_if [OF op_keepsI [OF skeeps_fail]], rule op_keeps_connected, rule skeeps_helper,
      rule skeeps_bind, rule skeeps_let [where v = sftppath], rule skeeps_stat,
      intro skeeps_case skeeps_return skeeps_pair skeeps_if skeeps_fail)

interpretation getattributes: sftp_op E "sftpGetAttributes E fname tmo" for E fname tmo
  unfolding sftpGetAttributes_def
  by unfold_locales (rule op_keeps_connected, rule skeeps_if, rule skeeps_fail, rule skeeps_let [where v = sftppath],
      rule skeeps_helper, rule skeeps_attributes)

interpretation lgetattributes: sftp_op E "sftpLGetAttributes E fname tmo" for E fname tmo
  unfolding sftpLGetAttributes_def
  by unfold_locales (rule op_keeps_connected, rule skeeps_if, rule skeeps_fail, rule skeeps_let [where v = sftppath],
      rule skeeps_helper, rule skeeps_attributes)

interpretation chdir: sftp_op E "sftpChdir E nwd tmo" for E nwd tmo
  unfolding sftpChdir_def
  by unfold_locales (rule op_keeps_connected, rule skeeps_list_path, rule skeeps_chdir)

interpretation sftplist: sftp_op E "sftpList E path tmo" for E path tmo
  unfolding sftpList_def
  by unfold_locales (rule op_keeps_connected, rule skeeps_list_path, rule skeeps_helper, unfold list_entries_def,
      rule skeeps_bind, rule skeeps_read_directory, rule skeeps_return)

interpretation listfull: sftp_op E "sftpListFull E path tmo" for E path tmo
  unfolding sftpListFull_def
  by unfold_locales (rule op_keeps_connected, rule skeeps_list_path, rule skeeps_helper, unfold list_entries_full_def,
      rule skeeps_bind, rule skeeps_read_directory, rule skeeps_return)

interpretation alive: sftp_op E "sftpIsAliveEx E tmo" for E tmo
  unfolding sftpIsAliveEx_def by unfold_locales (rule op_keepsI, rule skeeps_alive)

interpretation sftpconnect: sftp_op E "sftpConnect E tmo" for E tmo
  unfolding sftpConnect_def
  by unfold_locales (auto simp: op_keeps_def sftp_outcome_def intro!: post_mono [OF sftpConnectUnlocked_post])


section \<open>Results and exceptions\<close>

text \<open>\<open>reports r t\<close>: an \<open>int\<close> result is negative exactly when an exception was raised.\<close>

definition reports :: "int \<Rightarrow> ('w, 'm) cst \<Rightarrow> bool" where
  "reports r t \<longleftrightarrow> (r < 0 \<longleftrightarrow> xsink t \<noteq> [])"

lemma reportsI [intro]: "0 \<le> r \<Longrightarrow> xsink t = [] \<Longrightarrow> reports r t" "r < 0 \<Longrightarrow> xsink t \<noteq> [] \<Longrightarrow> reports r t"
  by (simp_all add: reports_def)

lemma reports_fail:
  assumes "is_sftp s" "r < 0"
  shows "post (fail_with E h err tmo r s) (\<lambda>r t. reports r t)"
  by (rule post_mono [OF fail_with_post [OF assms(1)]]) (use assms(2) in \<open>auto simp: reports_def dest: raised_sink\<close>)

lemma io_step_clear: "io_step False s t \<Longrightarrow> xsink s = [] \<Longrightarrow> xsink t = []"
  by (simp add: io_step_xsink)

lemma retry_reports:
  assumes s: "is_sftp s" "xsink s = []"
    and f: "\<And>r t. io_step False s t \<Longrightarrow> is_sftp t \<Longrightarrow> xsink t = [] \<Longrightarrow> \<not> again r \<Longrightarrow> post (g (Some r) t) reports"
    and n: "\<And>t. xsink t \<noteq> [] \<Longrightarrow> post (g None t) reports"
  shows "post (do { (r, s) \<leftarrow> retry_loop again (call_ext c) (qsftp_waitSocket E h err tmo) s; g r s }) reports"
proof (rule post_bindI [OF qsftp_retry_post [OF s(1)]], simp only: prod.case)
  fix r t
  assume "case r of None \<Rightarrow> lost s t | Some v \<Rightarrow> \<not> again v \<and> io_step False s t"
  then show "post (g r t) reports"
    using s sstep_sftp [OF sstep_io, of False s t]
    by (cases r) (auto intro: f n io_step_clear dest: raised_sink)
qed

lemma simple_reports:
  assumes "is_sftp s" "xsink s = []"
  shows "post (sftp_simple E err tmo req s) reports"
  unfolding sftp_simple_def
  by (rule retry_reports [OF assms])
    (auto simp: not_eagain split: lrc.splits intro: reports_fail)


lemma stat_loop_post:
  assumes "is_sftp s"
  shows "post (stat_loop E call err tmo s) (\<lambda>r t. case r of Some _ \<Rightarrow> io_step False s t | None \<Rightarrow> lost s t)"
  unfolding stat_loop_def
  by (rule post_bindI [OF qsftp_retry_post [OF assms]])
    (auto split: option.splits prod.splits lrc.splits simp: is_stat_eagain_def)

lemma chown_reports:
  assumes "is_sftp s" "xsink s = []"
  shows "post (chown_set E pstr uid gid tmo s) reports"
  unfolding chown_set_def
proof (rule post_bindI [OF stat_loop_post [OF assms(1)]], simp only: prod.case)
  fix r :: "(int \<times> attrs) option" and t
  assume t: "case r of Some _ \<Rightarrow> io_step False s t | None \<Rightarrow> lost s t"
  have "is_sftp t" "xsink t = []" if "io_step False s t"
    using assms sstep_sftp [OF sstep_io [OF that]] io_step_clear [OF that] by simp_all
  with t show "post (case r of None \<Rightarrow> Some (-3, t) | Some (rc, attrs) \<Rightarrow>
      if rc < 0 then fail_with E False ''SFTPCLIENT-CHOWN-ERROR'' tmo rc t
      else sftp_simple E ''SFTPCLIENT-CHOWN-ERROR'' tmo (ReqSetstat pstr
                     (attrs\<lparr>att_flags := LIBSSH2_SFTP_ATTR_UIDGID, att_uid := word_of_int uid,
                            att_gid := word_of_int gid\<rparr>)) t) reports"
    by (cases r) (auto simp: reports_def [of "-3"] dest: raised_sink intro: reports_fail simple_reports)
qed

lemma resolves_post:
  assumes "is_sftp s"
  shows "post (sftpSymlinkResolvesUnlocked E l t err tmo s)
    (\<lambda>b u. io_step False s u \<or> \<not> b \<and> lost s u)"
  unfolding sftpSymlinkResolvesUnlocked_def
  by (rule post_bindI [OF qsftp_retry_post [OF assms]]) (auto split: option.splits rd.splits)

lemma symlink_verify_reports:
  assumes "is_sftp s" "xsink s = []" "rc < 0"
  shows "post (symlink_verify E tstr lstr tmo rc s) reports"
  unfolding symlink_verify_def
proof (rule post_bindI [where P = "\<lambda>ok u. io_step False s u \<or> \<not> ok \<and> lost s u"])
  show "post (if session_last_errno E (world s) = ERR_SFTP_PROTOCOL
             then sftpSymlinkResolvesUnlocked E lstr tstr ''SFTPCLIENT-SYMLINK-ERROR'' tmo s
             else Some (False, s))
      (\<lambda>ok u. io_step False s u \<or> \<not> ok \<and> lost s u)"
    using resolves_post [OF assms(1)] by simp
  fix ok :: bool and u
  assume u: "io_step False s u \<or> \<not> ok \<and> lost s u"
  have "is_sftp u" using u assms(1) sstep_sftp [OF sstep_io, of False s u] sstep_sftp [OF lost_step, of s u] by auto
  with u assms show "post (case (ok, u) of (ok, u) \<Rightarrow> if ok then Some (0, u) else if xsink u \<noteq> [] then Some (-3, u)
      else fail_with E False ''SFTPCLIENT-SYMLINK-ERROR'' tmo rc u) reports"
    by (auto intro: reports_fail dest: io_step_clear raised_sink)
qed

lemma symlink_reports:
  assumes "is_sftp s" "xsink s = []"
  shows "post (symlink_make E tstr lstr tmo s) reports"
  unfolding symlink_make_def
  by (rule retry_reports [OF assms])
    (auto simp: not_eagain split: lrc.splits intro: symlink_verify_reports)

lemma helper_reports:
  assumes "\<And>s. is_sftp s \<Longrightarrow> xsink s = [] \<Longrightarrow> post (f s) reports" "is_sftp s" "xsink s = []"
  shows "post (with_blocking_helper f s) reports"
proof -
  have "post (f (BlockingHelper_ctor s)) reports"
    using assms by (auto simp: BlockingHelper_ctor_def setBlockingUnlocked_def)
  then show ?thesis by (auto simp: with_blocking_helper_def reports_def elim!: post_mono)
qed

lemma connected_reports:
  assumes "callbacks_neutral E" "ready s" "r < 0"
    and "\<And>p s. is_sftp s \<Longrightarrow> xsink s = [] \<Longrightarrow> post (f p s) reports"
  shows "post (connected_or E tmo r (\<lambda>s. with_blocking_helper (f (sftppath s)) s) s) reports"
  by (rule connected_or_post [OF assms(1,2)])
    (use assms(3,4) in \<open>auto simp: ready_def reports_def [of r] intro: helper_reports\<close>)

text \<open>
  C31 (error). The operations of the SFTP client that return a code (\<open>mkdir()\<close>, \<open>rmdir()\<close>,
  \<open>rename()\<close>, \<open>removeFile()\<close>, \<open>chown()\<close>, \<open>symlink()\<close>) return a negative one exactly when an
  exception was raised, whatever failed: the argument, the implicit connection, a wait or the
  request.
\<close>

theorem sftp_codes_report_exceptions:
  assumes "callbacks_neutral E" "ready s"
    and "sftpMkdir E a mode tmo s = Some (r, t) \<or> sftpRmdir E a tmo s = Some (r, t)
      \<or> sftpRename E a b tmo s = Some (r, t) \<or> sftpUnlink E a tmo s = Some (r, t)
      \<or> sftpChown E a uid gid tmo s = Some (r, t) \<or> sftpSymlink E a b tmo s = Some (r, t)"
  shows "(r < 0 \<longleftrightarrow> xsink t \<noteq> []) \<and> conn_inv t \<and> settings t = settings s"
proof -
  note c = connected_reports [OF assms(1,2), where r = "-2", simplified]
  have e: "post (fail_with E False err tmo (-3) s) reports" for err
    by (rule reports_fail) (use assms(2) in \<open>simp_all add: ready_def\<close>)
  have "post (sftpMkdir E a mode tmo s) reports" "post (sftpRmdir E a tmo s) reports" "post (sftpRename E a b tmo s) reports"
    "post (sftpUnlink E a tmo s) reports" "post (sftpChown E a uid gid tmo s) reports" "post (sftpSymlink E a b tmo s) reports"
    unfolding sftpMkdir_def sftpRmdir_def sftpRename_def sftpUnlink_def sftpChown_def sftpSymlink_def
    by (auto intro!: e c simple_reports chown_reports symlink_reports)
  moreover have "kept s t"
    using assms(3) by (elim disjE) (erule mkdir.result_kept [OF assms(1,2)] rmdir.result_kept [OF assms(1,2)]
      rename.result_kept [OF assms(1,2)] unlink.result_kept [OF assms(1,2)] chown.result_kept [OF assms(1,2)]
      symlink.result_kept [OF assms(1,2)])+
  ultimately show ?thesis
    using assms(2,3) by (auto simp: reports_def kept_def ready_def dest: post_D)
qed

theorem sftp_codes_report_exceptions_witness:
  "\<exists>r t. sftpMkdir tenv ''d'' 493 100 sftp_up = Some (r, t) \<and> (r < 0 \<longleftrightarrow> xsink t \<noteq> []) \<and> conn_inv t"
proof -
  have r: "ready sftp_up" by (simp add: ready_def conn_inv_def example_defs)
  have "map_option (\<lambda>_. ()) (sftpMkdir tenv ''d'' 493 100 sftp_up) = Some ()" by code_simp
  then obtain r t where "sftpMkdir tenv ''d'' 493 100 sftp_up = Some (r, t)" by auto
  with sftp_codes_report_exceptions [OF callbacks_neutral_env0 r] show ?thesis by blast
qed

text \<open>
  C32 (invariant). Connecting an SFTP client either succeeds, without exception, with an
  authenticated session and an SFTP session, or it fails with -1 and an exception; in both
  cases the connection invariant and the configuration are kept. The codes 1 to 4 that the
  comment on \<open>sftpConnectUnlocked()\<close> gives for the kinds of failure are never returned.
\<close>

theorem sftp_connect_outcomes:
  assumes "callbacks_neutral E" "ready s" "sftpConnect E tmo s = Some (rc, t)"
  shows "conn_inv t \<and> settings t = settings s \<and> policies t = policies s \<and>
    (rc = 0 \<and> xsink t = [] \<and> ssh_session t \<and> sftp_session t \<and> sock t \<noteq> None \<and> sshauthenticatedwith t \<noteq> None
     \<or> rc = -1 \<and> xsink t \<noteq> [])"
  using post_D [OF sftpConnectUnlocked_post [OF assms(1,2)] assms(3) [unfolded sftpConnect_def]] assms(2)
  by (simp add: sftp_outcome_def kept_def ready_def)

theorem sftp_connect_outcomes_witness:
  "\<exists>t. sftpConnect tenv 100 (client0\<lparr>is_sftp := True\<rparr>) = Some (0, t) \<and> sftp_session t"
proof -
  let ?s = "client0\<lparr>is_sftp := True\<rparr>"
  have r: "ready ?s" by (simp add: ready_def conn_inv_def example_defs)
  have "map_option fst (sftpConnect tenv 100 ?s) = Some 0" by code_simp
  then obtain t where "sftpConnect tenv 100 ?s = Some (0, t)" by auto
  with sftp_connect_outcomes [OF callbacks_neutral_env0 r this] show ?thesis by auto
qed

end
