(* ===== verification/Sftp_Transfer.thy ===== *)
theory Sftp_Transfer
  imports Sftp_Client
begin

text \<open>
  The file transfers of the SFTP client (\<open>src/src/SFTPClient.cpp\<close>): \<open>getFile()\<close>,
  \<open>getTextFile()\<close>, \<open>retrieveFile()\<close> and \<open>get()\<close> read a remote file of the size the server
  reported, \<open>putFile()\<close>, \<open>transferFile()\<close> and \<open>put()\<close> write one. The properties say which
  bytes arrive when the library counts its bytes correctly, and when the loops do not end.
\<close>

section \<open>Reading a remote file\<close>

text \<open>
  The beginning of every read: the size from \<open>stat\<close>, then the open handle. \<open>None\<close> is a
  failure that has been reported.
\<close>

definition open_for_read ::
  "('w, 'm) cenv \<Rightarrow> string \<Rightarrow> string \<Rightarrow> int \<Rightarrow> ('w, 'm) cst \<Rightarrow> (64 word option \<times> ('w, 'm) cst) option" where
  "open_for_read E fname err tmo s =
     do { (r, s) \<leftarrow> stat_loop E (sftp_stat E fname) err tmo s;
          case r of
            None \<Rightarrow> Some (None, s)
          | Some (rc, attrs) \<Rightarrow>
              if rc < 0 then fail_with E False err tmo None s
              else
                do { (opened, s) \<leftarrow> open_handle E (sftp_open_read E fname (att_permissions attrs)) err tmo s;
                     Some (if opened then Some (att_filesize attrs) else None, s) } }"

text \<open>
  The loop of \<open>getFile()\<close> and \<open>getTextFile()\<close>: the whole remainder is asked for. It ends when
  the size from \<open>stat\<close> has been read; a read of no bytes is repeated. After a failure the
  handle is closed already. The count of a read is an \<open>int\<close> in the source; a single read is
  taken to be smaller than that, as the packets of the protocol are.
\<close>

partial_function (option) read_whole ::
  "('w, 'm) cenv \<Rightarrow> string \<Rightarrow> int \<Rightarrow> 64 word \<Rightarrow> 64 word \<Rightarrow> string \<Rightarrow> ('w, 'm) cst \<Rightarrow>
   (string option \<times> ('w, 'm) cst) option" where
  "read_whole E err tmo fsize tot acc s =
     (if fsize - tot = 0 then Some (Some acc, s)
      else
        do { (r, s) \<leftarrow> retry_loop is_rd_eagain (call_ext (sftp_read E (unat (fsize - tot))))
               (qsftp_waitSocket E True err tmo) s;
             case r of
               None \<Rightarrow> Some (None, s)
             | Some (RdData d) \<Rightarrow>
                 (let tot = tot + of_nat (length d)
                  in if tot \<ge> fsize then Some (Some (acc @ d), s)
                     else read_whole E err tmo fsize tot (acc @ d) s)
             | Some _ \<Rightarrow> fail_with E True err tmo None s })"

declare read_whole.simps [code]

definition get_whole ::
  "('w, 'm) cenv \<Rightarrow> string \<Rightarrow> string \<Rightarrow> int \<Rightarrow> ('w, 'm) cst \<Rightarrow> (string option \<times> ('w, 'm) cst) option" where
  "get_whole E fname err tmo s =
     do { (r, s) \<leftarrow> open_for_read E fname err tmo s;
          case r of
            None \<Rightarrow> Some (None, s)
          | Some fsize \<Rightarrow>
              do { (r, s) \<leftarrow> read_whole E err tmo fsize 0 [] s;
                   (_, s) \<leftarrow> qsftp_tryClose E (r \<noteq> None) err tmo s;
                   Some (r, s) } }"

definition sftpGetFile where
  "sftpGetFile E fname tmo s =
     connected_or E tmo None (\<lambda>s. with_blocking_helper
       (get_whole E (absolute_filename (sftppath s) (Some fname)) ''SFTPCLIENT-GETFILE-ERROR'' tmo) s) s"

text \<open>The text is the same bytes with an encoding.\<close>

definition sftpGetTextFile where
  "sftpGetTextFile E fname tmo s =
     connected_or E tmo None (\<lambda>s. with_blocking_helper
       (get_whole E (absolute_filename (sftppath s) (Some fname)) ''SFTPCLIENT-GETTEXTFILE-ERROR'' tmo) s) s"

text \<open>
  The loop of \<open>retrieveFile()\<close> and \<open>get()\<close>: blocks of at most \<open>QSSH2_BUFSIZE\<close> bytes, each
  passed to \<open>sink\<close>, which says whether it failed; \<open>sinkfail\<close> is the result in that case. The
  results are 64-bit counts, with -1 for a failure. The flag says whether the handle is still
  open.
\<close>

partial_function (option) read_blocks ::
  "('w, 'm) cenv \<Rightarrow> string \<Rightarrow> int \<Rightarrow> (string \<Rightarrow> ('w, 'm) cst \<Rightarrow> bool \<times> ('w, 'm) cst) \<Rightarrow> 64 word \<Rightarrow>
   64 word \<Rightarrow> 64 word \<Rightarrow> ('w, 'm) cst \<Rightarrow> ((64 word \<times> bool) \<times> ('w, 'm) cst) option" where
  "read_blocks E err tmo sink sinkfail fsize tot s =
     (if fsize - tot = 0 then Some ((tot, True), s)
      else
        (let bs = (if fsize - tot > of_nat QSSH2_BUFSIZE then of_nat QSSH2_BUFSIZE else fsize - tot)
         in do { (r, s) \<leftarrow> retry_loop is_rd_eagain (call_ext (sftp_read E (unat bs)))
                   (qsftp_waitSocket E True err tmo) s;
                 case r of
                   None \<Rightarrow> Some ((-1, False), s)
                 | Some (RdData d) \<Rightarrow>
                     (let tot = tot + of_nat (length d)
                      in case (if d \<noteq> [] then sink d s else (False, s)) of (failed, s) \<Rightarrow>
                           if failed then Some ((sinkfail, True), s)
                           else if tot \<ge> fsize then Some ((tot, True), s)
                           else read_blocks E err tmo sink sinkfail fsize tot s)
                 | Some _ \<Rightarrow> fail_with E True err tmo (-1, False) s }))"

declare read_blocks.simps [code]

text \<open>The destructor of the helper at the end of a transfer.\<close>

definition close_after ::
  "('w, 'm) cenv \<Rightarrow> string \<Rightarrow> int \<Rightarrow> (('w, 'm) cst \<Rightarrow> (('r \<times> bool) \<times> ('w, 'm) cst) option) \<Rightarrow> ('w, 'm) cst \<Rightarrow>
   ('r \<times> ('w, 'm) cst) option" where
  "close_after E err tmo f s =
     do { (r, s) \<leftarrow> f s; (_, s) \<leftarrow> qsftp_tryClose E (snd r) err tmo s; Some (fst r, s) }"

text \<open>The write to the local file, and to a stream (with the client's lock released).\<close>

definition file_sink :: "('w, 'm) cenv \<Rightarrow> string \<Rightarrow> ('w, 'm) cst \<Rightarrow> bool \<times> ('w, 'm) cst" where
  "file_sink E d s =
     (case call_ext (local_write E d) s of (ok, s) \<Rightarrow> if ok then (False, s) else (True, raise True (file_exn E) s))"

definition stream_sink :: "('w, 'm) cenv \<Rightarrow> string \<Rightarrow> ('w, 'm) cst \<Rightarrow> bool \<times> ('w, 'm) cst" where
  "stream_sink E d s =
     (case call_ext (os_write E d) s of (failed, s) \<Rightarrow>
        if failed then (True, raise True (stream_exn E) s) else (xsink s \<noteq> [], s))"

definition retrieve_body ::
  "('w, 'm) cenv \<Rightarrow> string \<Rightarrow> int \<Rightarrow> int \<Rightarrow> 64 word \<Rightarrow> ('w, 'm) cst \<Rightarrow> ((64 word \<times> bool) \<times> ('w, 'm) cst) option" where
  "retrieve_body E local_file mode tmo fsize s =
     (if sandboxed E \<and> \<not> fs_allowed E local_file [QSEC_WRITE] (world s)
      then Some ((-1, True), raise True (fs_exn E) s)
      else case call_ext (local_open_write E local_file mode) s of (ok, s) \<Rightarrow>
        if \<not> ok then Some ((-1, True), raise True (file_exn E) s)
        else read_blocks E ''SFTPCLIENT-RETRIEVEFILE-ERROR'' tmo (file_sink E) (-1) fsize 0 s)"

definition read_remote ::
  "('w, 'm) cenv \<Rightarrow> string \<Rightarrow> string \<Rightarrow> int \<Rightarrow>
   (64 word \<Rightarrow> ('w, 'm) cst \<Rightarrow> ((64 word \<times> bool) \<times> ('w, 'm) cst) option) \<Rightarrow> ('w, 'm) cst \<Rightarrow>
   (64 word \<times> ('w, 'm) cst) option" where
  "read_remote E fname err tmo body s =
     do { (r, s) \<leftarrow> open_for_read E fname err tmo s;
          case r of
            None \<Rightarrow> Some (-1, s)
          | Some fsize \<Rightarrow> close_after E err tmo (body fsize) s }"

definition sftpRetrieveFile where
  "sftpRetrieveFile E remote_file local_file tmo mode s =
     connected_or E tmo (-1) (\<lambda>s. with_blocking_helper
       (read_remote E (absolute_filename (sftppath s) (Some remote_file)) ''SFTPCLIENT-RETRIEVEFILE-ERROR'' tmo
         (retrieve_body E local_file mode tmo)) s) s"

text \<open>A stream that raises makes \<open>get()\<close> return 0.\<close>

definition sftpGet where
  "sftpGet E remote_file tmo s =
     connected_or E tmo (-1) (\<lambda>s. with_blocking_helper
       (read_remote E (absolute_filename (sftppath s) (Some remote_file)) ''SFTPCLIENT-GET-ERROR'' tmo
         (\<lambda>fsize. read_blocks E ''SFTPCLIENT-GET-ERROR'' tmo (stream_sink E) 0 fsize 0)) s) s"

section \<open>Writing a remote file\<close>

text \<open>
  The loop of \<open>putFile()\<close>, and the inner loop of \<open>transferFile()\<close> and \<open>put()\<close>, which sends one
  buffer.
\<close>

partial_function (option) write_whole ::
  "('w, 'm) cenv \<Rightarrow> string \<Rightarrow> int \<Rightarrow> string \<Rightarrow> 64 word \<Rightarrow> ('w, 'm) cst \<Rightarrow> ((64 word option \<times> bool) \<times> ('w, 'm) cst) option" where
  "write_whole E err tmo outb sz s =
     (if \<not> sz < of_nat (length outb) then Some ((Some sz, True), s)
      else
        do { (r, s) \<leftarrow> retry_loop is_eagain (call_ext (sftp_write E (drop (unat sz) outb)))
               (qsftp_waitSocket E True err tmo) s;
             case r of
               Some (Ret rc) \<Rightarrow>
                 if rc < 0 then fail_with E True err tmo (None, False) s
                 else write_whole E err tmo outb (sz + word_of_int rc) s
             | _ \<Rightarrow> Some ((None, False), s) })"

declare write_whole.simps [code]

partial_function (option) send_buffer ::
  "('w, 'm) cenv \<Rightarrow> string \<Rightarrow> int \<Rightarrow> string \<Rightarrow> nat \<Rightarrow> ('w, 'm) cst \<Rightarrow> (bool \<times> ('w, 'm) cst) option" where
  "send_buffer E err tmo buf ofs s =
     do { (r, s) \<leftarrow> retry_loop is_eagain (call_ext (sftp_write E (drop ofs buf)))
            (qsftp_waitSocket E True err tmo) s;
          case r of
            Some (Ret rc) \<Rightarrow>
              if rc < 0 then fail_with E True err tmo False s
              else if ofs + nat rc = length buf then Some (True, s)
              else send_buffer E err tmo buf (ofs + nat rc) s
          | _ \<Rightarrow> Some (False, s) }"

declare send_buffer.simps [code]

partial_function (option) transfer_loop ::
  "('w, 'm) cenv \<Rightarrow> string \<Rightarrow> int \<Rightarrow> 64 word \<Rightarrow> 64 word \<Rightarrow> ('w, 'm) cst \<Rightarrow>
   ((64 word option \<times> bool) \<times> ('w, 'm) cst) option" where
  "transfer_loop E err tmo towrite sz s =
     (if \<not> sz < towrite then Some ((Some sz, True), s)
      else
        (let bs = (if towrite - sz > of_nat QSSH2_BUFSIZE then of_nat QSSH2_BUFSIZE else towrite - sz)
         in case call_ext (local_read E (unat bs)) s of (d, s) \<Rightarrow>
              (case d of
                 None \<Rightarrow> Some ((None, True), raise True (file_exn E) s)
               | Some buf \<Rightarrow>
                   do { (sent, s) \<leftarrow> send_buffer E err tmo buf 0 s;
                        if \<not> sent then Some ((None, False), s)
                        else transfer_loop E err tmo towrite (sz + of_nat (length buf)) s })))"

declare transfer_loop.simps [code]

partial_function (option) put_loop ::
  "('w, 'm) cenv \<Rightarrow> string \<Rightarrow> int \<Rightarrow> 64 word \<Rightarrow> ('w, 'm) cst \<Rightarrow> ((64 word option \<times> bool) \<times> ('w, 'm) cst) option" where
  "put_loop E err tmo sz s =
     (case call_ext (is_read E QSSH2_BUFSIZE) s of (d, s) \<Rightarrow>
        (case d of
           None \<Rightarrow> Some ((None, True), raise True (stream_exn E) s)
         | Some buf \<Rightarrow>
             if xsink s \<noteq> [] then Some ((None, True), s)
             else if buf = [] then Some ((Some sz, True), s)
             else
               do { (sent, s) \<leftarrow> send_buffer E err tmo buf 0 s;
                    if \<not> sent then Some ((None, False), s)
                    else put_loop E err tmo (sz + of_nat (length buf)) s }))"

declare put_loop.simps [code]

text \<open>
  A write ends with closing the handle: an error that the server reports then is an error of
  the transfer.
\<close>

definition finish_write ::
  "('w, 'm) cenv \<Rightarrow> string \<Rightarrow> int \<Rightarrow> (64 word option \<times> bool) \<Rightarrow> ('w, 'm) cst \<Rightarrow> (64 word \<times> ('w, 'm) cst) option" where
  "finish_write E err tmo r s =
     (case r of
        (None, h) \<Rightarrow> do { (_, s) \<leftarrow> qsftp_tryClose E h err tmo s; Some (-1, s) }
      | (Some sz, h) \<Rightarrow>
          do { (rc, s) \<leftarrow> qsftp_closeIntern E err tmo s;
               if rc \<noteq> Ret 0 \<and> rc \<noteq> Eagain then fail_with E False err tmo (-1) s
               else Some (sz, s) })"

definition write_remote ::
  "('w, 'm) cenv \<Rightarrow> string \<Rightarrow> int \<Rightarrow> string \<Rightarrow> int \<Rightarrow>
   (('w, 'm) cst \<Rightarrow> ((64 word option \<times> bool) \<times> ('w, 'm) cst) option) \<Rightarrow> ('w, 'm) cst \<Rightarrow>
   (64 word \<times> ('w, 'm) cst) option" where
  "write_remote E fname mode err tmo body s =
     do { (opened, s) \<leftarrow> open_handle E (sftp_open_write E fname mode) err tmo s;
          if \<not> opened then Some (-1, s)
          else do { (r, s) \<leftarrow> body s; finish_write E err tmo r s } }"

definition sftpPutFile where
  "sftpPutFile E outb fname mode tmo s =
     connected_or E tmo (-1) (\<lambda>s. with_blocking_helper
       (write_remote E (absolute_filename (sftppath s) (Some fname)) mode ''SFTPCLIENT-PUTFILE-ERROR'' tmo
         (write_whole E ''SFTPCLIENT-PUTFILE-ERROR'' tmo outb 0)) s) s"

definition sftpTransferFile where
  "sftpTransferFile E local_path remote_path mode tmo s =
     (if sandboxed E \<and> \<not> fs_allowed E local_path [QSEC_READ] (world s) then Some (-1, raise True (fs_exn E) s)
      else case call_ext (local_open_read E local_path) s of (ok, s) \<Rightarrow>
        if \<not> ok then Some (-1, raise True (file_exn E) s)
        else
          (case local_fstat E (world s) of
             None \<Rightarrow> Some (-1, raise True ''FILE-STAT-ERROR'' s)
           | Some (st_mode, st_size) \<Rightarrow>
               (let mode = (if mode = 0 then st_mode else mode)
                in connected_or E tmo (-1) (\<lambda>s. with_blocking_helper
                     (write_remote E (absolute_filename (sftppath s) (Some remote_path)) mode
                       ''SFTPCLIENT-TRANSFERFILE-ERROR'' tmo
                       (transfer_loop E ''SFTPCLIENT-TRANSFERFILE-ERROR'' tmo st_size 0)) s) s)))"

definition sftpPut where
  "sftpPut E remote_path mode tmo s =
     connected_or E tmo (-1) (\<lambda>s. with_blocking_helper
       (write_remote E (absolute_filename (sftppath s) (Some remote_path)) mode ''SFTPCLIENT-PUT-ERROR'' tmo
         (put_loop E ''SFTPCLIENT-PUT-ERROR'' tmo 0)) s) s"


section \<open>The contract\<close>

lemma bind_SomeE:
  assumes "Option.bind m f = Some y"
  obtains a t where "m = Some (a, t)" "f (a, t) = Some y"
  using assms by (auto simp: Option.bind_eq_Some_conv)

lemma sftp_step:
  assumes "skeeps f" "f s = Some (r, t)" "is_sftp s" "is_sftp t \<Longrightarrow> sstep t u"
  shows "sstep s u"
proof -
  have "sstep s t" by (rule skeepsD [OF assms(1,3,2)])
  with assms(3,4) show ?thesis by (auto simp: sstep_sftp intro: sstep_trans)
qed

lemmas sftp_steps = sftp_step [OF skeeps_retry [OF skeeps_wait]] sftp_step [OF skeeps_fail]

lemma call_step:
  assumes "call_ext f s = (r, t)" "is_sftp s" "is_sftp t \<Longrightarrow> sstep t u"
  shows "sstep s u"
  using sstep_call [OF assms(1)] assms(2,3) by (auto simp: sstep_sftp intro: sstep_trans)

lemma skeeps_read_whole: "skeeps (read_whole E err tmo fsize tot acc)"
proof (rule skeepsI)
  fix s r t
  assume sf: "is_sftp s" and ret: "read_whole E err tmo fsize tot acc s = Some (r, t)"
  have "is_sftp s \<longrightarrow> sstep s (snd (r, t))"
    by (rule read_whole.raw_induct [where P = "\<lambda>E err tmo fsize tot acc s y. is_sftp s \<longrightarrow> sstep s (snd y)", OF _ ret])
      (auto simp: Let_def split: if_split_asm option.split_asm rd.split_asm
        elim!: bind_SomeE sftp_steps intro: skeepsD [OF skeeps_fail])
  with sf show "sstep s t" by simp
qed

lemma skeeps_write_whole: "skeeps (write_whole E err tmo outb sz)"
proof (rule skeepsI)
  fix s r t
  assume sf: "is_sftp s" and ret: "write_whole E err tmo outb sz s = Some (r, t)"
  have "is_sftp s \<longrightarrow> sstep s (snd (r, t))"
    by (rule write_whole.raw_induct [where P = "\<lambda>E err tmo outb sz s y. is_sftp s \<longrightarrow> sstep s (snd y)", OF _ ret])
      (auto split: if_split_asm option.split_asm lrc.split_asm
        elim!: bind_SomeE sftp_steps intro: skeepsD [OF skeeps_fail])
  with sf show "sstep s t" by simp
qed

lemma skeeps_send_buffer: "skeeps (send_buffer E err tmo buf ofs)"
proof (rule skeepsI)
  fix s r t
  assume sf: "is_sftp s" and ret: "send_buffer E err tmo buf ofs s = Some (r, t)"
  have "is_sftp s \<longrightarrow> sstep s (snd (r, t))"
    by (rule send_buffer.raw_induct [where P = "\<lambda>E err tmo buf ofs s y. is_sftp s \<longrightarrow> sstep s (snd y)", OF _ ret])
      (auto split: if_split_asm option.split_asm lrc.split_asm
        elim!: bind_SomeE sftp_steps intro: skeepsD [OF skeeps_fail])
  with sf show "sstep s t" by simp
qed


lemma skeeps_sink:
  assumes "\<And>d s. sstep s (snd (sink d s))" "\<And>r. skeeps (g r)"
  shows "skeeps (\<lambda>s. case (if d \<noteq> [] then sink d s else (False, s)) of (failed, s) \<Rightarrow> g failed s)"
proof (rule skeepsI)
  fix s r t
  assume s: "is_sftp s" and g: "(case (if d \<noteq> [] then sink d s else (False, s)) of (failed, s) \<Rightarrow> g failed s) = Some (r, t)"
  obtain b u where u: "(if d \<noteq> [] then sink d s else (False, s)) = (b, u)" by fastforce
  have "sstep s u" using u assms(1) [of s d] by (cases "d \<noteq> []") auto
  moreover from this s have "is_sftp u" by (simp add: sstep_sftp)
  then have "sstep u t" using g u by (auto intro: skeepsD [OF assms(2)])
  ultimately show "sstep s t" by (rule sstep_trans)
qed

lemma skeeps_read_blocks:
  fixes E :: "('w, 'm) cenv"
  assumes "\<And>d s. sstep s (snd (sink d s))"
  shows "skeeps (read_blocks E err tmo sink sinkfail fsize tot)"
proof (rule skeepsI)
  fix s r t
  assume sf: "is_sftp s" and ret: "read_blocks E err tmo sink sinkfail fsize tot s = Some (r, t)"
  let ?P = "\<lambda>E err tmo sink sinkfail fsize tot s y. (\<forall>d s. sstep s (snd (sink d s))) \<longrightarrow> is_sftp s \<longrightarrow> sstep s (snd y)"
  have "?P E err tmo sink sinkfail fsize tot s (r, t)"
  proof (rule read_blocks.raw_induct [where P = ?P, OF _ ret], intro impI)
    fix f and E :: "('w, 'm) cenv" and err tmo sink sinkfail and fsize tot :: "64 word" and s :: "('w, 'm) cst" and y
    let ?bs = "if fsize - tot > of_nat QSSH2_BUFSIZE then of_nat QSSH2_BUFSIZE else fsize - tot"
    let ?body = "\<lambda>s. if fsize - tot = 0 then Some ((tot, True), s)
      else do { (r, s) \<leftarrow> retry_loop is_rd_eagain (call_ext (sftp_read E (unat ?bs))) (qsftp_waitSocket E True err tmo) s;
                 case r of
                   None \<Rightarrow> Some ((-1, False), s)
                 | Some (RdData d) \<Rightarrow>
                     (case (if d \<noteq> [] then sink d s else (False, s)) of (failed, s) \<Rightarrow>
                           if failed then Some ((sinkfail, True), s)
                           else if tot + of_nat (length d) \<ge> fsize then Some ((tot + of_nat (length d), True), s)
                           else f E err tmo sink sinkfail fsize (tot + of_nat (length d)) s)
                 | Some _ \<Rightarrow> fail_with E True err tmo (-1, False) s }"
    assume IH: "\<And>E err tmo sink sinkfail fsize tot s y. f E err tmo sink sinkfail fsize tot s = Some y \<Longrightarrow>
        ?P E err tmo sink sinkfail fsize tot s y"
      and body: "(if fsize - tot = 0 then Some ((tot, True), s)
      else
        (let bs = ?bs
         in do { (r, s) \<leftarrow> retry_loop is_rd_eagain (call_ext (sftp_read E (unat bs))) (qsftp_waitSocket E True err tmo) s;
                 case r of
                   None \<Rightarrow> Some ((-1, False), s)
                 | Some (RdData d) \<Rightarrow>
                     (let tot = tot + of_nat (length d)
                      in case (if d \<noteq> [] then sink d s else (False, s)) of (failed, s) \<Rightarrow>
                           if failed then Some ((sinkfail, True), s)
                           else if tot \<ge> fsize then Some ((tot, True), s)
                           else f E err tmo sink sinkfail fsize tot s)
                 | Some _ \<Rightarrow> fail_with E True err tmo (-1, False) s })) = Some y"
      and ok: "\<forall>d s. sstep s (snd (sink d s))" and s: "is_sftp s"
    have k: "skeeps (f E err tmo sink sinkfail fsize tot)" for tot
      by (rule skeepsI) (use IH ok in fastforce)
    have "skeeps ?body"
      by (intro skeeps_if skeeps_return skeeps_bind skeeps_retry skeeps_wait skeeps_case skeeps_rd skeeps_fail
          skeeps_sink k) (use ok in blast)
    moreover have "?body s = Some (fst y, snd y)" using body by (simp only: Let_def prod.collapse)
    ultimately show "sstep s (snd y)" using s by (blast intro: skeepsD)
  qed
  with sf assms show "sstep s t" by simp
qed

lemma sink_steps: "sstep s (snd (file_sink E d s))" "sstep s (snd (stream_sink E d s))"
  by (auto simp: file_sink_def stream_sink_def split: prod.splits intro: sstep_call sstep_trans [OF sstep_call sstep_raise])

lemma skeeps_transfer: "skeeps (transfer_loop E err tmo towrite sz)"
proof (rule skeepsI)
  fix s r t
  assume sf: "is_sftp s" and ret: "transfer_loop E err tmo towrite sz s = Some (r, t)"
  have "is_sftp s \<longrightarrow> sstep s (snd (r, t))"
    by (rule transfer_loop.raw_induct [where P = "\<lambda>E err tmo towrite sz s y. is_sftp s \<longrightarrow> sstep s (snd y)", OF _ ret])
      (auto simp: Let_def split: if_split_asm option.split_asm prod.split_asm
        elim!: bind_SomeE call_step sftp_step [OF skeeps_send_buffer])
  with sf show "sstep s t" by simp
qed

lemma skeeps_put: "skeeps (put_loop E err tmo sz)"
proof (rule skeepsI)
  fix s r t
  assume sf: "is_sftp s" and ret: "put_loop E err tmo sz s = Some (r, t)"
  have "is_sftp s \<longrightarrow> sstep s (snd (r, t))"
    by (rule put_loop.raw_induct [where P = "\<lambda>E err tmo sz s y. is_sftp s \<longrightarrow> sstep s (snd y)", OF _ ret])
      (auto simp: Let_def split: if_split_asm option.split_asm prod.split_asm
        elim!: bind_SomeE call_step sftp_step [OF skeeps_send_buffer])
  with sf show "sstep s t" by simp
qed

lemma skeeps_open_read: "skeeps (open_for_read E fname err tmo)"
  unfolding open_for_read_def by (intro skeeps_intros skeeps_stat skeeps_pair skeeps_open)

lemma skeeps_get_whole: "skeeps (get_whole E fname err tmo)"
  unfolding get_whole_def by (intro skeeps_intros skeeps_open_read skeeps_read_whole)

lemma skeeps_read_remote:
  assumes "\<And>n. skeeps (body n)"
  shows "skeeps (read_remote E fname err tmo body)"
  unfolding read_remote_def close_after_def by (intro skeeps_intros skeeps_open_read assms)

lemma skeeps_retrieve: "skeeps (retrieve_body E lf mode tmo fsize)"
  unfolding retrieve_body_def
  by (intro skeeps_if skeeps_ret skeeps_call sstep_raise skeeps_read_blocks sink_steps)

lemma skeeps_finish: "skeeps (finish_write E err tmo r)"
  unfolding finish_write_def
  by (cases r; cases "fst r") (simp_all, (intro skeeps_intros skeeps_closeIntern)+)

lemma skeeps_write_remote:
  assumes "skeeps body"
  shows "skeeps (write_remote E fname mode err tmo body)"
  unfolding write_remote_def by (intro skeeps_intros skeeps_open assms skeeps_finish)

interpretation getfile: sftp_op E "sftpGetFile E fname tmo" for E fname tmo
  unfolding sftpGetFile_def by unfold_locales (rule op_keeps_path, rule skeeps_get_whole)

interpretation gettextfile: sftp_op E "sftpGetTextFile E fname tmo" for E fname tmo
  unfolding sftpGetTextFile_def by unfold_locales (rule op_keeps_path, rule skeeps_get_whole)

interpretation retrievefile: sftp_op E "sftpRetrieveFile E rfile lfile tmo mode" for E rfile lfile tmo mode
  unfolding sftpRetrieveFile_def
  by unfold_locales (rule op_keeps_path, rule skeeps_read_remote, rule skeeps_retrieve)

interpretation getstream: sftp_op E "sftpGet E rfile tmo" for E rfile tmo
  unfolding sftpGet_def
  by unfold_locales (rule op_keeps_path, rule skeeps_read_remote, rule skeeps_read_blocks, rule sink_steps)

interpretation putfile: sftp_op E "sftpPutFile E outb fname mode tmo" for E outb fname mode tmo
  unfolding sftpPutFile_def
  by unfold_locales (rule op_keeps_path, rule skeeps_write_remote, rule skeeps_write_whole)

interpretation putstream: sftp_op E "sftpPut E rpath mode tmo" for E rpath mode tmo
  unfolding sftpPut_def
  by unfold_locales (rule op_keeps_path, rule skeeps_write_remote, rule skeeps_put)

lemma op_keeps_call:
  fixes E :: "('w, 'm) cenv"
  assumes "\<And>r. op_keeps E (g r)"
  shows "op_keeps E (\<lambda>s. case call_ext f s of (r, s) \<Rightarrow> g r s)"
  unfolding op_keeps_def
proof (intro allI impI)
  fix s :: "('w, 'm) cst"
  assume c: "callbacks_neutral E" and s: "ready s"
  obtain r t where t: "call_ext f s = (r, t)" by fastforce
  have io: "io_step False s t" by (rule io_step_call [OF t])
  have "ready t" by (rule ready_kept [OF s kept_io [OF io] io_step_xsink(2) [OF io]])
  then have "post (g r t) (\<lambda>r u. kept t u)" using assms [of r] c by (simp add: op_keeps_def)
  then show "post (case call_ext f s of (r, s) \<Rightarrow> g r s) (\<lambda>r u. kept s u)"
    using t kept_io [OF io] by (auto elim!: post_mono intro: kept_trans)
qed

interpretation transferfile: sftp_op E "sftpTransferFile E lpath rpath mode tmo" for E lpath rpath mode tmo
proof unfold_locales
  let ?w = "\<lambda>m n. connected_or E tmo (-1) (\<lambda>s. with_blocking_helper
    (write_remote E (absolute_filename (sftppath s) (Some rpath)) m ''SFTPCLIENT-TRANSFERFILE-ERROR'' tmo
      (transfer_loop E ''SFTPCLIENT-TRANSFERFILE-ERROR'' tmo n 0)) s)"
  have w: "op_keeps E (?w m n)" for m n
    by (rule op_keeps_path, rule skeeps_write_remote, rule skeeps_transfer)
  have "op_keeps E (\<lambda>s. case call_ext (local_open_read E lpath) s of (ok, s) \<Rightarrow>
        if \<not> ok then Some (-1, raise True (file_exn E) s)
        else (case local_fstat E (world s) of None \<Rightarrow> Some (-1, raise True ''FILE-STAT-ERROR'' s)
           | Some (st_mode, st_size) \<Rightarrow> ?w (if mode = 0 then st_mode else mode) st_size s))"
    by (rule op_keeps_call) (use w in \<open>auto simp: op_keeps_def split: option.splits\<close>)
  then show "op_keeps E (sftpTransferFile E lpath rpath mode tmo)"
    unfolding op_keeps_def sftpTransferFile_def Let_def by simp
qed

section \<open>Returning\<close>

text \<open>
  The operations return when the library settles: \<open>sftp_settling m E\<close> extends the condition of
  the SSH session to the calls of SFTP.
\<close>

definition sftp_settling :: "('w \<Rightarrow> nat) \<Rightarrow> ('w, 's) env \<Rightarrow> bool" where
  "sftp_settling m E \<longleftrightarrow> settling m E \<and> quiet m (sftp_init E) \<and> (\<forall>p. quiet m (sftp_realpath E p))
     \<and> (\<forall>p. quiet m (sftp_opendir E p)) \<and> quiet m (sftp_readdir E) \<and> (\<forall>p. quiet m (sftp_stat E p))
     \<and> (\<forall>p a. quiet m (sftp_open_read E p a)) \<and> (\<forall>p a. quiet m (sftp_open_write E p a))
     \<and> (\<forall>n. quiet m (sftp_read E n)) \<and> (\<forall>d. quiet m (sftp_write E d)) \<and> quiet m (sftp_close_handle E)"

lemma settlingD: "sftp_settling m E \<Longrightarrow> settling m E" "sftp_settling m E \<Longrightarrow> quiet m (sftp_close_handle E)"
  by (simp_all add: sftp_settling_def)

definition halts :: "('s \<Rightarrow> ('r \<times> 's) option) \<Rightarrow> bool" where
  "halts f \<longleftrightarrow> (\<forall>s. returns (f s))"

lemma haltsD: "halts f \<Longrightarrow> returns (f s)"
  by (simp add: halts_def)

lemma haltsE: 
  assumes "halts f"
  obtains r t where "f s = Some (r, t)"
  using assms unfolding halts_def returns_def by blast

lemma halts_bind: "halts f \<Longrightarrow> (\<And>r. halts (g r)) \<Longrightarrow> halts (\<lambda>s. do { (r, s) \<leftarrow> f s; g r s })"
  by (auto simp: halts_def returns_bind intro!: post_I)

lemma halts_return: "halts (\<lambda>s. Some (r s, f s))"
  by (simp add: halts_def)

lemma halts_if: "halts f \<Longrightarrow> halts g \<Longrightarrow> halts (\<lambda>s. if b s then f s else g s)"
  by (simp add: halts_def)

lemma halts_case:
  "halts f \<Longrightarrow> (\<And>x. halts (g x)) \<Longrightarrow> halts (\<lambda>s. case v of None \<Rightarrow> f s | Some x \<Rightarrow> g x s)"
  "(\<And>n. halts (h n)) \<Longrightarrow> halts k \<Longrightarrow> halts (\<lambda>s. case c of Ret n \<Rightarrow> h n s | Eagain \<Rightarrow> k s)"
  by (cases v; simp) (cases c; simp)

lemma halts_rd: "(\<And>d. halts (f d)) \<Longrightarrow> (\<And>e. halts (g e)) \<Longrightarrow> halts h \<Longrightarrow>
    halts (\<lambda>s. case r of RdData d \<Rightarrow> f d s | RdErr e \<Rightarrow> g e s | RdEagain \<Rightarrow> h s)"
  by (cases r) simp_all

lemma halts_ptr: "(\<And>d. halts (f d)) \<Longrightarrow> halts g \<Longrightarrow> halts h \<Longrightarrow>
    halts (\<lambda>s. case r of Got d \<Rightarrow> f d s | NullErr \<Rightarrow> g s | NullEagain \<Rightarrow> h s)"
  by (cases r) simp_all

lemma halts_list: "halts f \<Longrightarrow> (\<And>x xs. halts (g x xs)) \<Longrightarrow> halts (\<lambda>s. case l of [] \<Rightarrow> f s | x # xs \<Rightarrow> g x xs s)"
  by (cases l) simp_all

lemma halts_call: "(\<And>r. halts (g r)) \<Longrightarrow> halts (\<lambda>s. case call_ext f s of (r, s) \<Rightarrow> g r s)"
  by (simp add: halts_def split: prod.split)

lemma halts_pair: "halts (f (fst p) (snd p)) \<Longrightarrow> halts (\<lambda>s. case p of (x, y) \<Rightarrow> f x y s)"
  by (cases p) simp

lemma halts_helper: "halts f \<Longrightarrow> halts (with_blocking_helper f)"
  by (auto simp: halts_def with_blocking_helper_def returns_bind intro!: post_I)

lemma halts_disconnect:
  assumes "settling m E" "case adh of None \<Rightarrow> True | Some f \<Rightarrow> halts f"
  shows "halts (disconnectUnlocked E force tmo adh x)"
proof -
  have p: "returns (preDisconnect adh s)" for s
    using assms(2) by (cases adh) (simp_all add: preDisconnect_def halts_def)
  have d: "returns (doShutdown E tmo x s)" for s :: "('a, 'b) client_scheme"
    using assms(1) retry_in_disconnect_returns [OF assms(1)]
    by (auto simp: doShutdown_def returns_bind settling_def intro!: post_I)
  have q: "quiet m (session_disconnect E)" "quiet m (session_free E)" using assms(1) by (simp_all add: settling_def)
  have "returns (ssh_disconnectUnlocked E force tmo adh x s)" for s
    unfolding ssh_disconnectUnlocked_def Let_def
    by (auto simp: returns_bind p intro!: post_I retry_in_disconnect_returns [OF assms(1)] q)
  with ssh_disconnect_returns [OF assms(1)] p d show ?thesis
    by (auto simp: halts_def disconnectUnlocked_def sftp_disconnectUnlocked_def returns_bind intro!: post_I)
qed

lemma halts_close: "sftp_settling m E \<Longrightarrow> halts (qsftp_closeIntern E err tmo)"
  unfolding qsftp_closeIntern_def
  by (intro halts_bind halts_case halts_return halts_disconnect [OF settlingD(1)])
    (auto simp: halts_def settlingD retry_in_disconnect_returns [OF settlingD(1)])

lemma halts_tryClose: "sftp_settling m E \<Longrightarrow> halts (qsftp_tryClose E h err tmo)"
  unfolding qsftp_tryClose_def by (intro halts_if halts_bind halts_close halts_return)

lemma qsftp_wait_returns:
  assumes "sftp_settling m E"
  shows "returns (qsftp_waitSocket E h err tmo s) \<and>
    post (qsftp_waitSocket E h err tmo s) (\<lambda>r t. r = 0 \<longrightarrow> m (world t) < m (world s))"
proof -
  note st = settlingD(1) [OF assms]
  obtain b s1 where c: "qore_check_cancel E s = (b, s1)" by fastforce
  then have le: "m (world s1) \<le> m (world s)"
    using st by (auto simp: settling_def quiet_def qore_check_cancel_def call_ext_eq_pair raise_def split: if_splits)
  obtain rc s2 where w: "waitSocketRaw E tmo s1 = (rc, s2)" by fastforce
  have d: "returns (disconnectUnlocked E True n (Some (qsftp_tryClose E h err tmo)) True u)" for n u
    by (rule haltsD [OF halts_disconnect [OF st]]) (simp add: halts_tryClose [OF assms])
  show ?thesis
    unfolding qsftp_waitSocket_def waitSocketUnlocked_def waitSocket_with_def
    using c w d waitSocketRaw_settles [OF st w] le by (auto simp: Let_def returns_bind intro!: post_I split: if_splits)
qed

lemma halts_wait: "sftp_settling m E \<Longrightarrow> halts (qsftp_waitSocket E h err tmo)"
  unfolding halts_def by (blast dest: qsftp_wait_returns)

lemma halts_retry:
  fixes E :: "('w, 'm) cenv"
  assumes "sftp_settling m E" and "quiet m f"
  shows "halts (retry_loop again (call_ext f) (qsftp_waitSocket E h err tmo))"
  unfolding halts_def
proof (intro allI, rule retry_loop_returns [where I = "\<lambda>_. True" and m = "\<lambda>s. m (world s)"])
  fix s :: "('w, 'm) cst" and r u
  assume "call_ext f s = (r, u)"
  then have "m (world u) \<le> m (world s)" by (rule quiet_call [OF assms(2)])
  then show "returns (qsftp_waitSocket E h err tmo u) \<and>
    post (qsftp_waitSocket E h err tmo u) (\<lambda>wr t. wr = 0 \<longrightarrow> True \<and> m (world t) < m (world s))"
    using qsftp_wait_returns [OF assms(1), of h err tmo u] by (auto elim!: post_mono)
qed simp


lemma halts_err: "sftp_settling m E \<Longrightarrow> halts (qsftp_err E h err tmo)"
proof -
  assume st: "sftp_settling m E"
  have "returns (disconnectUnlocked E True 10 None True s)" for s
    by (rule haltsD [OF halts_disconnect [OF settlingD(1) [OF st]]]) simp
  then have "halts (sftp_doSessionErrUnlocked E)"
    by (auto simp: halts_def sftp_doSessionErrUnlocked_def split: prod.split)
  with halts_tryClose [OF st] show ?thesis unfolding qsftp_err_def by (intro halts_bind)
qed

lemma halts_fail: "sftp_settling m E \<Longrightarrow> halts (fail_with E h err tmo r)"
  unfolding fail_with_def by (intro halts_bind halts_err halts_return)

lemma halts_alive:
  assumes "sftp_settling m E"
  shows "halts (sftpIsAliveUnlocked E tmo)"
  using haltsD [OF halts_tryClose [OF assms]] haltsD [OF halts_wait [OF assms]] haltsD [OF halts_fail [OF assms]]
  by (auto simp: halts_def sftpIsAliveUnlocked_def Let_def returns_bind intro!: post_I split: prod.split lptr.split)

lemma halts_fail_connect: "sftp_settling m E \<Longrightarrow> halts (fail_connect E tmo)"
  unfolding fail_connect_def force_disconnect_def
  by (intro halts_bind halts_err halts_disconnect [OF settlingD(1)] halts_return) simp_all

lemma halts_resolve: "sftp_settling m E \<Longrightarrow> halts (sftp_resolve_path E tmo)"
  unfolding sftp_resolve_path_def
  by (intro halts_if halts_bind halts_retry halts_case halts_rd halts_list halts_return halts_fail_connect)
    (auto simp: sftp_settling_def)

lemma halts_open_session: "sftp_settling m E \<Longrightarrow> halts (sftp_open_session E tmo)"
  unfolding sftp_open_session_def
  by (intro halts_bind halts_retry halts_case halts_ptr halts_return halts_fail_connect)
    (auto simp: sftp_settling_def intro: haltsD [OF halts_resolve [unfolded sftp_settling_def]] simp: halts_def)

lemma halts_connect:
  assumes "sftp_settling m E" "agent_finite k E"
  shows "halts (sftpConnectUnlocked E tmo)"
proof -
  have "returns (with_blocking_helper (sftp_open_session E tmo) s)" for s
    by (rule haltsD [OF halts_helper [OF halts_open_session [OF assms(1)]]])
  then show ?thesis
    using sshConnectUnlocked_returns [OF settlingD(1) [OF assms(1)] assms(2)]
      force_disconnect_returns [OF settlingD(1) [OF assms(1)]]
    by (auto simp: halts_def sftpConnectUnlocked_def returns_bind intro!: post_I split: prod.split)
qed

lemma halts_connected_or:
  assumes "sftp_settling m E" "agent_finite k E" "\<And>s. ready s \<Longrightarrow> returns (f s)" "callbacks_neutral E" "ready s"
  shows "returns (connected_or E tmo r f s)"
proof -
  have c: "returns (sftpConnectedUnlocked E s)"
    using haltsD [OF halts_alive [OF assms(1)]] by (auto simp: sftpConnectedUnlocked_def returns_bind intro!: post_I)
  obtain a u where u: "sftpConnectedUnlocked E s = Some (a, u)" using c by (auto simp: returns_def)
  have "is_sftp s" using assms(5) by (simp add: ready_def)
  from post_D [OF sftpConnectedUnlocked_post [OF this] u] have ru: "ready u" using ready_kept [OF assms(5)] by simp
  obtain rc v where v: "(if a then Some (0, u) else sftpConnectUnlocked E tmo u) = Some (rc, v)"
    by (cases a) (auto elim: haltsE [OF halts_connect [OF assms(1,2)]])
  have "rc = 0 \<Longrightarrow> ready v"
    using v ru post_D [OF sftpConnectUnlocked_post [OF assms(4) ru], of tmo rc v] ready_kept [OF ru, of v]
    by (cases a) (auto simp: sftp_outcome_def ready_def)
  with u v assms(3) show ?thesis by (simp add: connected_or_def)
qed

lemma halts_stat: "sftp_settling m E \<Longrightarrow> quiet m call \<Longrightarrow> halts (stat_loop E call err tmo)"
  unfolding stat_loop_def by (intro halts_bind halts_retry halts_case halts_pair halts_return)

lemma halts_open: "sftp_settling m E \<Longrightarrow> quiet m call \<Longrightarrow> halts (open_handle E call err tmo)"
  unfolding open_handle_def by (intro halts_bind halts_retry halts_case halts_ptr halts_return halts_fail)

lemma halts_open_read: "sftp_settling m E \<Longrightarrow> halts (open_for_read E fname err tmo)"
  unfolding open_for_read_def
  by (intro halts_bind halts_stat halts_case halts_pair halts_return halts_if halts_fail halts_open)
    (auto simp: sftp_settling_def)

section \<open>The bytes that arrive\<close>

text \<open>
  An observation of the world that the waits leave alone, and what the loop around a call does
  to it: the call that ended the loop started from the same observation.
\<close>

definition waits_neutral :: "('w \<Rightarrow> 'o) \<Rightarrow> ('w, 's) env \<Rightarrow> bool" where
  "waits_neutral obs E \<longleftrightarrow> (\<forall>tmo rd wr w. obs (snd (async_io_wait E tmo rd wr w)) = obs w)
     \<and> (\<forall>w. obs (snd (check_cancel E w)) = obs w)"

lemma wait_obs:
  assumes "waits_neutral obs E" "qsftp_waitSocket E h err tmo s = Some (0, t)"
  shows "obs (world t) = obs (world s)"
proof -
  obtain b v where c: "qore_check_cancel E s = (b, v)" by fastforce
  obtain rc w where r: "waitSocketRaw E tmo v = (rc, w)" by fastforce
  have "obs (world v) = obs (world s)"
    using c assms(1) by (auto simp: waits_neutral_def qore_check_cancel_def call_ext_eq_pair raise_def split: if_splits prod.splits)
  moreover have "obs (world w) = obs (world v)"
    using r assms(1) by (auto simp: waits_neutral_def waitSocketRaw_def call_ext_eq_pair split: prod.splits)
  moreover have "t = w"
    using assms(2) c r
    by (auto simp: qsftp_waitSocket_def waitSocketUnlocked_def waitSocket_with_def Let_def
        elim!: bind_SomeE split: if_splits)
  ultimately show ?thesis by simp
qed

lemma qsftp_retry_obs_post:
  fixes E :: "('w, 'm) cenv"
  assumes "waits_neutral obs E" "is_sftp s" and "\<And>w v w'. f w = (v, w') \<Longrightarrow> again v \<Longrightarrow> obs w' = obs w"
  shows "post (retry_loop again (call_ext f) (qsftp_waitSocket E h err tmo) s)
    (\<lambda>r t. case r of Some v \<Rightarrow> \<not> again v \<and> io_step False s t \<and> (\<exists>w. obs w = obs (world s) \<and> f w = (v, world t))
       | None \<Rightarrow> lost s t)"
proof -
  let ?loop = "retry_loop again (call_ext f) (qsftp_waitSocket E h err tmo) s"
  have "post ?loop (\<lambda>r t. case r of Some v \<Rightarrow> (\<exists>w. obs w = obs (world s) \<and> f w = (v, world t)) | None \<Rightarrow> True)"
  proof (rule retry_loop_post [where I = "\<lambda>t. obs (world t) = obs (world s)"])
    fix u x :: "('w, 'm) cst" and v
    assume u: "obs (world u) = obs (world s)" and c: "call_ext f u = (v, x)"
    then have f: "f (world u) = (v, world x)" by (auto simp: call_ext_eq_pair)
    show "again v \<Longrightarrow> post (qsftp_waitSocket E h err tmo x) (\<lambda>wr y. if wr \<noteq> 0 then
        (case None of Some v \<Rightarrow> (\<exists>w. obs w = obs (world s) \<and> f w = (v, world y)) | None \<Rightarrow> True)
        else obs (world y) = obs (world s))"
      using assms(3) [OF f] u by (auto intro!: post_I dest: wait_obs [OF assms(1)])
    show "case Some v of Some v \<Rightarrow> (\<exists>w. obs w = obs (world s) \<and> f w = (v, world x)) | None \<Rightarrow> True"
      using u f by auto
  qed simp
  from post_conj [OF this qsftp_retry_post [OF assms(2)]] show ?thesis
    by (rule post_mono) (auto split: option.splits)
qed

lemma qsftp_retry_obs:
  assumes "sftp_settling m E" "quiet m f" "waits_neutral obs E" "is_sftp s"
    and "\<And>w v w'. f w = (v, w') \<Longrightarrow> again v \<Longrightarrow> obs w' = obs w"
  obtains t where "retry_loop again (call_ext f) (qsftp_waitSocket E h err tmo) s = Some (None, t)" "lost s t"
  | v t w where "retry_loop again (call_ext f) (qsftp_waitSocket E h err tmo) s = Some (Some v, t)"
      "\<not> again v" "io_step False s t" "obs w = obs (world s)" "f w = (v, world t)"
proof -
  obtain r t where l: "retry_loop again (call_ext f) (qsftp_waitSocket E h err tmo) s = Some (r, t)"
    by (rule haltsE [OF halts_retry [OF assms(1,2)]])
  have "case r of Some v \<Rightarrow> \<not> again v \<and> io_step False s t \<and> (\<exists>w. obs w = obs (world s) \<and> f w = (v, world t))
      | None \<Rightarrow> lost s t"
    by (rule post_D [OF qsftp_retry_obs_post [OF assms(3,4)] l]) (rule assms(5))
  with l that show thesis by (cases r) auto
qed

lemma qsftp_retry_last:
  assumes "is_sftp s"
  shows "post (retry_loop again (call_ext f) (qsftp_waitSocket E h err tmo) s)
    (\<lambda>r t. case r of Some v \<Rightarrow> \<not> again v \<and> io_step False s t \<and> (\<exists>w. f w = (v, world t)) | None \<Rightarrow> lost s t)"
  by (rule post_mono [OF qsftp_retry_obs_post [where obs = "\<lambda>_. ()", OF _ assms]])
    (auto simp: waits_neutral_def split: option.splits)

text \<open>
  What reading a file relies on of libssh2: \<open>rem\<close> is what has not been read yet through the
  open handle. A read takes at most the bytes asked for from the front, and some if there are
  any; a read that would block takes none. \<open>serves_file\<close> says what the server has under the
  name: \<open>stat\<close> gives the size of the content, and the handle starts at its beginning.
\<close>

definition reads_file :: "('w \<Rightarrow> string) \<Rightarrow> ('w, 's) env \<Rightarrow> bool" where
  "reads_file rem E \<longleftrightarrow>
     (\<forall>n w. case sftp_read E n w of
        (RdData d, w') \<Rightarrow> length d \<le> n \<and> rem w = d @ rem w' \<and> (0 < n \<and> rem w \<noteq> [] \<longrightarrow> d \<noteq> [])
      | (RdEagain, w') \<Rightarrow> rem w' = rem w
      | (RdErr e, w') \<Rightarrow> True)
     \<and> waits_neutral rem E"

definition serves_file :: "('w \<Rightarrow> string) \<Rightarrow> ('w, 's) env \<Rightarrow> string \<Rightarrow> string \<Rightarrow> bool" where
  "serves_file rem E fname content \<longleftrightarrow> reads_file rem E
     \<and> (\<forall>w rc a w'. sftp_stat E fname w = ((Ret rc, a), w') \<and> 0 \<le> rc \<longrightarrow> unat (att_filesize a) = length content)
     \<and> (\<forall>p w w'. sftp_open_read E fname p w = (Got (), w') \<longrightarrow> rem w' = content)"

lemma reads_fileD:
  assumes "reads_file rem E" "sftp_read E n w = (v, w')"
  shows "v = RdEagain \<Longrightarrow> rem w' = rem w"
    "v = RdData d \<Longrightarrow> length d \<le> n \<and> rem w = d @ rem w' \<and> (0 < n \<and> rem w \<noteq> [] \<longrightarrow> d \<noteq> [])"
proof -
  have "case sftp_read E n w of
        (RdData d, w') \<Rightarrow> length d \<le> n \<and> rem w = d @ rem w' \<and> (0 < n \<and> rem w \<noteq> [] \<longrightarrow> d \<noteq> [])
      | (RdEagain, w') \<Rightarrow> rem w' = rem w
      | (RdErr e, w') \<Rightarrow> True"
    using assms(1) by (simp add: reads_file_def)
  then have c: "case v of RdData d \<Rightarrow> length d \<le> n \<and> rem w = d @ rem w' \<and> (0 < n \<and> rem w \<noteq> [] \<longrightarrow> d \<noteq> [])
      | RdEagain \<Rightarrow> rem w' = rem w | RdErr e \<Rightarrow> True"
    unfolding assms(2) prod.case .
  show "rem w' = rem w" if "v = RdEagain" using c unfolding that rd.case .
  show "length d \<le> n \<and> rem w = d @ rem w' \<and> (0 < n \<and> rem w \<noteq> [] \<longrightarrow> d \<noteq> [])" if "v = RdData d"
    using c unfolding that rd.case .
qed

lemma read_whole_reads:
  fixes E :: "('w, 'm) cenv"
  assumes live: "sftp_settling m E" and rf: "reads_file rem E"
    and size: "unat fsize = length content"
    and start: "is_sftp s" "unat tot \<le> unat fsize" "rem (world s) = drop (unat tot) content"
  shows "\<exists>r t. read_whole E err tmo fsize tot acc s = Some (r, t) \<and>
    (case r of Some d \<Rightarrow> d = acc @ drop (unat tot) content \<and> io_step False s t | None \<Rightarrow> raised s t)"
  using start
proof (induction "unat fsize - unat tot" arbitrary: tot acc s rule: less_induct)
  case less
  show ?case
  proof (cases "fsize = tot")
    case True
    then show ?thesis using size by (subst read_whole.simps) simp
  next
    case False
    let ?f = "sftp_read E (unat (fsize - tot))"
    have lt: "unat tot < unat fsize" using False less.prems(2) by (metis le_neq_implies_less unsigned_word_eqI)
    have sub: "unat (fsize - tot) = unat fsize - unat tot"
      using lt by (simp add: unat_sub word_le_nat_alt less_imp_le)
    have q: "quiet m ?f" using live by (simp add: sftp_settling_def)
    have wn: "waits_neutral rem E" using rf by (simp add: reads_file_def)
    have again: "rem w' = rem w" if "?f w = (v, w')" "is_rd_eagain v" for w v w'
    proof -
      have "v = RdEagain" using that(2) by (cases v) simp_all
      with reads_fileD(1) [OF rf that(1)] show ?thesis by simp
    qed
    consider (lost) u where "retry_loop is_rd_eagain (call_ext ?f) (qsftp_waitSocket E True err tmo) s = Some (None, u)" "lost s u"
      | (got) v u w where "retry_loop is_rd_eagain (call_ext ?f) (qsftp_waitSocket E True err tmo) s = Some (Some v, u)"
        "\<not> is_rd_eagain v" "io_step False s u" "rem w = rem (world s)" "?f w = (v, world u)"
      by (rule qsftp_retry_obs [OF live q wn less.prems(1) again])
    then show ?thesis
    proof cases
      case lost
      then show ?thesis using False by (subst read_whole.simps) (simp add: raised_sink)
    next
      case got
      have iu: "is_sftp u" using less.prems(1) sstep_sftp [OF sstep_io [OF got(3)]] by simp
      show ?thesis
      proof (cases v)
        case (RdErr e)
        obtain r t where f: "fail_with E True err tmo None u = Some (r :: string option, t)"
          by (rule haltsE [OF halts_fail [OF live]])
        from post_D [OF fail_with_post [OF iu] f] have "r = None" "raised s t"
          by (auto intro: raised_trans sstep_io [OF got(3)])
        with f got(1) RdErr False show ?thesis by (subst read_whole.simps) simp
      next
        case (RdData d)
        define b where "b = tot + of_nat (length d)"
        have d: "length d \<le> unat fsize - unat tot" "drop (unat tot) content = d @ rem (world u)" "d \<noteq> []"
          using reads_fileD(2) [OF rf got(5) RdData] sub got(4) less.prems(3) lt size by auto
        have "unat fsize < 2 ^ LENGTH(64)" by (rule unsigned_less)
        then have "unat tot + length d < 2 ^ 64" using d(1) lt by simp
        then have ub: "unat b = unat tot + length d" unfolding b_def by (simp add: unat_word_ariths unat_of_nat)
        have step: "read_whole E err tmo fsize tot acc s =
            (if unat fsize \<le> unat b then Some (Some (acc @ d), u) else read_whole E err tmo fsize b (acc @ d) u)"
          using got(1) RdData False by (subst read_whole.simps) (simp add: Let_def b_def [symmetric] word_le_nat_alt)
        have rem: "rem (world u) = drop (unat b) content"
          using d(2) unfolding ub by (metis append_eq_conv_conj drop_drop add.commute)
        show ?thesis
        proof (cases "unat fsize \<le> unat b")
          case True
          then have "rem (world u) = []" using rem size by simp
          with True step d got(3) show ?thesis by simp
        next
          case notyet: False
          have "unat fsize - unat b < unat fsize - unat tot" using ub d(3) lt by (cases d) auto
          from less.hyps [OF this iu _ rem, of "acc @ d"] notyet obtain r t where
            "read_whole E err tmo fsize b (acc @ d) u = Some (r, t)"
            "case r of Some x \<Rightarrow> x = (acc @ d) @ drop (unat b) content \<and> io_step False u t | None \<Rightarrow> raised u t" by auto
          with step notyet d(2) rem got(3) show ?thesis
            by (cases r) (auto intro: io_step_trans raised_trans sstep_io)
        qed
      qed (use got in simp)
    qed
  qed
qed


lemma stat_loop_last:
  assumes "is_sftp s"
  shows "post (stat_loop E call err tmo s)
    (\<lambda>r t. case r of Some (rc, a) \<Rightarrow> io_step False s t \<and> (\<exists>w. call w = ((Ret rc, a), world t)) | None \<Rightarrow> lost s t)"
  unfolding stat_loop_def
  by (rule post_bindI [OF qsftp_retry_last [OF assms]])
    (auto split: option.splits prod.splits lrc.splits simp: is_stat_eagain_def)

lemma open_handle_last:
  assumes "is_sftp s"
  shows "post (open_handle E call err tmo s)
    (\<lambda>r t. if r then io_step False s t \<and> (\<exists>w. call w = (Got (), world t)) else raised s t)"
  unfolding open_handle_def
proof (rule post_bindI [OF qsftp_retry_last [OF assms]], simp only: prod.case)
  fix r :: "unit lptr option" and t
  assume r: "case r of None \<Rightarrow> lost s t | Some v \<Rightarrow> \<not> is_null_eagain v \<and> io_step False s t \<and> (\<exists>w. call w = (v, world t))"
  have f: "post (fail_with E False err tmo False t) (\<lambda>r u. (r \<longrightarrow> P u) \<and> (\<not> r \<longrightarrow> raised s u))" if "io_step False s t" for P
    by (rule post_mono [OF fail_with_post])
      (use assms sstep_sftp [OF sstep_io [OF that]] in \<open>auto intro: raised_trans sstep_io [OF that]\<close>)
  show "post (case r of Some (Got _) \<Rightarrow> Some (True, t) | Some _ \<Rightarrow> fail_with E False err tmo False t | None \<Rightarrow> Some (False, t))
    (\<lambda>r t. if r then io_step False s t \<and> (\<exists>w. call w = (Got (), world t)) else raised s t)"
    using r f by (auto split: option.splits lptr.splits simp: raised_sink intro!: f)
qed

lemma serves_open:
  assumes "serves_file rem E fname content" "is_sftp s"
  shows "post (open_for_read E fname err tmo s) (\<lambda>r t. case r of None \<Rightarrow> raised s t
      | Some fsize \<Rightarrow> io_step False s t \<and> unat fsize = length content \<and> rem (world t) = content)"
  unfolding open_for_read_def
proof (rule post_bindI [OF stat_loop_last [OF assms(2)]], simp only: prod.case)
  fix r :: "(int \<times> attrs) option" and t
  assume r: "case r of Some (rc, a) \<Rightarrow> io_step False s t \<and> (\<exists>w. sftp_stat E fname w = ((Ret rc, a), world t)) | None \<Rightarrow> lost s t"
  show "post (case r of None \<Rightarrow> Some (None, t)
          | Some (rc, attrs) \<Rightarrow>
              if rc < 0 then fail_with E False err tmo None t
              else do { (opened, s) \<leftarrow> open_handle E (sftp_open_read E fname (att_permissions attrs)) err tmo t;
                     Some (if opened then Some (att_filesize attrs) else None, s) })
      (\<lambda>r t. case r of None \<Rightarrow> raised s t
      | Some fsize \<Rightarrow> io_step False s t \<and> unat fsize = length content \<and> rem (world t) = content)"
  proof (cases r)
    case None
    with r show ?thesis by (simp add: raised_sink)
  next
    case (Some p)
    obtain rc a where p: "p = (rc, a)" by fastforce
    with r Some have io: "io_step False s t" by simp
    have st: "is_sftp t" using assms(2) sstep_sftp [OF sstep_io [OF io]] by simp
    have rt: "raised t u \<Longrightarrow> raised s u" for u by (rule raised_trans(1) [OF sstep_io [OF io]])
    show ?thesis
    proof (cases "rc < 0")
      case True
      then show ?thesis unfolding Some p by (auto intro!: post_mono [OF fail_with_post [OF st]] rt)
    next
      case False
      with r Some p assms(1) have sz: "unat (att_filesize a) = length content"
        unfolding serves_file_def by (auto simp: not_less)
      show ?thesis
        using False assms(1) unfolding Some p serves_file_def
        by (auto intro!: post_mono [OF open_handle_last [OF st]] rt sz intro: io_step_trans [OF io] split: if_splits)
    qed
  qed
qed

lemma get_whole_reads:
  assumes "serves_file rem E fname content" "sftp_settling m E" "is_sftp s"
  shows "\<exists>r t. get_whole E fname err tmo s = Some (r, t) \<and>
    (case r of Some d \<Rightarrow> d = content | None \<Rightarrow> raised s t)"
proof -
  obtain r t where o: "open_for_read E fname err tmo s = Some (r, t)"
    by (rule haltsE [OF halts_open_read [OF assms(2)]])
  note p = post_D [OF serves_open [OF assms(1,3)] o]
  show ?thesis
  proof (cases r)
    case None
    with o p show ?thesis by (simp add: get_whole_def)
  next
    case (Some fsize)
    have io: "io_step False s t" and f: "unat fsize = length content" "rem (world t) = content" using p Some by simp_all
    have st: "is_sftp t" using assms(3) sstep_sftp [OF sstep_io [OF io]] by simp
    have rf: "reads_file rem E" using assms(1) by (simp add: serves_file_def)
    have "unat (0 :: 64 word) \<le> unat fsize" "rem (world t) = drop (unat (0 :: 64 word)) content" using f(2) by simp_all
    from read_whole_reads [OF assms(2) rf f(1) st this] obtain d u
      where d: "read_whole E err tmo fsize 0 [] t = Some (d, u)"
      and "case d of Some d \<Rightarrow> d = [] @ drop (unat (0 :: 64 word)) content \<and> io_step False t u | None \<Rightarrow> raised t u" by blast
    then have dp: "case d of Some d \<Rightarrow> d = content \<and> io_step False t u | None \<Rightarrow> raised t u"
      by (simp cong: option.case_cong)
    obtain a v where c: "qsftp_tryClose E (d \<noteq> None) err tmo u = Some (a, v)"
      by (rule haltsE [OF halts_tryClose [OF assms(2)]])
    have "d = None \<Longrightarrow> v = u" using c by (simp add: qsftp_tryClose_def)
    with o Some d dp c show ?thesis
      by (cases d) (auto simp: get_whole_def intro: raised_trans sstep_io [OF io])
  qed
qed

text \<open>
  C33 (liveness). \<open>getFile()\<close> returns, when the library settles: either the exact content of the
  remote file, or nothing after an exception. The file is one whose size is the one that \<open>stat\<close>
  reported and whose reads make progress until its end.
\<close>

theorem get_file_exact:
  assumes "sftp_settling m E" "agent_finite k E" "callbacks_neutral E"
    and "serves_file rem E (CHR ''/'' # f) content" and "ready s"
  shows "\<exists>r t. sftpGetFile E (CHR ''/'' # f) tmo s = Some (r, t) \<and>
    (case r of Some d \<Rightarrow> d = content | None \<Rightarrow> xsink t \<noteq> [])"
proof -
  let ?g = "with_blocking_helper (get_whole E (CHR ''/'' # f) ''SFTPCLIENT-GETFILE-ERROR'' tmo)"
  have g: "\<exists>r t. ?g u = Some (r, t) \<and> (case r of Some d \<Rightarrow> d = content | None \<Rightarrow> xsink t \<noteq> [])" if "ready u" for u
  proof -
    have "is_sftp (BlockingHelper_ctor u)"
      using that by (simp add: ready_def BlockingHelper_ctor_def setBlockingUnlocked_def)
    from get_whole_reads [OF assms(4,1) this, of "''SFTPCLIENT-GETFILE-ERROR''" tmo] show ?thesis
      by (fastforce simp: with_blocking_helper_def dest: raised_sink split: option.splits)
  qed
  have "sftpGetFile E (CHR ''/'' # f) tmo s = connected_or E tmo None (\<lambda>s. ?g s) s"
    by (simp add: sftpGetFile_def absolute_filename_def)
  moreover have "returns (connected_or E tmo None (\<lambda>s. ?g s) s)"
    by (rule halts_connected_or [OF assms(1,2) _ assms(3,5)]) (use g in \<open>unfold returns_def, blast\<close>)
  moreover have "post (connected_or E tmo None (\<lambda>s. ?g s) s) (\<lambda>r t. case r of Some d \<Rightarrow> d = content | None \<Rightarrow> xsink t \<noteq> [])"
    by (rule connected_or_post [OF assms(3,5)]) (use g in \<open>force simp: post_def\<close>)+
  ultimately show ?thesis by (auto simp: returns_def dest: post_D)
qed


definition env_file :: "(tworld, tworld client) env" where
  "env_file = env0\<lparr>sftp_stat := (\<lambda>_ w. ((Ret 0, attrs0), w)),
     sftp_open_read := (\<lambda>_ _ w. if pending w > 0 then (NullEagain, w) else (Got (), w\<lparr>log := [''abc'']\<rparr>)),
     sftp_read := (\<lambda>n w. if pending w > 0 then (RdEagain, w)
       else (RdData (take (min n 2) (concat (log w))), w\<lparr>log := [drop (min n 2) (concat (log w))]\<rparr>))\<rparr>"

lemma env_file_ok:
  "sftp_settling pending env_file" "agent_finite 1 env_file" "serves_file (\<lambda>w. concat (log w)) env_file ''/f'' ''abc''"
proof -
  show "sftp_settling pending env_file"
    using settling_env0 [where 's = "tworld client"]
    by (auto simp: sftp_settling_def env_file_def settling_def quiet_def env0_def pblocks_def blocks_def logged_def)
  show "agent_finite 1 env_file" using agent_finite_env0 by (simp add: agent_finite_def env_file_def)
  show "serves_file (\<lambda>w. concat (log w)) env_file ''/f'' ''abc''"
    by (auto simp: serves_file_def reads_file_def waits_neutral_def env_file_def env0_def wait0_def attrs0_def)
qed

lemma callbacks_neutral_file: "callbacks_neutral env_file"
  using callbacks_neutral_env0 by (simp add: callbacks_neutral_def env_file_def)

lemma sftp_up_ready: "ready sftp_up" "ready (sftp_up\<lparr>world := w\<rparr>)"
  by (simp_all add: ready_def conn_inv_def example_defs)

theorem get_file_exact_witness:
  "\<exists>r t. sftpGetFile env_file ''/f'' 100 (sftp_up\<lparr>world := \<lparr>pending = 2, log = []\<rparr>\<rparr>) = Some (r, t) \<and>
    (case r of Some d \<Rightarrow> d = ''abc'' | None \<Rightarrow> xsink t \<noteq> [])"
  by (rule get_file_exact [OF env_file_ok(1,2) callbacks_neutral_file env_file_ok(3) sftp_up_ready(2)])

text \<open>The loop cannot come to its end when fewer bytes are left than it waits for.\<close>

lemma read_whole_short:
  fixes s :: "('w, 'm) cst"
  assumes "read_whole E err tmo fsize tot acc s = Some y" "reads_file rem E" "is_sftp s"
    and "unat tot + length (rem (world s)) < unat fsize"
  shows "fst y = None \<and> (\<exists>n w w' v. sftp_read E n w = (v, w') \<and> (\<forall>d. v \<noteq> RdData d))"
proof -
  let ?stops = "\<exists>n w w' v. sftp_read E n w = (v, w') \<and> (\<forall>d. v \<noteq> RdData d)"
  let ?P = "\<lambda>E' (err :: string) (tmo :: int) (fsize :: 64 word) (tot :: 64 word) (acc :: string) (u :: ('w, 'm) cst)
    (y :: string option \<times> ('w, 'm) cst). E' = E \<longrightarrow> is_sftp u \<longrightarrow> unat tot + length (rem (world u)) < unat fsize \<longrightarrow>
      fst y = None \<and> ?stops"
  have "?P E err tmo fsize tot acc s y"
  proof (rule read_whole.raw_induct [where P = ?P, OF _ assms(1)], intro impI)
    fix f E' err tmo fsize tot acc and s :: "('w, 'm) cst" and y
    assume IH: "\<And>E err tmo fsize tot acc s y. f E err tmo fsize tot acc s = Some y \<Longrightarrow> ?P E err tmo fsize tot acc s y"
      and body: "(if fsize - tot = 0 then Some (Some acc, s)
      else
        do { (r, s) \<leftarrow> retry_loop is_rd_eagain (call_ext (sftp_read E' (unat (fsize - tot))))
               (qsftp_waitSocket E' True err tmo) s;
             case r of
               None \<Rightarrow> Some (None, s)
             | Some (RdData d) \<Rightarrow>
                 (let tot = tot + of_nat (length d)
                  in if tot \<ge> fsize then Some (Some (acc @ d), s)
                     else f E' err tmo fsize tot (acc @ d) s)
             | Some _ \<Rightarrow> fail_with E' True err tmo None s }) = Some y"
      and E: "E' = E" and sf: "is_sftp s" and short: "unat tot + length (rem (world s)) < unat fsize"
    let ?f = "sftp_read E (unat (fsize - tot))"
    from short have ne: "fsize - tot \<noteq> 0" by auto
    with body E obtain r u where
      l: "retry_loop is_rd_eagain (call_ext ?f) (qsftp_waitSocket E True err tmo) s = Some (r, u)"
      and k: "(case r of
               None \<Rightarrow> Some (None, u)
             | Some (RdData d) \<Rightarrow>
                 (let tot = tot + of_nat (length d)
                  in if tot \<ge> fsize then Some (Some (acc @ d), u)
                     else f E err tmo fsize tot (acc @ d) u)
             | Some _ \<Rightarrow> fail_with E True err tmo None u) = Some y"
      by (auto simp: Option.bind_eq_Some_conv)
    have wn: "waits_neutral rem E" using assms(2) by (simp add: reads_file_def)
    have again: "rem w' = rem w" if "?f w = (v, w')" "is_rd_eagain v" for w v w'
      using that reads_fileD(1) [OF assms(2) that(1)] by (cases v) simp_all
    have p: "case r of Some v \<Rightarrow> \<not> is_rd_eagain v \<and> io_step False s u \<and> (\<exists>w. rem w = rem (world s) \<and> ?f w = (v, world u))
        | None \<Rightarrow> lost s u"
      by (rule post_D [OF qsftp_retry_obs_post [OF wn sf] l]) (rule again)
    show "fst y = None \<and> ?stops"
    proof (cases "\<exists>d. r = Some (RdData d)")
      case True
      then obtain d w where d: "r = Some (RdData d)" "io_step False s u" "rem w = rem (world s)" "?f w = (RdData d, world u)"
        using p by auto
      have "rem (world s) = d @ rem (world u)" using reads_fileD(2) [OF assms(2) d(4) refl] d(3) by simp
      then have sum: "unat tot + length d + length (rem (world u)) < unat fsize" using short by simp
      have "unat fsize < 2 ^ LENGTH(64)" by (rule unsigned_less)
      then have "unat tot + length d < 2 ^ 64" using sum by simp
      then have b: "unat (tot + of_nat (length d)) = unat tot + length d" by (simp add: unat_word_ariths unat_of_nat)
      have "is_sftp u" using sf sstep_sftp [OF sstep_io [OF d(2)]] by simp
      moreover have "\<not> fsize \<le> tot + of_nat (length d)" using b sum by (simp add: word_le_nat_alt)
      ultimately show ?thesis
        using k d(1) IH [of E err tmo fsize "tot + of_nat (length d)" "acc @ d" u y] b sum by (simp add: Let_def)
    next
      case False
      have "fst y = None" using k False by (cases r) (auto simp: fail_with_def Option.bind_eq_Some_conv split: rd.splits)
      moreover have ?stops
      proof (rule ccontr)
        assume "\<not> ?stops"
        then obtain d w' where w: "?f (world s) = (RdData d, w')" by (cases "?f (world s)") blast
        have "retry_loop is_rd_eagain (call_ext ?f) (qsftp_waitSocket E True err tmo) s
            = Some (Some (RdData d), s\<lparr>world := w'\<rparr>)"
          by (rule retry_loop_done) (simp_all add: call_ext_def w)
        with l False show False by auto
      qed
      ultimately show ?thesis by blast
    qed
  qed
  with assms(3,4) show ?thesis by simp
qed

text \<open>
  C35 (termination). When the remote file holds fewer bytes than \<open>stat\<close> said, \<open>getFile()\<close> never
  returns data. Unless a read is refused or would block, it does not return at all: whatever
  was read before, the read at the end of the file returns no bytes, and the loop asks again
  for ever.
\<close>

theorem get_truncated_diverges:
  assumes "reads_file rem E" "is_sftp s" "open_for_read E fname err tmo s = Some (Some fsize, t)"
    and "length (rem (world t)) < unat fsize"
  shows "(\<forall>r u. get_whole E fname err tmo s = Some (r, u) \<longrightarrow> r = None)
     \<and> ((\<forall>n w. \<exists>d w'. sftp_read E n w = (RdData d, w')) \<longrightarrow> get_whole E fname err tmo s = None)"
proof -
  have sf: "is_sftp t"
    using assms(2) sstep_sftp [OF skeepsD [OF skeeps_open_read assms(2,3)]] by simp
  have short: "unat (0 :: 64 word) + length (rem (world t)) < unat fsize" using assms(4) by simp
  have get: "get_whole E fname err tmo s = do { (r, s) \<leftarrow> read_whole E err tmo fsize 0 [] t;
       (_, s) \<leftarrow> qsftp_tryClose E (r \<noteq> None) err tmo s; Some (r, s) }"
    using assms(3) by (simp add: get_whole_def)
  show ?thesis
  proof (cases "read_whole E err tmo fsize 0 [] t")
    case None
    then show ?thesis by (simp add: get)
  next
    case (Some y)
    from read_whole_short [OF this assms(1) sf short] obtain n w w' v
      where y: "fst y = None" and v: "sftp_read E n w = (v, w')" "\<forall>d. v \<noteq> RdData d" by blast
    from v have "\<not> (\<exists>d w'. sftp_read E n w = (RdData d, w'))" by simp
    then have "\<not> (\<forall>n w. \<exists>d w'. sftp_read E n w = (RdData d, w'))" by blast
    with y Some show ?thesis by (cases y) (fastforce simp: get Option.bind_eq_Some_conv)
  qed
qed

definition env_truncated :: "(tworld, tworld client) env" where
  "env_truncated = env0\<lparr>sftp_stat := (\<lambda>_ w. ((Ret 0, attrs0), w)),
     sftp_open_read := (\<lambda>_ _ w. (Got (), w\<lparr>log := [''ab'']\<rparr>)),
     sftp_read := (\<lambda>n w. (RdData (take n (concat (log w))), w\<lparr>log := [drop n (concat (log w))]\<rparr>))\<rparr>"

theorem get_truncated_diverges_witness: "get_whole env_truncated ''/f'' ''E'' 100 sftp_up = None"
proof -
  have "map_option (\<lambda>(r, t). (r, concat (log (world t)))) (open_for_read env_truncated ''/f'' ''E'' 100 sftp_up)
      = Some (Some 3, ''ab'')" by code_simp
  then obtain t where t: "open_for_read env_truncated ''/f'' ''E'' 100 sftp_up = Some (Some 3, t)"
    "concat (log (world t)) = ''ab''" by auto
  have "reads_file (\<lambda>w. concat (log w)) env_truncated"
    by (auto simp: reads_file_def waits_neutral_def env_truncated_def env0_def wait0_def)
  moreover have "is_sftp sftp_up" by (simp add: example_defs)
  moreover have "\<forall>n w. \<exists>d w'. sftp_read env_truncated n w = (RdData d, w')" by (simp add: env_truncated_def)
  ultimately show ?thesis using get_truncated_diverges [OF _ _ t(1)] t(2) by auto
qed


text \<open>
  What writing a file relies on: \<open>sent\<close> is what the server has taken through the open handle.
  A write that succeeds takes a prefix of the data, not an empty one; a write that would block,
  the waits, and the calls that end a handle or a session take nothing.
\<close>

definition ends_neutral :: "('w \<Rightarrow> 'o) \<Rightarrow> ('w, 's) env \<Rightarrow> bool" where
  "ends_neutral obs E \<longleftrightarrow> waits_neutral obs E \<and> (\<forall>w. obs (snd (sftp_close_handle E w)) = obs w)
     \<and> (\<forall>w. obs (snd (sftp_shutdown E w)) = obs w) \<and> (\<forall>w. obs (snd (session_disconnect E w)) = obs w)
     \<and> (\<forall>w. obs (snd (session_free E w)) = obs w) \<and> (\<forall>c w. obs (channel_free E c w) = obs w)
     \<and> (\<forall>c w. obs (channel_forward_cancel E c w) = obs w)"

definition writes_file :: "('w \<Rightarrow> string) \<Rightarrow> ('w, 's) env \<Rightarrow> bool" where
  "writes_file sent E \<longleftrightarrow>
     (\<forall>d w n w'. sftp_write E d w = (Ret n, w') \<and> 0 \<le> n \<longrightarrow>
        nat n \<le> length d \<and> sent w' = sent w @ take (nat n) d \<and> (d \<noteq> [] \<longrightarrow> 0 < n))
     \<and> (\<forall>d w w'. sftp_write E d w = (Eagain, w') \<longrightarrow> sent w' = sent w)
     \<and> (\<forall>p mode w w'. sftp_open_write E p mode w = (Got (), w') \<longrightarrow> sent w' = [])
     \<and> ends_neutral sent E"

lemma writes_fileD:
  assumes "writes_file sent E" "sftp_write E d w = (Ret n, w')" "0 \<le> n"
  shows "nat n \<le> length d" "sent w' = sent w @ take (nat n) d" "d \<noteq> [] \<Longrightarrow> 0 < n"
  using assms unfolding writes_file_def by blast+

lemma wait_in_disconnect_obs:
  assumes "waits_neutral obs E"
  shows "post (wait_in_disconnect E x toerr err tmo s) (\<lambda>r t. obs (world t) = obs (world s))"
proof -
  obtain rc t where w: "waitSocketRaw E tmo s = (rc, t)" by fastforce
  have "obs (world t) = obs (world s)"
    using w assms by (auto simp: waits_neutral_def waitSocketRaw_def call_ext_eq_pair split: prod.splits)
  then show ?thesis by (simp add: wait_in_disconnect_def waitSocket_with_def w Let_def raise_def)
qed

lemma retry_in_disconnect_obs:
  fixes E :: "('w, 'm) cenv"
  assumes "waits_neutral obs E" "\<And>w. obs (snd (f w)) = obs w"
  shows "post (retry_loop is_eagain (call_ext f) (wait_in_disconnect E x toerr err tmo) s) (\<lambda>r t. obs (world t) = obs (world s))"
proof (rule retry_loop_post [where I = "\<lambda>t. obs (world t) = obs (world s)"])
  fix t u :: "('w, 'm) cst" and r
  assume "obs (world t) = obs (world s)" and c: "call_ext f t = (r, u)"
  then have u: "obs (world u) = obs (world s)"
    using assms(2) [of "world t"] by (auto simp: call_ext_eq_pair)
  then show "post (wait_in_disconnect E x toerr err tmo u)
      (\<lambda>wr v. if wr \<noteq> 0 then obs (world v) = obs (world s) else obs (world v) = obs (world s))"
    by (auto intro: post_mono [OF wait_in_disconnect_obs [OF assms(1)]])
  from u show "obs (world u) = obs (world s)" .
qed simp

lemma fold_obs:
  "(\<And>x s. obs (world (f x s)) = obs (world s)) \<Longrightarrow> obs (world (fold f xs s)) = obs (world s)"
  by (induction xs arbitrary: s) auto

lemma disconnect_obs:
  assumes "ends_neutral obs E"
  shows "post (disconnectUnlocked E force tmo None x s) (\<lambda>r t. obs (world t) = obs (world s))"
proof -
  have wn: "waits_neutral obs E" using assms by (simp add: ends_neutral_def)
  have "\<And>c s. obs (world (channel_closeUnlocked E c s)) = obs (world s)"
    "\<And>c s. obs (world (listener_cancelUnlocked E c s)) = obs (world s)"
    using assms by (auto simp: ends_neutral_def channel_closeUnlocked_def run_ext_def listener_cancelUnlocked_def
        listenerDeletedUnlocked_def Let_def)
  note f = this [THEN fold_obs]
  note r = post_mono [OF retry_in_disconnect_obs [OF wn]]
  have ssh: "post (ssh_disconnectUnlocked E force tmo None x u) (\<lambda>r t. obs (world t) = obs (world s))"
    if "obs (world u) = obs (world s)" for u
    unfolding ssh_disconnectUnlocked_def Let_def preDisconnect_def closeTransportUnlocked_def session_given_up_def
    using assms that by (auto simp: ends_neutral_def f raise_def setBlockingUnlocked_def intro!: r)
  have "post (doShutdown E tmo x s) (\<lambda>r t. obs (world t) = obs (world s))"
    using assms by (auto simp: doShutdown_def ends_neutral_def intro!: r)
  with ssh show ?thesis
    by (auto simp: disconnectUnlocked_def sftp_disconnectUnlocked_def preDisconnect_def elim!: post_mono)
qed

lemma close_obs:
  assumes "ends_neutral obs E"
  shows "post (qsftp_closeIntern E err tmo s) (\<lambda>r t. obs (world t) = obs (world s))"
proof -
  have wn: "waits_neutral obs E" and c: "\<And>w. obs (snd (sftp_close_handle E w)) = obs w"
    using assms by (simp_all add: ends_neutral_def)
  show ?thesis unfolding qsftp_closeIntern_def
    by (rule post_bindI [OF retry_in_disconnect_obs [OF wn c]])
      (auto split: option.split intro: post_mono [OF disconnect_obs [OF assms]])
qed


lemma write_whole_sends:
  fixes E :: "('w, 'm) cenv"
  assumes live: "sftp_settling m E" and wf: "writes_file sent E" and len: "length buf < 2 ^ 64"
    and start: "is_sftp s" "unat sz \<le> length buf"
  shows "\<exists>r h t. write_whole E err tmo buf sz s = Some ((r, h), t) \<and>
    (case r of Some n \<Rightarrow> n = of_nat (length buf) \<and> io_step False s t \<and> sent (world t) = sent (world s) @ drop (unat sz) buf
       | None \<Rightarrow> raised s t)"
  using start
proof (induction "length buf - unat sz" arbitrary: sz s rule: less_induct)
  case less
  have cmp: "sz < of_nat (length buf) \<longleftrightarrow> unat sz < length buf"
    using len by (simp add: word_less_nat_alt unat_of_nat64)
  show ?case
  proof (cases "unat sz < length buf")
    case False
    then have "unat sz = length buf" using less.prems(2) by simp
    moreover from this have "sz = of_nat (length buf)" by (metis of_nat_unat ucast_id)
    ultimately show ?thesis using cmp by (subst write_whole.simps) auto
  next
    case True
    let ?f = "sftp_write E (drop (unat sz) buf)"
    have q: "quiet m ?f" using live by (simp add: sftp_settling_def)
    have wn: "waits_neutral sent E" using wf by (simp add: writes_file_def ends_neutral_def)
    have again: "sent w' = sent w" if "?f w = (v, w')" "is_eagain v" for w v w'
      using that wf by (cases v) (auto simp: writes_file_def)
    consider (lost) u where "retry_loop is_eagain (call_ext ?f) (qsftp_waitSocket E True err tmo) s = Some (None, u)" "lost s u"
      | (got) v u w where "retry_loop is_eagain (call_ext ?f) (qsftp_waitSocket E True err tmo) s = Some (Some v, u)"
        "\<not> is_eagain v" "io_step False s u" "sent w = sent (world s)" "?f w = (v, world u)"
      by (rule qsftp_retry_obs [OF live q wn less.prems(1) again])
    then show ?thesis
    proof cases
      case lost
      then show ?thesis using True cmp by (subst write_whole.simps) (auto simp: raised_sink)
    next
      case got
      have iu: "is_sftp u" using less.prems(1) sstep_sftp [OF sstep_io [OF got(3)]] by simp
      obtain n where v: "v = Ret n" using got(2) by (auto simp: not_eagain)
      show ?thesis
      proof (cases "n < 0")
        case neg: True
        obtain r t where f: "fail_with E True err tmo (None, False) u = Some (r :: 64 word option \<times> bool, t)"
          by (rule haltsE [OF halts_fail [OF live]])
        from post_D [OF fail_with_post [OF iu] f] have "r = (None, False)" "raised s t"
          by (auto intro: raised_trans sstep_io [OF got(3)])
        with f got(1) v neg True cmp show ?thesis by (subst write_whole.simps) auto
      next
        case pos: False
        define b where "b = sz + word_of_int n"
        have n: "nat n \<le> length buf - unat sz" "sent (world u) = sent (world s) @ take (nat n) (drop (unat sz) buf)" "0 < n"
          using writes_fileD [OF wf got(5) [unfolded v]] got(4) pos True by simp_all
        have "unat (of_nat (nat n) :: 64 word) = nat n" using n(1) len by (simp add: unat_of_nat64)
        moreover have "word_of_int n = (of_nat (nat n) :: 64 word)" using n(3) by simp
        ultimately have b: "unat b = unat sz + nat n"
          unfolding b_def using n(1) True len by (simp add: unat_add_lem [THEN iffD1])
        have step: "write_whole E err tmo buf sz s = write_whole E err tmo buf b u"
          using got(1) v pos True cmp by (subst write_whole.simps) (simp add: b_def)
        have le: "length buf - unat b < length buf - unat sz" "unat b \<le> length buf" using b n True by linarith+
        have cut: "take (nat n) (drop (unat sz) buf) @ drop (unat b) buf = drop (unat sz) buf"
          unfolding b by (metis append_take_drop_id drop_drop add.commute)
        from less.hyps [OF le(1) iu le(2)] obtain r h t where
          "write_whole E err tmo buf b u = Some ((r, h), t)"
          "case r of Some n \<Rightarrow> n = of_nat (length buf) \<and> io_step False u t \<and> sent (world t) = sent (world u) @ drop (unat b) buf
             | None \<Rightarrow> raised u t" by blast
        with step cut n(2) got(3) show ?thesis
          by (cases r) (auto intro: io_step_trans raised_trans sstep_io)
      qed
    qed
  qed
qed

lemma finish_write_sent:
  assumes "sftp_settling m E" "ends_neutral sent E" "is_sftp s"
  shows "\<exists>v t. finish_write E err tmo (Some n, h) s = Some (v, t) \<and>
    (v = n \<and> sent (world t) = sent (world s) \<or> v = -1 \<and> raised s t)"
proof -
  obtain rc u where c: "qsftp_closeIntern E err tmo s = Some (rc, u)" by (rule haltsE [OF halts_close [OF assms(1)]])
  have o: "sent (world u) = sent (world s)" by (rule post_D [OF close_obs [OF assms(2)] c])
  have su: "sstep s u" by (rule skeepsD [OF skeeps_closeIntern assms(3) c])
  then have iu: "is_sftp u" using assms(3) by (simp add: sstep_sftp)
  obtain v t where f: "fail_with E False err tmo (-1 :: 64 word) u = Some (v, t)" by (rule haltsE [OF halts_fail [OF assms(1)]])
  from post_D [OF fail_with_post [OF iu] f] have "v = -1" "raised s t" by (auto intro: raised_trans(1) [OF su])
  with c f o show ?thesis by (auto simp: finish_write_def)
qed

lemma write_remote_sends:
  assumes "sftp_settling m E" "writes_file sent E" "length buf < 2 ^ 64" "is_sftp s"
  shows "\<exists>r t. write_remote E fname mode err tmo (write_whole E err tmo buf 0) s = Some (r, t) \<and>
    (r = of_nat (length buf) \<and> sent (world t) = buf \<or> r = -1 \<and> raised s t)"
proof -
  have q: "quiet m (sftp_open_write E fname mode)" using assms(1) by (simp add: sftp_settling_def)
  obtain opened t where o: "open_handle E (sftp_open_write E fname mode) err tmo s = Some (opened, t)"
    by (rule haltsE [OF halts_open [OF assms(1) q]])
  have p: "if opened then io_step False s t \<and> (\<exists>w. sftp_open_write E fname mode w = (Got (), world t)) else raised s t"
    by (rule post_D [OF open_handle_last [OF assms(4)] o])
  show ?thesis
  proof (cases opened)
    case False
    with o p show ?thesis by (simp add: write_remote_def)
  next
    case True
    with p assms(2) have io: "io_step False s t" and new: "sent (world t) = []" by (auto simp: writes_file_def)
    have st: "is_sftp t" using assms(4) sstep_sftp [OF sstep_io [OF io]] by simp
    obtain r h u where w: "write_whole E err tmo buf 0 t = Some ((r, h), u)" and
      "case r of Some n \<Rightarrow> n = of_nat (length buf) \<and> io_step False t u \<and> sent (world u) = sent (world t) @ drop (unat (0 :: 64 word)) buf
       | None \<Rightarrow> raised t u"
      using write_whole_sends [OF assms(1-3) st, of 0 err tmo] by (auto simp del: unat_0)
    then have wp: "case r of Some n \<Rightarrow> n = of_nat (length buf) \<and> io_step False t u \<and> sent (world u) = buf | None \<Rightarrow> raised t u"
      using new by (simp cong: option.case_cong)
    show ?thesis
    proof (cases r)
      case None
      obtain a v where c: "qsftp_tryClose E h err tmo u = Some (a, v)" by (rule haltsE [OF halts_tryClose [OF assms(1)]])
      have "raised s u" using wp None by (auto intro: raised_trans(1) [OF sstep_io [OF io]])
      moreover from this have "is_sftp u" using assms(4) sstep_sftp [of s u] by (simp add: raised_def)
      then have "sstep u v" by (rule skeepsD [OF skeeps_tryClose _ c])
      ultimately have "raised s v" by (rule raised_trans(2))
      with None o True w c show ?thesis by (simp add: write_remote_def finish_write_def)
    next
      case (Some n)
      with wp have n: "n = of_nat (length buf)" "io_step False t u" "sent (world u) = buf" by simp_all
      have su: "sstep s u" by (rule sstep_trans [OF sstep_io [OF io] sstep_io [OF n(2)]])
      then have iu: "is_sftp u" using assms(4) by (simp add: sstep_sftp)
      have en: "ends_neutral sent E" using assms(2) by (simp add: writes_file_def)
      obtain v x where "finish_write E err tmo (Some n, h) u = Some (v, x)"
        "v = n \<and> sent (world x) = sent (world u) \<or> v = -1 \<and> raised u x"
        using finish_write_sent [OF assms(1) en iu] by blast
      with Some o True w n su show ?thesis by (auto simp: write_remote_def intro: raised_trans)
    qed
  qed
qed

text \<open>
  C34 (liveness). \<open>putFile()\<close> returns, when the library settles: either the server has taken
  exactly the given data, once and in order, and its length is the result, or the result is -1
  and an exception was raised.
\<close>

theorem put_file_sends:
  assumes "sftp_settling m E" "agent_finite k E" "callbacks_neutral E" "writes_file sent E"
    and "length buf < 2 ^ 64" "ready s"
  shows "\<exists>r t. sftpPutFile E buf fname mode tmo s = Some (r, t) \<and>
    (r = of_nat (length buf) \<and> sent (world t) = buf \<or> r = -1 \<and> xsink t \<noteq> [])"
proof -
  let ?f = "\<lambda>p. with_blocking_helper (write_remote E (absolute_filename p (Some fname)) mode ''SFTPCLIENT-PUTFILE-ERROR'' tmo
         (write_whole E ''SFTPCLIENT-PUTFILE-ERROR'' tmo buf 0))"
  let ?Q = "\<lambda>r t. r = of_nat (length buf) \<and> sent (world t) = buf \<or> r = -1 \<and> xsink t \<noteq> []"
  have g: "\<exists>r t. ?f p u = Some (r, t) \<and> ?Q r t" if "ready u" for p u
  proof -
    have "is_sftp (BlockingHelper_ctor u)"
      using that by (simp add: ready_def BlockingHelper_ctor_def setBlockingUnlocked_def)
    from write_remote_sends [OF assms(1,4,5) this, of "absolute_filename p (Some fname)" mode "''SFTPCLIENT-PUTFILE-ERROR''" tmo]
    obtain r t where "write_remote E (absolute_filename p (Some fname)) mode ''SFTPCLIENT-PUTFILE-ERROR'' tmo
         (write_whole E ''SFTPCLIENT-PUTFILE-ERROR'' tmo buf 0) (BlockingHelper_ctor u) = Some (r, t)"
      "r = of_nat (length buf) \<and> sent (world t) = buf \<or> r = -1 \<and> raised (BlockingHelper_ctor u) t" by blast
    then show ?thesis by (auto simp: with_blocking_helper_def dest: raised_sink)
  qed
  have "returns (connected_or E tmo (-1) (\<lambda>s. ?f (sftppath s) s) s)"
    by (rule halts_connected_or [OF assms(1,2) _ assms(3,6)]) (use g in \<open>unfold returns_def, blast\<close>)
  moreover have "post (connected_or E tmo (-1) (\<lambda>s. ?f (sftppath s) s) s) ?Q"
  proof (rule connected_or_post [OF assms(3,6)])
    fix u :: "('a, 'b) client_scheme"
    assume "ready u"
    from g [OF this, of "sftppath u"] show "post (?f (sftppath u) u) ?Q" by (auto intro: post_I)
  qed simp
  ultimately show ?thesis unfolding sftpPutFile_def by (auto simp: returns_def dest: post_D)
qed

definition env_put :: "(tworld, tworld client) env" where
  "env_put = env0\<lparr>sftp_open_write := (\<lambda>_ _ w. if pending w > 0 then (NullEagain, w) else (Got (), w\<lparr>log := []\<rparr>)),
     sftp_write := (\<lambda>d w. if pending w > 0 then (Eagain, w) else (Ret (int (min 2 (length d))), logged (take 2 d) w)),
     sftp_close_handle := (\<lambda>w. (Ret 0, w)), sftp_shutdown := (\<lambda>w. (Ret 0, w)), session_disconnect := (\<lambda>w. (Ret 0, w)),
     session_free := (\<lambda>w. (Ret 0, w)), channel_free := (\<lambda>_ w. w), channel_forward_cancel := (\<lambda>_ w. w)\<rparr>"

theorem put_file_sends_witness:
  "\<exists>r t. sftpPutFile env_put ''hello'' ''f'' 420 100 (sftp_up\<lparr>world := \<lparr>pending = 2, log = []\<rparr>\<rparr>) = Some (r, t) \<and>
    (r = of_nat (length ''hello'') \<and> sent0 (world t) = ''hello'' \<or> r = -1 \<and> xsink t \<noteq> [])"
proof (rule put_file_sends)
  show "sftp_settling pending env_put"
    using settling_env0 [where 's = "tworld client"]
    by (auto simp: sftp_settling_def env_put_def settling_def quiet_def env0_def pblocks_def blocks_def logged_def)
  show "agent_finite 1 env_put" using agent_finite_env0 by (simp add: agent_finite_def env_put_def)
  show "callbacks_neutral env_put" using callbacks_neutral_env0 by (simp add: callbacks_neutral_def env_put_def)
  show "writes_file sent0 env_put"
    by (auto simp: writes_file_def ends_neutral_def waits_neutral_def env_put_def env0_def sent0_def logged_def wait0_def
        min_def split: if_splits)
qed (simp_all add: sftp_up_ready)

end
