(* ===== verification/Sftp_Directory.thy ===== *)
theory Sftp_Directory
  imports Sftp_Transfer "HOL-Library.Multiset"
begin

text \<open>
  Listing a remote directory (\<open>sftpList()\<close> of \<open>src/src/SFTPClient.cpp\<close>): which entries the
  three lists hold. The operations themselves are in the theory of the SFTP client.
\<close>

section \<open>The entries of a directory\<close>

text \<open>
  What listing relies on: \<open>left\<close> is what the open directory handle has not returned yet.
\<close>

definition serves_dir :: "('w \<Rightarrow> (string \<times> attrs) list) \<Rightarrow> ('w, 's) env \<Rightarrow> string \<Rightarrow> (string \<times> attrs) list \<Rightarrow> bool" where
  "serves_dir left E pstr es \<longleftrightarrow> waits_neutral left E
     \<and> (\<forall>w w'. sftp_opendir E pstr w = (Got (), w') \<longrightarrow> left w' = es)
     \<and> (\<forall>w n a w'. sftp_readdir E w = (DirEntry n a, w') \<longrightarrow> left w = (n, a) # left w')
     \<and> (\<forall>w w'. sftp_readdir E w = (DirEnd, w') \<longrightarrow> left w = [])
     \<and> (\<forall>w w'. sftp_readdir E w = (DirEagain, w') \<longrightarrow> left w' = left w)"

lemma serves_dirD:
  assumes "serves_dir left E pstr es"
  shows "waits_neutral left E" "sftp_opendir E pstr w = (Got (), w') \<Longrightarrow> left w' = es"
    "sftp_readdir E w = (DirEntry n a, w') \<Longrightarrow> left w = (n, a) # left w'"
    "sftp_readdir E w = (DirEnd, w') \<Longrightarrow> left w = []" "sftp_readdir E w = (DirEagain, w') \<Longrightarrow> left w' = left w"
  using assms unfolding serves_dir_def by blast+

definition seen :: "string \<times> attrs \<Rightarrow> string \<times> attrs" where
  "seen e = (c_str (fst e), snd e)"

lemma readdir_reads:
  fixes E :: "('w, 'm) cenv"
  assumes live: "sftp_settling m E" and dir: "serves_dir left E pstr es" and start: "is_sftp s"
  shows "\<exists>r t. readdir_loop E err tmo acc s = Some (r, t) \<and>
    (case r of Some l \<Rightarrow> l = acc @ map seen (left (world s)) \<and> io_step False s t | None \<Rightarrow> raised s t)"
  using start
proof (induction "length (left (world s))" arbitrary: acc s rule: less_induct)
  case less
  have q: "quiet m (sftp_readdir E)" using live by (simp add: sftp_settling_def)
  have again: "left w' = left w" if "sftp_readdir E w = (v, w')" "is_dir_eagain v" for w v w'
    using that serves_dirD(5) [OF dir] by (cases v) simp_all
  consider (lost) u where "retry_loop is_dir_eagain (call_ext (sftp_readdir E)) (qsftp_waitSocket E True err tmo) s = Some (None, u)" "lost s u"
    | (got) v u w where "retry_loop is_dir_eagain (call_ext (sftp_readdir E)) (qsftp_waitSocket E True err tmo) s = Some (Some v, u)"
      "\<not> is_dir_eagain v" "io_step False s u" "left w = left (world s)" "sftp_readdir E w = (v, world u)"
    by (rule qsftp_retry_obs [OF live q serves_dirD(1) [OF dir] less.prems again])
  then show ?case
  proof cases
    case lost
    then show ?thesis by (subst readdir_loop.simps) (simp add: raised_sink)
  next
    case got
    have iu: "is_sftp u" using less.prems sstep_sftp [OF sstep_io [OF got(3)]] by simp
    show ?thesis
    proof (cases v)
      case (DirErr e)
      obtain r t where f: "fail_with E True err tmo None u = Some (r :: (string \<times> attrs) list option, t)"
        by (rule haltsE [OF halts_fail [OF live]])
      from post_D [OF fail_with_post [OF iu] f] have "r = None" "raised s t"
        by (auto intro: raised_trans sstep_io [OF got(3)])
      with f got(1) DirErr show ?thesis by (subst readdir_loop.simps) simp
    next
      case DirEnd
      with got serves_dirD(4) [OF dir, of w "world u"] show ?thesis by (subst readdir_loop.simps) simp
    next
      case (DirEntry n a)
      with got serves_dirD(3) [OF dir, of w n a "world u"] have l: "left (world s) = (n, a) # left (world u)" by simp
      from less.hyps [of u "acc @ [seen (n, a)]"] l iu obtain r t where
        "readdir_loop E err tmo (acc @ [seen (n, a)]) u = Some (r, t)"
        "case r of Some l \<Rightarrow> l = (acc @ [seen (n, a)]) @ map seen (left (world u)) \<and> io_step False u t | None \<Rightarrow> raised u t"
        by auto
      with got(1,3) DirEntry l show ?thesis
        by (subst readdir_loop.simps) (cases r; auto simp: seen_def intro: io_step_trans raised_trans sstep_io)
    qed (use got in simp)
  qed
qed

lemma read_directory_reads:
  assumes "sftp_settling m E" "serves_dir left E pstr es" "is_sftp s"
  shows "\<exists>r t. read_directory E pstr err tmo s = Some (r, t) \<and> (case r of Some l \<Rightarrow> l = map seen es | None \<Rightarrow> raised s t)"
proof -
  have q: "quiet m (sftp_opendir E pstr)" using assms(1) by (simp add: sftp_settling_def)
  obtain opened t where o: "open_handle E (sftp_opendir E pstr) err tmo s = Some (opened, t)"
    by (rule haltsE [OF halts_open [OF assms(1) q]])
  have p: "if opened then io_step False s t \<and> (\<exists>w. sftp_opendir E pstr w = (Got (), world t)) else raised s t"
    by (rule post_D [OF open_handle_last [OF assms(3)] o])
  show ?thesis
  proof (cases opened)
    case False
    with o p show ?thesis by (simp add: read_directory_def)
  next
    case True
    with p have io: "io_step False s t" and l: "left (world t) = es" using serves_dirD(2) [OF assms(2)] by auto
    have st: "is_sftp t" using assms(3) sstep_sftp [OF sstep_io [OF io]] by simp
    obtain r u where r: "readdir_loop E err tmo [] t = Some (r, u)"
      "case r of Some l \<Rightarrow> l = [] @ map seen (left (world t)) \<and> io_step False t u | None \<Rightarrow> raised t u"
      using readdir_reads [OF assms(1,2) st] by blast
    obtain a v where c: "qsftp_tryClose E (r \<noteq> None) err tmo u = Some (a, v)" by (rule haltsE [OF halts_tryClose [OF assms(1)]])
    have "r = None \<Longrightarrow> v = u" using c by (simp add: qsftp_tryClose_def)
    with o True r c l show ?thesis
      by (cases r) (auto simp: read_directory_def intro: raised_trans sstep_io [OF io])
  qed
qed

lemma dir_info_partition:
  assumes "\<forall>l. mset (list_sort E l) = mset l"
  shows "mset (dir_directories (make_dir_info E p es)) + mset (dir_links (make_dir_info E p es))
     + mset (dir_files (make_dir_info E p es)) = mset (map fst es)"
proof -
  have n: "\<not> (entry_is_dir a \<and> entry_is_link a)" for a by (simp add: entry_is_dir_def entry_is_link_def)
  have "mset [n. (n, a) \<leftarrow> es, entry_is_dir a] + mset [n. (n, a) \<leftarrow> es, entry_is_link a]
      + mset [n. (n, a) \<leftarrow> es, \<not> entry_is_dir a \<and> \<not> entry_is_link a] = mset (map fst es)"
    using n by (induction es) auto
  with assms show ?thesis by (simp add: make_dir_info_def)
qed

text \<open>
  C40 (functional). \<open>list()\<close> of a directory returns, when the library settles, and either raises an
  exception or gives the three lists, in which every entry the server returned occurs exactly
  as often as the server returned it, the directories being those with that file type in their
  permissions.
\<close>

theorem list_partitions_directory:
  assumes "sftp_settling m E" "agent_finite k E" "callbacks_neutral E"
    and "serves_dir left E (CHR ''/'' # p) es" "\<forall>l. mset (list_sort E l) = mset l" and "ready s"
  shows "\<exists>r t. sftpList E (Some (CHR ''/'' # p)) tmo s = Some (r, t) \<and>
    (case r of None \<Rightarrow> xsink t \<noteq> []
     | Some i \<Rightarrow> dir_path i = CHR ''/'' # p
         \<and> mset (dir_directories i) + mset (dir_links i) + mset (dir_files i) = mset (map (c_str \<circ> fst) es)
         \<and> set (dir_directories i) = {c_str n |n a. (n, a) \<in> set es \<and> entry_is_dir a})"
proof -
  let ?p = "CHR ''/'' # p"
  let ?Q = "\<lambda>r t. case r of None \<Rightarrow> xsink t \<noteq> []
     | Some i \<Rightarrow> dir_path i = ?p
         \<and> mset (dir_directories i) + mset (dir_links i) + mset (dir_files i) = mset (map (c_str \<circ> fst) es)
         \<and> set (dir_directories i) = {c_str n |n a. (n, a) \<in> set es \<and> entry_is_dir a}"
  have sorted: "set (list_sort E l) = set l" for l using assms(5) by (metis set_mset_mset)
  have info: "?Q (Some (make_dir_info E ?p (map seen es))) t" for t :: "('a, 'b) client_scheme"
  proof -
    have "set (dir_directories (make_dir_info E ?p (map seen es))) = {c_str n |n a. (n, a) \<in> set es \<and> entry_is_dir a}"
      by (force simp: make_dir_info_def sorted seen_def)
    moreover have "fst \<circ> seen = c_str \<circ> fst" by (simp add: seen_def fun_eq_iff)
    moreover have "dir_path (make_dir_info E ?p (map seen es)) = ?p" by (simp add: make_dir_info_def)
    ultimately show ?thesis using dir_info_partition [OF assms(5), of ?p "map seen es"] by simp
  qed
  have g: "\<exists>r t. with_blocking_helper (list_entries E ?p tmo) u = Some (r, t) \<and> ?Q r t" if "ready u" for u
  proof -
    have "is_sftp (BlockingHelper_ctor u)"
      using that by (simp add: ready_def BlockingHelper_ctor_def setBlockingUnlocked_def)
    from read_directory_reads [OF assms(1,4) this, of "''SFTPCLIENT-LIST-ERROR''" tmo] obtain r t where
      r: "read_directory E ?p ''SFTPCLIENT-LIST-ERROR'' tmo (BlockingHelper_ctor u) = Some (r, t)"
      "case r of Some l \<Rightarrow> l = map seen es | None \<Rightarrow> raised (BlockingHelper_ctor u) t" by blast
    then have "with_blocking_helper (list_entries E ?p tmo) u = Some (map_option (make_dir_info E ?p) r, BlockingHelper_dtor t)"
      by (simp add: with_blocking_helper_def list_entries_def)
    moreover have "?Q (map_option (make_dir_info E ?p) r) (BlockingHelper_dtor t)"
    proof (cases r)
      case None
      with r(2) show ?thesis by (simp add: raised_sink)
    next
      case (Some l)
      then have i: "map_option (make_dir_info E ?p) r = Some (make_dir_info E ?p (map seen es))" using r(2) by simp
      show ?thesis unfolding i by (rule info)
    qed
    ultimately show ?thesis by blast
  qed
  have e: "sftpList E (Some ?p) tmo s = connected_or E tmo None (\<lambda>s. with_blocking_helper (list_entries E ?p tmo) s) s"
    by (simp add: sftpList_def list_path_def absolute_filename_def)
  have "returns (connected_or E tmo None (\<lambda>s. with_blocking_helper (list_entries E ?p tmo) s) s)"
    by (rule halts_connected_or [OF assms(1,2) _ assms(3,6)]) (use g in \<open>unfold returns_def, blast\<close>)
  moreover have "post (connected_or E tmo None (\<lambda>s. with_blocking_helper (list_entries E ?p tmo) s) s) ?Q"
  proof (rule connected_or_post [OF assms(3,6)])
    fix u :: "('a, 'b) client_scheme"
    assume "ready u"
    from g [OF this] show "post (with_blocking_helper (list_entries E ?p tmo) u) ?Q" by (auto intro: post_I)
  qed simp
  ultimately show ?thesis unfolding e by (auto simp: returns_def dest: post_D)
qed

definition attrs_of :: "string \<Rightarrow> attrs" where
  "attrs_of n = (if n = ''sub'' then attrs0\<lparr>att_permissions := 0x41ED\<rparr> else attrs0)"

definition env_dir :: "(tworld, tworld client) env" where
  "env_dir = env0\<lparr>sftp_opendir := (\<lambda>p w. if pending w > 0 then (NullEagain, w) else (Got (), w\<lparr>log := [''b'', ''sub'', ''a'']\<rparr>)),
     sftp_readdir := (\<lambda>w. if pending w > 0 then (DirEagain, w)
       else case log w of [] \<Rightarrow> (DirEnd, w) | n # ns \<Rightarrow> (DirEntry n (attrs_of n), w\<lparr>log := ns\<rparr>))\<rparr>"

theorem list_partitions_directory_witness:
  "\<exists>r t. sftpList env_dir (Some ''/d'') 100 (sftp_up\<lparr>world := \<lparr>pending = 2, log = []\<rparr>\<rparr>) = Some (r, t) \<and>
    (case r of None \<Rightarrow> xsink t \<noteq> [] | Some i \<Rightarrow> set (dir_directories i) = {''sub''})"
proof -
  have st: "sftp_settling pending env_dir"
    using settling_env0 [where 's = "tworld client"]
    by (auto simp: sftp_settling_def env_dir_def settling_def quiet_def env0_def pblocks_def blocks_def logged_def split: list.split)
  have ag: "agent_finite 1 env_dir" using agent_finite_env0 by (simp add: agent_finite_def env_dir_def)
  have cb: "callbacks_neutral env_dir" using callbacks_neutral_env0 by (simp add: callbacks_neutral_def env_dir_def)
  let ?es = "map (\<lambda>n. (n, attrs_of n)) [''b'', ''sub'', ''a'']"
  have sd: "serves_dir (\<lambda>w. map (\<lambda>n. (n, attrs_of n)) (log w)) env_dir ''/d'' ?es"
    by (auto simp: serves_dir_def waits_neutral_def env_dir_def env0_def wait0_def split: if_splits list.splits)
  have dirs: "{c_str n |n a. (n, a) \<in> set ?es \<and> entry_is_dir a} = {''sub''}"
  proof -
    have "entry_is_dir (attrs_of ''sub'') \<and> \<not> entry_is_dir (attrs_of ''a'') \<and> \<not> entry_is_dir (attrs_of ''b'')" by code_simp
    then show ?thesis by (auto simp: c_str_def intro!: exI [of _ "''sub''"])
  qed
  have srt: "\<forall>l. mset (list_sort env_dir l) = mset l" by (simp add: env_dir_def env0_def)
  obtain r t where r: "sftpList env_dir (Some ''/d'') 100 (sftp_up\<lparr>world := \<lparr>pending = 2, log = []\<rparr>\<rparr>) = Some (r, t)"
    "case r of None \<Rightarrow> xsink t \<noteq> [] | Some i \<Rightarrow> dir_path i = ''/d''
         \<and> mset (dir_directories i) + mset (dir_links i) + mset (dir_files i) = mset (map (c_str \<circ> fst) ?es)
         \<and> set (dir_directories i) = {c_str n |n a. (n, a) \<in> set ?es \<and> entry_is_dir a}"
    using list_partitions_directory [OF st ag cb sd srt sftp_up_ready(2), of 100] by blast
  from r(2) have "case r of None \<Rightarrow> xsink t \<noteq> [] | Some i \<Rightarrow> set (dir_directories i) = {''sub''}"
    unfolding dirs by (cases r) simp_all
  with r(1) show ?thesis by blast
qed

end
