(* ===== verification/Sftp_Poll.thy ===== *)
theory Sftp_Poll
  imports Sftp_Directory
begin

text \<open>
  The non-blocking retrieval of a file (\<open>src/src/SftpPollOperation.cpp\<close>): a state machine that
  the caller drives with \<open>continuePoll()\<close>. Each stage is a handler that returns what to wait
  for, advances the machine, or ends it. The operation shares the stages of the connection
  with the blocking path and reserves the client while it runs.

  The members of the operation are a record extension of the client: the handlers run with the
  client's lock held and change both. \<open>handle_misused\<close> is a history variable: it is set when
  the remote file handle is passed to libssh2 after the SFTP session it belongs to was shut
  down. \<open>poll_data\<close> is the part of the buffer that has been written.
\<close>

section \<open>The operation object\<close>

datatype SftpPollState =
    START | CONNECTING | HANDSHAKE | AUTHLIST | AUTH | SFTP_INIT | REALPATH | STAT | OPEN | READ
  | CLOSE | DONE | CLOSED

record 'w poll = "'w client" +
  poll_path :: string
  abs_path :: string
  poll_timeout :: int
  poll_state :: SftpPollState
  poll_fd :: int
  connect_state :: bool
  auth_queue :: "attempt list"
  auth_attempt_checked :: bool
  poll_loggedin :: bool
  poll_candidates :: "qvalue list option"
  provider_index :: nat
  poll_agent :: "agent_helper option"
  agent_need_identity :: bool
  reused_session :: bool
  reconnect_attempted :: bool
  sftp_handle :: bool
  file_size :: "64 word"
  file_permissions :: "64 word"
  bytes_read :: "64 word"
  read_calls :: "64 word"
  poll_data :: string
  restore_session_blocking :: bool
  client_reserved :: bool
  handle_misused :: bool

type_synonym ('w, 'm) pst = "('w, 'm) poll_scheme"
type_synonym ('w, 'm) penv = "('w, ('w, 'm) poll_scheme) env"

text \<open>The hash that says what to wait for.\<close>

record poll_info =
  pi_events :: int
  pi_extra_fds :: "(int \<times> int) list"
  pi_poll_timeout :: "int option"

definition SOCK_POLLIN :: int where "SOCK_POLLIN = 1"

definition SOCK_POLLOUT :: int where "SOCK_POLLOUT = 2"

definition SFTP_POLL_CANCEL_CHECK_INTERVAL :: "64 word" where "SFTP_POLL_CANCEL_CHECK_INTERVAL = 16"

definition SFTP_AGENT_NO_MORE :: int where "SFTP_AGENT_NO_MORE = 1"

definition SFTP_AGENT_ERROR :: int where "SFTP_AGENT_ERROR = -1"

definition SftpPollOperationPriv_new :: "string \<Rightarrow> int \<Rightarrow> 'w client \<Rightarrow> 'w poll" where
  "SftpPollOperationPriv_new path tmo c = client.extend c
     (poll.fields (c_str path) [] tmo START (-1) False [] False False None 0 None True False False False
        0 0 0 0 [] False True False)"

definition startPollGetFile :: "string \<Rightarrow> 'w client \<Rightarrow> 'w client + 'w poll" where
  "startPollGetFile path c =
     (case reservePollOperation c of (rc, c) \<Rightarrow>
        if rc \<noteq> 0 then Inl c else Inr (SftpPollOperationPriv_new path DEFAULT_TIMEOUT_MS c))"

definition goalReached :: "('w, 'm) pst \<Rightarrow> bool" where
  "goalReached p \<longleftrightarrow> poll_state p = DONE"

text \<open>\<open>None\<close> is \<open>NOTHING\<close>; the buffer itself always exists.\<close>

definition getOutput :: "('w, 'm) pst \<Rightarrow> string option" where
  "getOutput p = (if poll_state p \<noteq> DONE then None else Some (poll_data p))"

definition getGoal :: "('w, 'm) pst \<Rightarrow> string" where
  "getGoal p = ''sftp-get-file '' @ poll_path p"

fun state_name :: "SftpPollState \<Rightarrow> string" where
  "state_name START = ''start''"
| "state_name CONNECTING = ''connecting''"
| "state_name HANDSHAKE = ''ssh-handshake''"
| "state_name AUTHLIST = ''ssh-auth-list''"
| "state_name AUTH = ''ssh-auth''"
| "state_name SFTP_INIT = ''sftp-init''"
| "state_name REALPATH = ''sftp-realpath''"
| "state_name STAT = ''sftp-stat''"
| "state_name OPEN = ''sftp-open''"
| "state_name READ = ''sftp-read''"
| "state_name CLOSE = ''sftp-close''"
| "state_name DONE = ''done''"
| "state_name CLOSED = ''closed''"

definition getStateImpl :: "('w, 'm) pst \<Rightarrow> string" where
  "getStateImpl p = state_name (poll_state p)"

text \<open>\<open>socket.getSocket()\<close>: the descriptor, or -1.\<close>

definition getSocket :: "('w, 'm) cst \<Rightarrow> int" where
  "getSocket s = (case sock s of None \<Rightarrow> -1 | Some fd \<Rightarrow> fd)"

definition setFdNonBlocking :: "('w, 'm) cenv \<Rightarrow> int \<Rightarrow> bool \<Rightarrow> ('w, 'm) cst \<Rightarrow> int \<times> ('w, 'm) cst" where
  "setFdNonBlocking E fd non_blocking s =
     (if fd < 0 then (-1, s)
      else
        (let flags = fcntl_getfl E fd (world s)
         in if sint flags < 0 then (-1, s)
            else
              (let new_flags = (if non_blocking then flags OR o_nonblock E else flags AND NOT (o_nonblock E))
               in if new_flags = flags then (1, s)
                  else case call_ext (fcntl_setfl E fd new_flags) s of (rc, s) \<Rightarrow> (if rc < 0 then -1 else 0, s))))"

section \<open>Ending the operation\<close>

text \<open>\<open>agent.reset()\<close>: the destructor of the helper releases the handle.\<close>

definition agent_reset :: "('w, 'm) penv \<Rightarrow> ('w, 'm) pst \<Rightarrow> ('w, 'm) pst" where
  "agent_reset E p =
     (case poll_agent p of
        None \<Rightarrow> p
      | Some h \<Rightarrow> (snd (Ssh2AgentHelper_reset E h p))\<lparr>poll_agent := None\<rparr>)"

definition restoreBlockingIntern :: "('w, 'm) pst \<Rightarrow> ('w, 'm) pst" where
  "restoreBlockingIntern p =
     (if restore_session_blocking p then (setBlockingUnlocked True p)\<lparr>restore_session_blocking := False\<rparr> else p)"

text \<open>Every call of libssh2 with the handle passes through here.\<close>

definition use_handle :: "('w, 'm) pst \<Rightarrow> ('w, 'm) pst" where
  "use_handle p = p\<lparr>handle_misused := handle_misused p \<or> \<not> sftp_session p\<rparr>"

text \<open>The handle is closed with waits; the value says that the session must be dropped.\<close>

definition close_handle :: "('w, 'm) penv \<Rightarrow> ('w, 'm) pst \<Rightarrow> (bool \<times> ('w, 'm) pst) option" where
  "close_handle E p =
     (if sftp_handle p then
        do { (r, p) \<leftarrow> retry_loop is_eagain (call_ext (sftp_close_handle E))
               (wait_in_disconnect E True ''SFTPCLIENT-TIMEOUT'' ''SFTPCLIENT-CLOSE-ERROR'' (poll_timeout p))
               (use_handle p);
             Some (r = None, p\<lparr>sftp_handle := False\<rparr>) }
      else Some (False, p))"

definition drop_connection :: "('w, 'm) penv \<Rightarrow> bool \<Rightarrow> ('w, 'm) pst \<Rightarrow> (int \<times> ('w, 'm) pst) option" where
  "drop_connection E disc p =
     (if \<not> disc then Some (0, p)
      else if ssh_session p then disconnectUnlocked E True (poll_timeout p) None True p
      else Some (0, closeTransportUnlocked p))"

definition release_client :: "('w, 'm) pst \<Rightarrow> ('w, 'm) pst" where
  "release_client p =
     (let p = restoreBlockingIntern p;
          p = (if poll_state p \<noteq> DONE then p\<lparr>poll_state := CLOSED\<rparr> else p)
      in if client_reserved p then p\<lparr>poll_op_in_progress := False, client_reserved := False\<rparr> else p)"

definition closeIntern :: "('w, 'm) penv \<Rightarrow> bool \<Rightarrow> ('w, 'm) pst \<Rightarrow> (unit \<times> ('w, 'm) pst) option" where
  "closeIntern E disc p =
     do { (stuck, p) \<leftarrow> close_handle E ((agent_reset E p)\<lparr>poll_candidates := None, connect_state := False\<rparr>);
          (_, p) \<leftarrow> drop_connection E (disc \<or> stuck) p;
          Some ((), release_client p) }"

text \<open>The end of a stage that fails: \<open>closeIntern(); return nullptr;\<close>\<close>

definition end_stage ::
  "('w, 'm) penv \<Rightarrow> bool \<Rightarrow> ('w, 'm) pst \<Rightarrow> (poll_info option \<times> ('w, 'm) pst) option" where
  "end_stage E disc p = do { (_, p) \<leftarrow> closeIntern E disc p; Some (None, p) }"

text \<open>The last dereference, and \<open>abort()\<close>.\<close>

definition poll_deref :: "('w, 'm) penv \<Rightarrow> ('w, 'm) pst \<Rightarrow> (unit \<times> ('w, 'm) pst) option" where
  "poll_deref E p = closeIntern E False p"

definition poll_abort :: "('w, 'm) penv \<Rightarrow> ('w, 'm) pst \<Rightarrow> (unit \<times> ('w, 'm) pst) option" where
  "poll_abort E p =
     (if poll_state p = DONE \<or> poll_state p = CLOSED then Some ((), p) else closeIntern E True p)"

section \<open>Waiting and errors\<close>

text \<open>Raises the exception of the session, as \<open>sessionError()\<close> does, and ends the stage.\<close>

definition session_error ::
  "('w, 'm) penv \<Rightarrow> bool \<Rightarrow> ('w, 'm) pst \<Rightarrow> (poll_info option \<times> ('w, 'm) pst) option" where
  "session_error E disc p =
     do { (_, p) \<leftarrow> sftp_doSessionErrUnlocked E p; end_stage E disc p }"

definition wait_events :: "bool \<Rightarrow> bool \<Rightarrow> int" where
  "wait_events want_read want_write =
     (let ev = (if want_read then SOCK_POLLIN else 0) + (if want_write then SOCK_POLLOUT else 0)
      in if ev = 0 then SOCK_POLLIN else ev)"

definition getPollInfo ::
  "('w, 'm) penv \<Rightarrow> int \<Rightarrow> int \<Rightarrow> (int \<times> bool \<times> bool) list \<Rightarrow> int \<Rightarrow> ('w, 'm) pst \<Rightarrow>
   (poll_info option \<times> ('w, 'm) pst) option" where
  "getPollInfo E fd events extra_fds poll_timeout_ms p =
     (let extra = map (\<lambda>(fd, want_read, want_write). (fd, wait_events want_read want_write)) extra_fds
      in if fd < 0 \<and> extra = [] \<and> poll_timeout_ms < 0
         then end_stage E True (raise True ''SSH2-POLL-ERROR'' p)
         else
           (let p = p\<lparr>poll_fd := fd\<rparr>
            in if xsink p \<noteq> [] then end_stage E True p
               else Some (Some \<lparr>pi_events = (if fd < 0 then 0 else events), pi_extra_fds = extra,
                      pi_poll_timeout = (if poll_timeout_ms \<ge> 0 then Some poll_timeout_ms else None)\<rparr>, p)))"

definition getSessionPollInfo :: "('w, 'm) penv \<Rightarrow> ('w, 'm) pst \<Rightarrow> (poll_info option \<times> ('w, 'm) pst) option" where
  "getSessionPollInfo E p =
     (case block_directions E (world p) of (inbound, outbound) \<Rightarrow>
        getPollInfo E (getSocket p) (wait_events inbound outbound) [] (-1) p)"

definition connectionLost :: "('w, 'm) penv \<Rightarrow> ('w, 'm) pst \<Rightarrow> bool" where
  "connectionLost E p =
     (if \<not> ssh_session p then True
      else case session_last_errno E (world p) of
             ERR_SOCKET_SEND \<Rightarrow> True
           | ERR_SOCKET_RECV \<Rightarrow> True
           | ERR_SOCKET_DISCONNECT \<Rightarrow> True
           | ERR_SOCKET_TIMEOUT \<Rightarrow> True
           | ERR_SFTP_PROTOCOL \<Rightarrow> sftp_session p \<and>
               (sftp_last_error E (world p) = FX_NO_CONNECTION \<or> sftp_last_error E (world p) = FX_CONNECTION_LOST)
           | ERR_OTHER _ \<Rightarrow> False)"

definition retryAfterConnectionLoss :: "('w, 'm) penv \<Rightarrow> ('w, 'm) pst \<Rightarrow> (bool \<times> ('w, 'm) pst) option" where
  "retryAfterConnectionLoss E p =
     (if \<not> reused_session p \<or> reconnect_attempted p \<or> \<not> connectionLost E p then Some (False, p)
      else
        do { (_, p) \<leftarrow> disconnectUnlocked E True (poll_timeout p) None False (p\<lparr>reconnect_attempted := True\<rparr>);
             Some (True, p\<lparr>restore_session_blocking := False, abs_path := [], file_size := 0,
               file_permissions := 0, bytes_read := 0, read_calls := 0, poll_data := [], poll_state := START\<rparr>) })"

text \<open>The failure of the first use of a session: a reconnection, or the error.\<close>

definition retry_or_fail ::
  "('w, 'm) penv \<Rightarrow> bool \<Rightarrow> ('w, 'm) pst \<Rightarrow> (poll_info option \<times> ('w, 'm) pst) option" where
  "retry_or_fail E disc p =
     do { (restarted, p) \<leftarrow> retryAfterConnectionLoss E p;
          if restarted then Some (None, p) else session_error E disc p }"

section \<open>The stages of the connection\<close>

text \<open>\<open>startConnect()\<close> raises an exception, or gives the connection's poll state or null.\<close>

definition startConnect :: "('w, 'm) penv \<Rightarrow> string \<Rightarrow> ('w, 'm) pst \<Rightarrow> ('w, 'm) pst" where
  "startConnect E target p =
     (case call_ext (start_connect E target) p of (r, p) \<Rightarrow>
        (let p = p\<lparr>sock := connect_fd E (world p)\<rparr>
         in case r of Inl e \<Rightarrow> raise True e (p\<lparr>connect_state := False\<rparr>)
            | Inr started \<Rightarrow> p\<lparr>connect_state := started\<rparr>))"

definition connect_target :: "('w, 'm) cst \<Rightarrow> string" where
  "connect_target s =
     (let host = c_str (sshhost s); port = dec_int (sint (sshport s))
      in if CHR '':'' \<in> set host then ''['' @ host @ '']:'' @ port else host @ '':'' @ port)"

definition handleStart :: "('w, 'm) penv \<Rightarrow> ('w, 'm) pst \<Rightarrow> (poll_info option \<times> ('w, 'm) pst) option" where
  "handleStart E p =
     (if ssh_session p then
        (let p = p\<lparr>reused_session := True, poll_state := (if sftp_session p then STAT else SFTP_INIT)\<rparr>
         in case setFdNonBlocking E (getSocket p) True p of (rc, p) \<Rightarrow>
              if rc < 0 then end_stage E False (raise True ''SSH2-POLL-ERROR'' p)
              else Some (None, (setBlockingUnlocked False p)\<lparr>restore_session_blocking := True\<rparr>))
      else
        do { (rc, p) \<leftarrow> checkConnectPreconditionsUnlocked E p;
             if rc \<noteq> 0 then end_stage E False p
             else
               (let p = startConnect E (connect_target p) p
                in if xsink p \<noteq> [] \<or> \<not> connect_state p
                   then end_stage E True (if xsink p = [] then raise True ''SSH2CLIENT-CONNECT-ERROR'' p else p)
                   else Some (None, p\<lparr>poll_state := CONNECTING\<rparr>)) })"

text \<open>The socket is connected: the session is created on it.\<close>

definition connected_socket :: "('w, 'm) penv \<Rightarrow> ('w, 'm) pst \<Rightarrow> (poll_info option \<times> ('w, 'm) pst) option" where
  "connected_socket E p =
     (case holdSessionDescriptorUnlocked E p of (rc, p) \<Rightarrow>
        if rc \<noteq> 0 then end_stage E True p
        else case setFdNonBlocking E (getSocket p) True p of (rc, p) \<Rightarrow>
          if rc < 0 then end_stage E True (raise True ''SSH2-POLL-ERROR'' p)
          else
            do { (rc, p) \<leftarrow> prepareSessionUnlocked E p;
                 if rc \<noteq> 0 then end_stage E False p
                 else Some (None, p\<lparr>restore_session_blocking := True, poll_state := HANDSHAKE\<rparr>) })"

definition handleConnecting :: "('w, 'm) penv \<Rightarrow> ('w, 'm) pst \<Rightarrow> (poll_info option \<times> ('w, 'm) pst) option" where
  "handleConnecting E p =
     (case call_ext (continue_connect E) p of (r, p) \<Rightarrow>
        (let p = p\<lparr>sock := connect_fd E (world p)\<rparr>
         in case r of
              Inl e \<Rightarrow> end_stage E True (raise True e p)
            | Inr rc \<Rightarrow>
                if xsink p \<noteq> [] then end_stage E True p
                else if rc \<noteq> 0 then
                  getPollInfo E (getSocket p) rc (connect_extra E (world p)) (connect_timeout E (world p)) p
                else connected_socket E (p\<lparr>connect_state := False\<rparr>)))"

definition handleHandshake :: "('w, 'm) penv \<Rightarrow> ('w, 'm) pst \<Rightarrow> (poll_info option \<times> ('w, 'm) pst) option" where
  "handleHandshake E p =
     (case startupUnlocked E p of (rc, p) \<Rightarrow>
        if rc = Eagain then getSessionPollInfo E p
        else if rc \<noteq> Ret 0 then end_stage E True (raise True ''SSH2-ERROR'' p)
        else
          do { (rc, p) \<leftarrow> verifyHostKeyUnlocked E (poll_timeout p) p;
               if rc \<noteq> 0 then end_stage E False p else Some (None, p\<lparr>poll_state := AUTHLIST\<rparr>) })"

definition handleAuthList :: "('w, 'm) penv \<Rightarrow> ('w, 'm) pst \<Rightarrow> (poll_info option \<times> ('w, 'm) pst) option" where
  "handleAuthList E p =
     (case call_ext (userauth_list E (sshuser p)) p of (l, p) \<Rightarrow>
        if is_null_eagain l then getSessionPollInfo E p
        else case buildAuthPlanUnlocked E (lptr_opt l) p of (plan, p) \<Rightarrow>
          Some (None, p\<lparr>auth_queue := plan, poll_state := AUTH\<rparr>))"

section \<open>The authentication\<close>

text \<open>The candidates are asked for once; then each call resolves the next one of them.\<close>

definition provider_fetch :: "('w, 'm) penv \<Rightarrow> ('w, 'm) pst \<Rightarrow> qvalue list option \<times> ('w, 'm) pst" where
  "provider_fetch E p =
     (case poll_candidates p of
        Some cs \<Rightarrow> (Some cs, p)
      | None \<Rightarrow>
          (case getProviderCandidatesUnlocked E (poll_timeout p) p of (r, p) \<Rightarrow>
             (r, if r = None then p else p\<lparr>poll_candidates := r, provider_index := 0\<rparr>)))"

definition provider_next :: "('w, 'm) penv \<Rightarrow> qvalue list \<Rightarrow> ('w, 'm) pst \<Rightarrow> int \<times> ('w, 'm) pst" where
  "provider_next E cs p =
     (if provider_index p \<ge> length cs
      then (0, p\<lparr>auth_queue := tl (auth_queue p), poll_candidates := None\<rparr>)
      else case qore_check_cancel E p of (cancelled, p) \<Rightarrow>
        if cancelled then (-1, p)
        else
          (case resolveProviderCandidateUnlocked E (cs ! provider_index p) (poll_timeout p)
              (p\<lparr>provider_index := Suc (provider_index p)\<rparr>) of ((rc, sub_plan), p) \<Rightarrow>
             if rc \<noteq> 0 then (-1, p) else (0, p\<lparr>auth_queue := sub_plan @ auth_queue p\<rparr>)))"

definition expandProviderAttempt :: "('w, 'm) penv \<Rightarrow> ('w, 'm) pst \<Rightarrow> int \<times> ('w, 'm) pst" where
  "expandProviderAttempt E p =
     (if \<not> publicKeyAuthAvailableUnlocked p then (0, p\<lparr>auth_queue := tl (auth_queue p)\<rparr>)
      else case provider_fetch E p of
             (None, p) \<Rightarrow> (-1, p)
           | (Some cs, p) \<Rightarrow> provider_next E cs p)"

text \<open>The selection of an identity; \<open>Some\<close> is a return from the function.\<close>

definition agent_select_identity :: "('w, 'm) penv \<Rightarrow> agent_helper \<Rightarrow> ('w, 'm) pst \<Rightarrow> int option \<times> ('w, 'm) pst" where
  "agent_select_identity E h p =
     (if \<not> agent_need_identity p then (None, p)
      else case qore_check_cancel E p of (cancelled, p) \<Rightarrow>
        if cancelled then (Some SFTP_AGENT_ERROR, agent_reset E p)
        else case Ssh2AgentHelper_nextIdentity E h p of ((rc, h), p) \<Rightarrow>
          if rc \<noteq> 0 then (Some SFTP_AGENT_NO_MORE, agent_reset E (p\<lparr>poll_agent := Some h\<rparr>))
          else (None, p\<lparr>poll_agent := Some h, agent_need_identity := False\<rparr>))"

partial_function (option) agent_step_loop ::
  "('w, 'm) penv \<Rightarrow> ('w, 'm) pst \<Rightarrow> (lrc \<times> ('w, 'm) pst) option" where
  "agent_step_loop E p =
     (case poll_agent p of
        None \<Rightarrow> Some (Ret SFTP_AGENT_NO_MORE, p)
      | Some h \<Rightarrow>
          (case agent_select_identity E h p of (r, p) \<Rightarrow>
             (case r of
                Some rc \<Rightarrow> Some (Ret rc, p)
              | None \<Rightarrow>
                  (case Ssh2AgentHelper_userauth E (the (poll_agent p)) (sshuser p) p of (rc, p) \<Rightarrow>
                     if rc = Eagain then Some (Eagain, p)
                     else if rc = Ret 0 then Some (Ret 0, p)
                     else agent_step_loop E (p\<lparr>agent_need_identity := True\<rparr>)))))"

declare agent_step_loop.simps [code]

definition stepAgentAuth :: "('w, 'm) penv \<Rightarrow> ('w, 'm) pst \<Rightarrow> (lrc \<times> ('w, 'm) pst) option" where
  "stepAgentAuth E p =
     (if \<not> have_agent_api E then Some (Ret SFTP_AGENT_NO_MORE, p)
      else if poll_agent p = None then
        (case Ssh2AgentHelper_init E Ssh2AgentHelper_new p of ((rc, h), p) \<Rightarrow>
           if rc \<noteq> 0 then Some (Ret SFTP_AGENT_NO_MORE, p)
           else agent_step_loop E (p\<lparr>poll_agent := Some h, agent_need_identity := True\<rparr>))
      else agent_step_loop E p)"

text \<open>After the loop over the attempts.\<close>

definition auth_finish :: "('w, 'm) penv \<Rightarrow> ('w, 'm) pst \<Rightarrow> (poll_info option \<times> ('w, 'm) pst) option" where
  "auth_finish E p =
     (if \<not> poll_loggedin p then end_stage E True (raise True ''SSH2CLIENT-AUTH-ERROR'' p)
      else
        (let p = (agent_reset E (p\<lparr>auth_queue := []\<rparr>))\<lparr>poll_candidates := None\<rparr>
         in Some (None, (finishConnectUnlocked E p)\<lparr>poll_state := SFTP_INIT\<rparr>)))"

definition check_attempt :: "('w, 'm) penv \<Rightarrow> attempt \<Rightarrow> ('w, 'm) pst \<Rightarrow> (int \<times> ('w, 'm) pst) option" where
  "check_attempt E a p =
     (if auth_attempt_checked p then Some (0, p)
      else do { (rc, p) \<leftarrow> checkAuthAttemptAccessUnlocked E a p;
                Some (rc, if rc \<noteq> 0 then p else p\<lparr>auth_attempt_checked := True\<rparr>) })"

partial_function (option) handleAuth ::
  "('w, 'm) penv \<Rightarrow> ('w, 'm) pst \<Rightarrow> (poll_info option \<times> ('w, 'm) pst) option" where
  "handleAuth E p =
     (if poll_loggedin p then auth_finish E p
      else case auth_queue p of
        [] \<Rightarrow> auth_finish E p
      | attempt # _ \<Rightarrow>
          if kind attempt = PROVIDER then
            (case expandProviderAttempt E p of (rc, p) \<Rightarrow>
               if rc \<noteq> 0 then end_stage E True p else handleAuth E p)
          else if kind attempt = AGENT then
            do { (rc, p) \<leftarrow> stepAgentAuth E p;
                 if rc = Eagain then getSessionPollInfo E p
                 else if rc = Ret SFTP_AGENT_ERROR then end_stage E True p
                 else if rc = Ret 0 then
                   auth_finish E (agent_reset E ((setAuthenticatedWithUnlocked attempt p)\<lparr>poll_loggedin := True\<rparr>))
                 else handleAuth E (p\<lparr>auth_queue := tl (auth_queue p)\<rparr>) }
          else
            do { (rc, p) \<leftarrow> check_attempt E attempt p;
                 if rc \<noteq> 0 then end_stage E False p
                 else case authCallUnlocked E attempt p of (rc, p) \<Rightarrow>
                   if rc = Eagain then getSessionPollInfo E p
                   else if rc = Ret 0 then
                     auth_finish E ((setAuthenticatedWithUnlocked attempt p)\<lparr>poll_loggedin := True\<rparr>)
                   else handleAuth E (p\<lparr>auth_queue := tl (auth_queue p), auth_attempt_checked := False\<rparr>) })"

declare handleAuth.simps [code]

section \<open>The stages of the transfer\<close>

definition handleSftpInit :: "('w, 'm) penv \<Rightarrow> ('w, 'm) pst \<Rightarrow> (poll_info option \<times> ('w, 'm) pst) option" where
  "handleSftpInit E p =
     (case call_ext (sftp_init E) p of
        (Got _, p) \<Rightarrow>
          Some (None, p\<lparr>sftp_session := True, poll_state := (if sftppath p = [] then REALPATH else STAT)\<rparr>)
      | (NullEagain, p) \<Rightarrow> getSessionPollInfo E (p\<lparr>sftp_session := False\<rparr>)
      | (NullErr, p) \<Rightarrow> retry_or_fail E True (p\<lparr>sftp_session := False\<rparr>))"

definition handleRealPath :: "('w, 'm) penv \<Rightarrow> ('w, 'm) pst \<Rightarrow> (poll_info option \<times> ('w, 'm) pst) option" where
  "handleRealPath E p =
     (case call_ext (sftp_realpath E ''.'') p of
        (RdEagain, p) \<Rightarrow> getSessionPollInfo E p
      | (RdData (c # d), p) \<Rightarrow> Some (None, p\<lparr>sftppath := c_str (c # d), poll_state := STAT\<rparr>)
      | (_, p) \<Rightarrow> session_error E True p)"

definition handleStat :: "('w, 'm) penv \<Rightarrow> ('w, 'm) pst \<Rightarrow> (poll_info option \<times> ('w, 'm) pst) option" where
  "handleStat E p =
     (let p = (if abs_path p = [] then p\<lparr>abs_path := absolute_filename (sftppath p) (Some (poll_path p))\<rparr> else p)
      in case call_ext (sftp_stat E (abs_path p)) p of
           ((Eagain, _), p) \<Rightarrow> getSessionPollInfo E p
         | ((Ret rc, attrs), p) \<Rightarrow>
             if rc < 0 then retry_or_fail E False p
             else Some (None, p\<lparr>file_size := att_filesize attrs, file_permissions := att_permissions attrs,
                          poll_state := OPEN\<rparr>))"

definition handleOpen :: "('w, 'm) penv \<Rightarrow> ('w, 'm) pst \<Rightarrow> (poll_info option \<times> ('w, 'm) pst) option" where
  "handleOpen E p =
     (case call_ext (sftp_open_read E (abs_path p) (file_permissions p)) p of
        (Got _, p) \<Rightarrow> Some (None, p\<lparr>sftp_handle := True, poll_state := READ\<rparr>)
      | (NullEagain, p) \<Rightarrow> getSessionPollInfo E (p\<lparr>sftp_handle := False\<rparr>)
      | (NullErr, p) \<Rightarrow> session_error E False (p\<lparr>sftp_handle := False\<rparr>))"

text \<open>The end of the reading: the buffer gets the size that was read.\<close>

definition read_finish :: "('w, 'm) pst \<Rightarrow> (poll_info option \<times> ('w, 'm) pst) option" where
  "read_finish p = Some (None, p\<lparr>poll_data := take (unat (bytes_read p)) (poll_data p), poll_state := CLOSE\<rparr>)"

partial_function (option) handleRead ::
  "('w, 'm) penv \<Rightarrow> ('w, 'm) pst \<Rightarrow> (poll_info option \<times> ('w, 'm) pst) option" where
  "handleRead E p =
     (if \<not> bytes_read p < file_size p then read_finish p
      else
        (case call_ext (sftp_read E (unat (file_size p - bytes_read p))) (use_handle p) of (r, p) \<Rightarrow>
           (case r of
              RdEagain \<Rightarrow> getSessionPollInfo E p
            | RdErr _ \<Rightarrow> session_error E False p
            | RdData d \<Rightarrow>
                if d = [] then read_finish p
                else
                  (let p = p\<lparr>poll_data := take (unat (bytes_read p)) (poll_data p) @ d,
                        bytes_read := bytes_read p + of_nat (length d), read_calls := read_calls p + 1\<rparr>
                   in if read_calls p mod SFTP_POLL_CANCEL_CHECK_INTERVAL = 0 then
                        (case qore_check_cancel E p of (cancelled, p) \<Rightarrow>
                           if cancelled then end_stage E True p else handleRead E p)
                      else handleRead E p))))"

declare handleRead.simps [code]

definition handleClose :: "('w, 'm) penv \<Rightarrow> ('w, 'm) pst \<Rightarrow> (poll_info option \<times> ('w, 'm) pst) option" where
  "handleClose E p =
     (case call_ext (sftp_close_handle E) (use_handle p) of (rc, p) \<Rightarrow>
        if rc = Eagain then getSessionPollInfo E p
        else end_stage E False (p\<lparr>sftp_handle := False, poll_state := DONE\<rparr>))"

section \<open>The machine\<close>

text \<open>The loop ends in the states \<open>DONE\<close> and \<open>CLOSED\<close>, so they have no handler.\<close>

definition handle_stage :: "('w, 'm) penv \<Rightarrow> ('w, 'm) pst \<Rightarrow> (poll_info option \<times> ('w, 'm) pst) option" where
  "handle_stage E p =
     (case poll_state p of
        START \<Rightarrow> handleStart E p
      | CONNECTING \<Rightarrow> handleConnecting E p
      | HANDSHAKE \<Rightarrow> handleHandshake E p
      | AUTHLIST \<Rightarrow> handleAuthList E p
      | AUTH \<Rightarrow> handleAuth E p
      | SFTP_INIT \<Rightarrow> handleSftpInit E p
      | REALPATH \<Rightarrow> handleRealPath E p
      | STAT \<Rightarrow> handleStat E p
      | OPEN \<Rightarrow> handleOpen E p
      | READ \<Rightarrow> handleRead E p
      | CLOSE \<Rightarrow> handleClose E p
      | _ \<Rightarrow> Some (None, p))"

definition ended :: "('w, 'm) pst \<Rightarrow> bool" where
  "ended p \<longleftrightarrow> poll_state p = DONE \<or> poll_state p = CLOSED"

partial_function (option) continuePollIntern ::
  "('w, 'm) penv \<Rightarrow> ('w, 'm) pst \<Rightarrow> (poll_info option \<times> ('w, 'm) pst) option" where
  "continuePollIntern E p =
     (if ended p then Some (None, p)
      else do { (rv, p) \<leftarrow> handle_stage E p;
                if rv \<noteq> None then Some (rv, p) else continuePollIntern E p })"

declare continuePollIntern.simps [code]

definition continuePoll :: "('w, 'm) penv \<Rightarrow> ('w, 'm) pst \<Rightarrow> (poll_info option \<times> ('w, 'm) pst) option" where
  "continuePoll E p =
     (if ended p then Some (None, p)
      else case qore_check_cancel E p of (cancelled, p) \<Rightarrow>
        if cancelled then end_stage E True p else continuePollIntern E p)"

end
