(* ===== verification/Sftp_Poll_Inv.thy ===== *)
theory Sftp_Poll_Inv
  imports Sftp_Poll
begin

text \<open>
  The invariant of the poll operation: what holds of the client and of the operation in each
  stage, that every handler keeps it, and that an operation that has ended holds nothing any
  more, whatever way it ended.
\<close>

section \<open>The invariant\<close>

definition cfg where
  "cfg p = (settings p, policies p, poll_timeout p, poll_path p)"

definition poll_base :: "('w, 'm) pst \<Rightarrow> bool" where
  "poll_base p \<longleftrightarrow> is_sftp p \<and> client_reserved p \<and> poll_op_in_progress p \<and> \<not> connect_in_progress p
     \<and> \<not> handle_outlives p \<and> (agent_live p \<longleftrightarrow> poll_agent p \<noteq> None)
     \<and> (ssh_session p \<longrightarrow> session_blocking p \<or> restore_session_blocking p)"

definition closable :: "bool \<Rightarrow> ('w, 'm) pst \<Rightarrow> bool" where
  "closable d p \<longleftrightarrow> poll_base p \<and> conn_inv (if d \<and> \<not> ssh_session p then closeTransportUnlocked p else p)"

definition ended_ok :: "('w, 'm) pst \<Rightarrow> bool" where
  "ended_ok p \<longleftrightarrow> ended p \<and> conn_inv p \<and> is_sftp p \<and> \<not> client_reserved p \<and> \<not> poll_op_in_progress p
     \<and> \<not> connect_in_progress p \<and> \<not> handle_outlives p \<and> \<not> agent_live p \<and> poll_agent p = None
     \<and> poll_candidates p = None \<and> \<not> connect_state p \<and> \<not> sftp_handle p \<and> \<not> restore_session_blocking p
     \<and> (ssh_session p \<longrightarrow> session_blocking p)"

lemma agent_reset_eq:
  assumes "agent_live p \<longleftrightarrow> poll_agent p \<noteq> None"
  obtains w where "agent_reset E p = p\<lparr>agent_live := False, poll_agent := None, world := w\<rparr>"
proof (cases "poll_agent p")
  case None
  with assms have "agent_reset E p = p\<lparr>agent_live := False, poll_agent := None, world := world p\<rparr>"
    by (simp add: agent_reset_def)
  then show thesis by (rule that)
next
  case (Some h)
  with assms show thesis
    by (intro that [of "if ah_connected h then agent_free E (agent_disconnect E (world p)) else agent_free E (world p)"])
      (simp add: agent_reset_def Ssh2AgentHelper_reset_def Let_def run_ext_def)
qed

lemma conn_inv_client_upd [simp]:
  "conn_inv (s\<lparr>agent_live := b\<rparr>) = conn_inv s" "conn_inv (s\<lparr>world := w\<rparr>) = conn_inv s"
  "conn_inv (s\<lparr>xsink := e\<rparr>) = conn_inv s" "conn_inv (s\<lparr>session_blocking := b\<rparr>) = conn_inv s"
  "conn_inv (s\<lparr>poll_op_in_progress := b\<rparr>) = conn_inv s" "conn_inv (s\<lparr>auth_methods := m\<rparr>) = conn_inv s"
  "conn_inv (s\<lparr>sftppath := p\<rparr>) = conn_inv s"
  by (simp_all add: conn_inv_def)

lemma conn_inv_poll_upd [simp]:
  "conn_inv (p\<lparr>poll_state := a\<rparr>) = conn_inv p" "conn_inv (p\<lparr>poll_fd := f\<rparr>) = conn_inv p"
  "conn_inv (p\<lparr>connect_state := b\<rparr>) = conn_inv p" "conn_inv (p\<lparr>auth_queue := q\<rparr>) = conn_inv p"
  "conn_inv (p\<lparr>auth_attempt_checked := b\<rparr>) = conn_inv p" "conn_inv (p\<lparr>poll_loggedin := b\<rparr>) = conn_inv p"
  "conn_inv (p\<lparr>poll_candidates := c\<rparr>) = conn_inv p" "conn_inv (p\<lparr>provider_index := i\<rparr>) = conn_inv p"
  "conn_inv (p\<lparr>poll_agent := h\<rparr>) = conn_inv p" "conn_inv (p\<lparr>agent_need_identity := b\<rparr>) = conn_inv p"
  "conn_inv (p\<lparr>reused_session := b\<rparr>) = conn_inv p" "conn_inv (p\<lparr>reconnect_attempted := b\<rparr>) = conn_inv p"
  "conn_inv (p\<lparr>sftp_handle := b\<rparr>) = conn_inv p" "conn_inv (p\<lparr>file_size := n\<rparr>) = conn_inv p"
  "conn_inv (p\<lparr>file_permissions := n\<rparr>) = conn_inv p" "conn_inv (p\<lparr>bytes_read := n\<rparr>) = conn_inv p"
  "conn_inv (p\<lparr>read_calls := n\<rparr>) = conn_inv p" "conn_inv (p\<lparr>poll_data := d\<rparr>) = conn_inv p"
  "conn_inv (p\<lparr>restore_session_blocking := b\<rparr>) = conn_inv p" "conn_inv (p\<lparr>client_reserved := b\<rparr>) = conn_inv p"
  "conn_inv (p\<lparr>handle_misused := b\<rparr>) = conn_inv p" "conn_inv (p\<lparr>abs_path := e\<rparr>) = conn_inv p"
  by (simp_all add: conn_inv_def)

lemma conn_inv_raise [simp]: "conn_inv (raise x c s) = conn_inv s"
  by (simp add: raise_def)

lemma close_handle_post:
  "post (close_handle E p) (\<lambda>b t. \<exists>m. io_step True (p\<lparr>sftp_handle := False, handle_misused := m\<rparr>) t
     \<and> (\<not> sftp_handle p \<longrightarrow> \<not> b \<and> t = p))"
proof (cases "sftp_handle p")
  case True
  then show ?thesis
    unfolding close_handle_def
    by (auto intro!: post_mono [OF retry_in_disconnect_post] exI [of _ "handle_misused p \<or> \<not> sftp_session p"]
        simp: use_handle_def elim!: io_stepE) (auto simp: io_step_def core_def)
next
  case False
  then have "p\<lparr>sftp_handle := False, handle_misused := handle_misused p\<rparr> = p" by simp
  then have "\<exists>m. io_step True (p\<lparr>sftp_handle := False, handle_misused := m\<rparr>) p"
    by (intro exI [of _ "handle_misused p"]) (simp only: io_step_refl)
  with False show ?thesis by (simp add: close_handle_def)
qed

lemma cfg_io: "io_step x p t \<Longrightarrow> cfg t = cfg p"
  by (erule io_stepE) (simp add: cfg_def settings_def policies_def)

lemma cfg_disc [simp]: "cfg (disc_state p) = cfg p"
  by (simp add: cfg_def) (simp add: disc_state_def)

lemma drop_connection_post:
  "post (drop_connection E d p) (\<lambda>_ t.
     if \<not> d then t = p else if ssh_session p then io_step True (disc_state p) t else t = closeTransportUnlocked p)"
  by (auto simp: drop_connection_def intro!: post_mono [OF disconnectUnlocked_post])

lemma core_transport:
  assumes "core t = core s"
  shows "core (closeTransportUnlocked t) = core (closeTransportUnlocked s)"
  using assms by (elim coreE) (simp add: closeTransportUnlocked_def core_def)

lemma release_client_ok:
  assumes "conn_inv p" "is_sftp p" "client_reserved p" "\<not> connect_in_progress p" "\<not> handle_outlives p"
    "\<not> agent_live p" "poll_agent p = None" "poll_candidates p = None" "\<not> connect_state p" "\<not> sftp_handle p"
    "ssh_session p \<longrightarrow> session_blocking p \<or> restore_session_blocking p"
  shows "ended_ok (release_client p)"
  using assms
  by (auto simp: ended_ok_def release_client_def ended_def Let_def restoreBlockingIntern_def setBlockingUnlocked_def)

lemma release_client_sel [simp]:
  "xsink (release_client p) = xsink p" "cfg (release_client p) = cfg p" "poll_data (release_client p) = poll_data p"
  "poll_state (release_client p) = (if poll_state p = DONE then DONE else CLOSED)"
  "ssh_session (release_client p) = ssh_session p" "world (release_client p) = world p"
  "handle_misused (release_client p) = handle_misused p" "sock (release_client p) = sock p" "reused_session (release_client p) = reused_session p"
  "reconnect_attempted (release_client p) = reconnect_attempted p"
  by (simp_all add: release_client_def Let_def restoreBlockingIntern_def setBlockingUnlocked_def cfg_def
      settings_def policies_def)

lemma core_eq_poll:
  assumes "core t = core (s :: ('w, 'm) pst)"
  shows "poll_path t = poll_path s" "abs_path t = abs_path s" "poll_timeout t = poll_timeout s"
    "poll_state t = poll_state s" "poll_fd t = poll_fd s" "connect_state t = connect_state s"
    "auth_queue t = auth_queue s" "auth_attempt_checked t = auth_attempt_checked s"
    "poll_loggedin t = poll_loggedin s" "poll_candidates t = poll_candidates s"
    "provider_index t = provider_index s" "poll_agent t = poll_agent s"
    "agent_need_identity t = agent_need_identity s" "reused_session t = reused_session s"
    "reconnect_attempted t = reconnect_attempted s" "sftp_handle t = sftp_handle s"
    "file_size t = file_size s" "file_permissions t = file_permissions s" "bytes_read t = bytes_read s"
    "read_calls t = read_calls s" "poll_data t = poll_data s"
    "restore_session_blocking t = restore_session_blocking s" "client_reserved t = client_reserved s"
    "handle_misused t = handle_misused s"
proof -
  from assms obtain w e where "t = s\<lparr>world := w, xsink := e\<rparr>" by (rule coreE)
  then show "poll_path t = poll_path s" "abs_path t = abs_path s" "poll_timeout t = poll_timeout s"
    "poll_state t = poll_state s" "poll_fd t = poll_fd s" "connect_state t = connect_state s"
    "auth_queue t = auth_queue s" "auth_attempt_checked t = auth_attempt_checked s"
    "poll_loggedin t = poll_loggedin s" "poll_candidates t = poll_candidates s"
    "provider_index t = provider_index s" "poll_agent t = poll_agent s"
    "agent_need_identity t = agent_need_identity s" "reused_session t = reused_session s"
    "reconnect_attempted t = reconnect_attempted s" "sftp_handle t = sftp_handle s"
    "file_size t = file_size s" "file_permissions t = file_permissions s" "bytes_read t = bytes_read s"
    "read_calls t = read_calls s" "poll_data t = poll_data s"
    "restore_session_blocking t = restore_session_blocking s" "client_reserved t = client_reserved s"
    "handle_misused t = handle_misused s"
    by simp_all
qed

lemma disc_state_poll [simp]:
  "poll_path (disc_state p) = poll_path p" "abs_path (disc_state p) = abs_path p"
  "poll_timeout (disc_state p) = poll_timeout p" "poll_state (disc_state p) = poll_state p"
  "connect_state (disc_state p) = connect_state p"
  "auth_queue (disc_state p) = auth_queue p" "auth_attempt_checked (disc_state p) = auth_attempt_checked p"
  "poll_loggedin (disc_state p) = poll_loggedin p" "poll_candidates (disc_state p) = poll_candidates p"
  "poll_agent (disc_state p) = poll_agent p" "reused_session (disc_state p) = reused_session p"
  "reconnect_attempted (disc_state p) = reconnect_attempted p" "sftp_handle (disc_state p) = sftp_handle p"
  "poll_data (disc_state p) = poll_data p" "restore_session_blocking (disc_state p) = restore_session_blocking p"
  "client_reserved (disc_state p) = client_reserved p" "handle_misused (disc_state p) = handle_misused p"
  by (simp_all add: disc_state_def)

lemma disc_state_outlives [simp]:
  "handle_outlives (disc_state s) = (handle_outlives s \<or> ssh_session s \<and> (agent_live s \<or> nh_live s))"
  by (simp add: disc_state_def)

text \<open>What closing the operation gives: everything is released; the connection is gone if that was asked for.\<close>

definition closed_from :: "bool \<Rightarrow> ('w, 'm) pst \<Rightarrow> ('w, 'm) pst \<Rightarrow> bool" where
  "closed_from d p t \<longleftrightarrow> ended_ok t \<and> cfg t = cfg p \<and> poll_data t = poll_data p
     \<and> poll_state t = (if poll_state p = DONE then DONE else CLOSED) \<and> (d \<longrightarrow> \<not> ssh_session t)
     \<and> (\<exists>e. xsink t = xsink p @ e) \<and> (\<not> sftp_handle p \<and> \<not> d \<longrightarrow> xsink t = xsink p \<and> sock t = sock p)
     \<and> reused_session t = reused_session p \<and> reconnect_attempted t = reconnect_attempted p"

definition to_close :: "bool \<Rightarrow> bool \<Rightarrow> ('w, 'm) pst \<Rightarrow> ('w, 'm) pst" where
  "to_close d m p = (let p = p\<lparr>agent_live := False, poll_agent := None, poll_candidates := None, connect_state := False,
     sftp_handle := False, handle_misused := m\<rparr>
   in if \<not> d then p else if ssh_session p then disc_state p else closeTransportUnlocked p)"

lemma conn_inv_transport:
  "conn_inv (closeTransportUnlocked (p\<lparr>agent_live := a, poll_agent := h, poll_candidates := c, connect_state := b,
     sftp_handle := f, handle_misused := m\<rparr>)) = conn_inv (closeTransportUnlocked p)"
  by (simp add: closeTransportUnlocked_def conn_inv_def)

lemma to_close_inv:
  assumes "closable d p"
  shows "conn_inv (to_close d m p)"
  using assms by (auto simp: to_close_def closable_def Let_def conn_inv_transport split: if_splits)

lemma to_close_sel:
  assumes "closable d p"
  shows "is_sftp (to_close d m p)" "client_reserved (to_close d m p)" "\<not> connect_in_progress (to_close d m p)"
    "\<not> handle_outlives (to_close d m p)" "\<not> agent_live (to_close d m p)" "poll_agent (to_close d m p) = None"
    "poll_candidates (to_close d m p) = None" "\<not> connect_state (to_close d m p)" "\<not> sftp_handle (to_close d m p)"
    "ssh_session (to_close d m p) \<longrightarrow> session_blocking (to_close d m p) \<or> restore_session_blocking (to_close d m p)"
    "d \<Longrightarrow> \<not> ssh_session (to_close d m p)"
  using assms unfolding closable_def poll_base_def to_close_def Let_def
  by (simp_all add: closeTransportUnlocked_def conn_inv_def split: if_split_asm)

lemma to_close_keeps [simp]:
  "cfg (to_close d m p) = cfg p" "poll_data (to_close d m p) = poll_data p" "poll_state (to_close d m p) = poll_state p"
  "xsink (to_close d m p) = xsink p" "reused_session (to_close d m p) = reused_session p"
  "reconnect_attempted (to_close d m p) = reconnect_attempted p"
  by (simp_all add: to_close_def Let_def closeTransportUnlocked_def)
    (simp_all add: cfg_def settings_def policies_def)

lemma cfg_core: "core t = core (p :: ('w, 'm) pst) \<Longrightarrow> cfg t = cfg p"
  using settings_core core_eq_poll unfolding cfg_def by metis

lemma to_close_ok:
  assumes "closable d p" "core t = core (to_close d m p)"
  shows "ended_ok (release_client t)"
  using conn_inv_core [OF assms(2)] to_close_inv [OF assms(1)] to_close_sel [OF assms(1)]
  by (intro release_client_ok) (simp_all add: core_eq_sel [OF assms(2)] core_eq_poll [OF assms(2)])

lemma closable_mono: "closable False p \<Longrightarrow> closable d p"
  by (auto simp: closable_def closeTransportUnlocked_def conn_inv_def)

lemma closeIntern_post:
  assumes "closable d p"
  shows "post (closeIntern E d p) (\<lambda>_ t. closed_from d p t)"
proof -
  have al: "agent_live p \<longleftrightarrow> poll_agent p \<noteq> None" using assms by (simp add: closable_def poll_base_def)
  obtain w where w: "agent_reset E p = p\<lparr>agent_live := False, poll_agent := None, world := w\<rparr>"
    by (rule agent_reset_eq [OF al])
  define q where "q = p\<lparr>agent_live := False, poll_agent := None, world := w, poll_candidates := None, connect_state := False\<rparr>"
  have step: "post (drop_connection E (d \<or> b) u) (\<lambda>_ t. closed_from d p (release_client t))"
    if u: "io_step True (q\<lparr>sftp_handle := False, handle_misused := m\<rparr>) u" and b: "\<not> sftp_handle p \<longrightarrow> \<not> b \<and> u = q"
    for b m u
  proof -
    have cl: "closable (d \<or> b) p" using assms by (cases d) (auto intro: closable_mono)
    have cu: "core u = core (to_close False m p)"
      using io_step_core [OF u] unfolding q_def to_close_def by (simp add: core_def)
    have d: "io_step True s t \<Longrightarrow> core t = core s" for s t :: "('a, 'b) pst" by (rule io_step_core)
    show ?thesis
    proof (rule post_mono [OF drop_connection_post])
      fix r :: int and t
      assume t: "if \<not> (d \<or> b) then t = u else if ssh_session u then io_step True (disc_state u) t
        else t = closeTransportUnlocked u"
      have s: "ssh_session u = ssh_session (to_close False m p)" by (rule core_eq_sel [OF cu])
      have c: "core t = core (to_close (d \<or> b) m p)"
        using t core_disc [OF cu] core_transport [OF cu] cu d unfolding s
        by (auto simp: to_close_def Let_def split: if_splits)
      obtain e where "xsink u = xsink p @ e" using u unfolding q_def io_step_def by auto
      moreover obtain e where "xsink t = xsink u @ e"
        using t by (auto simp: io_step_def closeTransportUnlocked_def split: if_splits)
      moreover have "\<not> sftp_handle p \<and> \<not> d \<Longrightarrow> xsink t = xsink p \<and> sock t = sock p" using b t by (auto simp: q_def)
      ultimately show "closed_from d p (release_client t)"
        using to_close_ok [OF cl c] cfg_core [OF c] core_eq_poll [OF c] to_close_sel(11) [OF cl, of m] core_eq_sel [OF c]
        by (auto simp: closed_from_def)
    qed
  qed
  show ?thesis
    unfolding closeIntern_def w
    using close_handle_post [of E q] step by (auto simp: q_def elim!: post_mono)
qed

text \<open>
  The invariant of a running operation, stage by stage. \<open>adopted\<close>: the operation uses a session
  that existed before it.
\<close>

definition adopted :: "('w, 'm) pst \<Rightarrow> bool" where
  "adopted p \<longleftrightarrow> reused_session p \<and> \<not> reconnect_attempted p"

definition session_ok :: "('w, 'm) pst \<Rightarrow> bool" where
  "session_ok p \<longleftrightarrow> conn_inv p \<and> ssh_session p \<and> poll_agent p = None
     \<and> (adopted p \<longrightarrow> \<not> poll_loggedin p) \<and> (adopted p \<or> sshauthenticatedwith p \<noteq> None)"

definition login_ok :: "('w, 'm) pst \<Rightarrow> bool" where
  "login_ok p \<longleftrightarrow> conn_inv p \<and> ssh_session p \<and> \<not> sftp_session p \<and> \<not> sftp_handle p \<and> \<not> poll_loggedin p
     \<and> sshauthenticatedwith p = None \<and> \<not> adopted p"

definition queue_ok :: "('w, 'm) penv \<Rightarrow> ('w, 'm) pst \<Rightarrow> bool" where
  "queue_ok E p \<longleftrightarrow>
     (PROVIDER \<in> kind ` set (auth_queue p) \<longrightarrow> client_identity_provider p \<noteq> None)
     \<and> (poll_agent p \<noteq> None \<longrightarrow> have_agent_api E \<and> (\<exists>a q. auth_queue p = a # q \<and> kind a = AGENT))"

definition stage_ok :: "('w, 'm) penv \<Rightarrow> ('w, 'm) pst \<Rightarrow> bool" where
  "stage_ok E p = (case poll_state p of
       START \<Rightarrow> conn_inv p \<and> poll_agent p = None \<and> \<not> sftp_handle p \<and> \<not> poll_loggedin p
         \<and> (reconnect_attempted p \<or> reused_session p \<longrightarrow> reconnect_attempted p \<and> \<not> ssh_session p)
     | CONNECTING \<Rightarrow> conn_inv (closeTransportUnlocked p) \<and> \<not> ssh_session p \<and> poll_agent p = None
         \<and> \<not> sftp_handle p \<and> \<not> poll_loggedin p \<and> \<not> adopted p
     | HANDSHAKE \<Rightarrow> login_ok p \<and> poll_agent p = None
     | AUTHLIST \<Rightarrow> login_ok p \<and> poll_agent p = None
     | AUTH \<Rightarrow> login_ok p \<and> queue_ok E p
     | SFTP_INIT \<Rightarrow> session_ok p \<and> \<not> sftp_session p \<and> \<not> sftp_handle p
     | REALPATH \<Rightarrow> session_ok p \<and> sftp_session p \<and> \<not> sftp_handle p
     | STAT \<Rightarrow> session_ok p \<and> sftp_session p \<and> \<not> sftp_handle p
     | OPEN \<Rightarrow> session_ok p \<and> sftp_session p \<and> \<not> sftp_handle p
     | READ \<Rightarrow> session_ok p \<and> sftp_session p \<and> sftp_handle p
     | CLOSE \<Rightarrow> session_ok p \<and> sftp_session p \<and> sftp_handle p
     | _ \<Rightarrow> False)"

definition running_ok :: "('w, 'm) penv \<Rightarrow> ('w, 'm) pst \<Rightarrow> bool" where
  "running_ok E p \<longleftrightarrow> poll_base p \<and> xsink p = [] \<and> stage_ok E p"

text \<open>What a stage, and \<open>continuePoll()\<close>, may do.\<close>

definition stage_post :: "('w, 'm) penv \<Rightarrow> ('w, 'm) pst \<Rightarrow> poll_info option \<Rightarrow> ('w, 'm) pst \<Rightarrow> bool" where
  "stage_post E p r t \<longleftrightarrow> cfg t = cfg p \<and>
     (if ended t then r = None \<and> ended_ok t \<and> (poll_state t = CLOSED \<longrightarrow> xsink t \<noteq> [])
        \<and> (poll_state t = DONE \<longrightarrow> xsink t = [])
      else running_ok E t)"

lemma running_not_ended: "running_ok E p \<Longrightarrow> \<not> ended p"
  by (auto simp: running_ok_def stage_ok_def ended_def)

lemma cfg_poll_upd [simp]:
  "cfg (p\<lparr>poll_state := a\<rparr>) = cfg p" "cfg (p\<lparr>poll_fd := f\<rparr>) = cfg p"
  "cfg (p\<lparr>connect_state := b\<rparr>) = cfg p" "cfg (p\<lparr>auth_queue := q\<rparr>) = cfg p"
  "cfg (p\<lparr>auth_attempt_checked := b\<rparr>) = cfg p" "cfg (p\<lparr>poll_loggedin := b\<rparr>) = cfg p"
  "cfg (p\<lparr>poll_candidates := c\<rparr>) = cfg p" "cfg (p\<lparr>provider_index := i\<rparr>) = cfg p"
  "cfg (p\<lparr>poll_agent := h\<rparr>) = cfg p" "cfg (p\<lparr>agent_need_identity := b\<rparr>) = cfg p"
  "cfg (p\<lparr>reused_session := b\<rparr>) = cfg p" "cfg (p\<lparr>reconnect_attempted := b\<rparr>) = cfg p"
  "cfg (p\<lparr>sftp_handle := b\<rparr>) = cfg p" "cfg (p\<lparr>file_size := n\<rparr>) = cfg p"
  "cfg (p\<lparr>file_permissions := n\<rparr>) = cfg p" "cfg (p\<lparr>bytes_read := n\<rparr>) = cfg p"
  "cfg (p\<lparr>read_calls := n\<rparr>) = cfg p" "cfg (p\<lparr>poll_data := d\<rparr>) = cfg p"
  "cfg (p\<lparr>restore_session_blocking := b\<rparr>) = cfg p" "cfg (p\<lparr>handle_misused := b\<rparr>) = cfg p"
  "cfg (p\<lparr>abs_path := e\<rparr>) = cfg p" "cfg (p\<lparr>world := w\<rparr>) = cfg p" "cfg (p\<lparr>xsink := y\<rparr>) = cfg p"
  "cfg (p\<lparr>sock := z\<rparr>) = cfg p" "cfg (p\<lparr>agent_live := b\<rparr>) = cfg p" "cfg (p\<lparr>session_blocking := b\<rparr>) = cfg p"
  "cfg (p\<lparr>sftp_session := b\<rparr>) = cfg p" "cfg (p\<lparr>sftppath := e\<rparr>) = cfg p" "cfg (p\<lparr>auth_methods := e\<rparr>) = cfg p"
  "cfg (p\<lparr>sshauthenticatedwith := g\<rparr>) = cfg p" "cfg (p\<lparr>session_fd_hold := b\<rparr>) = cfg p"
  "cfg (p\<lparr>ssh_session := b\<rparr>) = cfg p"
  by (simp_all add: cfg_def settings_def policies_def)

lemma cfg_ops [simp]: "cfg (raise x c p) = cfg p" "cfg (closeTransportUnlocked p) = cfg p"
  "cfg (use_handle p) = cfg p"
  by (simp_all add: raise_def closeTransportUnlocked_def use_handle_def)

lemma transport_upd [simp]:
  "conn_inv (closeTransportUnlocked (p\<lparr>poll_fd := f\<rparr>)) = conn_inv (closeTransportUnlocked p)"
  "conn_inv (closeTransportUnlocked (p\<lparr>poll_state := a\<rparr>)) = conn_inv (closeTransportUnlocked p)"
  "conn_inv (closeTransportUnlocked (p\<lparr>connect_state := b\<rparr>)) = conn_inv (closeTransportUnlocked p)"
  "conn_inv (closeTransportUnlocked (s\<lparr>sock := k\<rparr>)) = conn_inv (closeTransportUnlocked s)"
  "conn_inv (closeTransportUnlocked (s\<lparr>world := w\<rparr>)) = conn_inv (closeTransportUnlocked s)"
  "conn_inv (closeTransportUnlocked (s\<lparr>session_fd_hold := b\<rparr>)) = conn_inv (closeTransportUnlocked s)"
  "conn_inv (closeTransportUnlocked (s\<lparr>xsink := e\<rparr>)) = conn_inv (closeTransportUnlocked s)"
  by (simp_all add: closeTransportUnlocked_def conn_inv_def)

lemma conn_inv_nh: "conn_inv p \<Longrightarrow> \<not> nh_live p"
  by (simp add: conn_inv_def)

lemma poll_base_core:
  assumes "core t = core p"
  shows "poll_base t = poll_base p"
  by (simp add: poll_base_def core_eq_sel [OF assms] core_eq_poll [OF assms])

lemma stage_ok_core:
  assumes "core t = core p"
  shows "stage_ok E t = stage_ok E p"
  using conn_inv_core [OF assms] conn_inv_core [OF core_transport [OF assms]]
  by (simp add: stage_ok_def login_ok_def session_ok_def queue_ok_def adopted_def core_eq_sel [OF assms]
      core_eq_poll [OF assms] split: SftpPollState.split)

lemma running_io: "io_step False p t \<Longrightarrow> running_ok E p \<Longrightarrow> running_ok E t"
  using io_step_core stage_ok_core poll_base_core io_step_xsink(2) unfolding running_ok_def by metis

lemma running_closable:
  assumes "poll_base p" "stage_ok E p"
  shows "closable True p" "poll_state p \<noteq> CONNECTING \<Longrightarrow> closable False p"
proof -
  have "closable (poll_state p = CONNECTING) p"
    using assms by (auto simp: closable_def stage_ok_def session_ok_def login_ok_def split: SftpPollState.splits)
  then show "closable True p" "poll_state p \<noteq> CONNECTING \<Longrightarrow> closable False p"
    by (cases "poll_state p = CONNECTING"; simp add: closable_mono)+
qed

lemma closable_core:
  assumes "core t = core p"
  shows "closable d t = closable d p"
  using conn_inv_core [OF assms] conn_inv_core [OF core_transport [OF assms]]
  by (simp add: closable_def poll_base_core [OF assms] core_eq_sel [OF assms])

lemma end_stage_post:
  assumes "closable d p" "xsink p \<noteq> []" "poll_state p \<noteq> DONE" "cfg p = cfg q"
  shows "post (end_stage E d p) (stage_post E q)"
  unfolding end_stage_def
  by (simp, rule post_mono [OF closeIntern_post [OF assms(1)]])
    (use assms in \<open>auto simp: closed_from_def stage_post_def ended_ok_def\<close>)

lemma running_fail:
  assumes "running_ok E p" "io_step True p t" "xsink t \<noteq> []" "d \<or> poll_state p \<noteq> CONNECTING"
  shows "post (end_stage E d t) (stage_post E p)"
proof (rule end_stage_post)
  have "closable d p" using running_closable [of p E] assms(1,4) by (cases d) (auto simp: running_ok_def)
  then show "closable d t" using closable_core io_step_core [OF assms(2)] by blast
  show "poll_state t \<noteq> DONE"
    using running_not_ended [OF assms(1)] core_eq_poll(4) [OF io_step_core [OF assms(2)]] by (simp add: ended_def)
  show "cfg t = cfg p" by (rule cfg_io [OF assms(2)])
qed (rule assms(3))

lemma stage_post_cfg: "stage_post E p r t \<Longrightarrow> cfg p = cfg q \<Longrightarrow> stage_post E q r t"
  by (simp add: stage_post_def)

lemma running_post: "running_ok E t \<Longrightarrow> cfg t = cfg p \<Longrightarrow> stage_post E p r t"
  using running_not_ended by (auto simp: stage_post_def)

lemma getPollInfo_post:
  assumes "running_ok E p"
  shows "post (getPollInfo E fd ev ex tm p) (stage_post E p)"
proof -
  have "running_ok E (p\<lparr>poll_fd := fd\<rparr>)"
    using assms by (simp add: running_ok_def poll_base_def stage_ok_def login_ok_def session_ok_def queue_ok_def
        adopted_def cong: SftpPollState.case_cong)
  moreover have "post (end_stage E True (raise True c p)) (stage_post E p)" for c
    by (rule running_fail [OF assms]) simp_all
  ultimately show ?thesis
    using assms by (auto simp: getPollInfo_def Let_def running_ok_def intro: running_post)
qed

lemma getSessionPollInfo_post:
  assumes "running_ok E p" "io_step False p t"
  shows "post (getSessionPollInfo E t) (stage_post E p)"
  unfolding getSessionPollInfo_def
  by (cases "block_directions E (world t)")
    (auto intro: post_mono [OF getPollInfo_post [OF running_io [OF assms(2,1)]]] stage_post_cfg cfg_io [OF assms(2)])

lemma closable_disc:
  assumes "closable False p" "poll_agent p = None"
  shows "closable d (disc_state p)"
proof (rule closable_mono)
  show "closable False (disc_state p)"
    using assms conn_inv_nh [of p] by (simp add: closable_def poll_base_def)
qed

lemma sessionErr_cases:
  "post (sftp_doSessionErrUnlocked E s) (\<lambda>_ t. xsink t \<noteq> [] \<and> (io_step True s t \<or> io_step True (disc_state s) t))"
proof -
  obtain rc u where c: "call_ext (async_io_wait E 0 True False) (raise True ''SSH2-ERROR'' s) = (rc, u)" by fastforce
  have u: "io_step True s u" by (rule io_step_trans [OF io_step_raise io_step_call [OF c]])
  have x: "xsink u \<noteq> []" using io_step_xsink(1) [OF io_step_call [OF c]] by (auto simp: raise_def)
  have "post (disconnectUnlocked E True 10 None True u) (\<lambda>_ t. xsink t \<noteq> [] \<and> io_step True (disc_state s) t)"
    by (rule post_mono [OF disconnectUnlocked_post])
      (use x io_step_trans [OF io_step_disc [OF u]] in \<open>auto simp: io_step_def\<close>)
  with u x show ?thesis by (auto simp: sftp_doSessionErrUnlocked_def c elim!: post_mono)
qed

lemma session_error_post:
  assumes "running_ok E p" "poll_state p \<noteq> CONNECTING" "poll_agent p = None" "io_step False p q"
  shows "post (session_error E d q) (stage_post E p)"
  unfolding session_error_def
proof (rule post_bindI [OF sessionErr_cases], simp only: prod.case)
  fix t
  have cq: "core q = core p" by (rule io_step_core [OF assms(4)])
  have cl: "closable False p" using running_closable(2) [of p E] assms(1,2) by (simp add: running_ok_def)
  assume t: "xsink t \<noteq> [] \<and> (io_step True q t \<or> io_step True (disc_state q) t)"
  then have c: "core t = core p \<or> core t = core (disc_state p)"
    using io_step_core core_disc [OF cq] cq by metis
  show "post (end_stage E d t) (stage_post E p)"
  proof (rule end_stage_post)
    show "closable d t"
      using c
    proof
      assume "core t = core p"
      from closable_core [OF this] closable_mono [OF cl] show ?thesis by simp
    next
      assume "core t = core (disc_state p)"
      from closable_core [OF this] closable_disc [OF cl assms(3)] show ?thesis by simp
    qed
    show "xsink t \<noteq> []" using t by blast
    have "poll_state t = poll_state p" using c core_eq_poll(4) [of t p] core_eq_poll(4) [of t "disc_state p"] by auto
    then show "poll_state t \<noteq> DONE" using running_not_ended [OF assms(1)] by (simp add: ended_def)
    show "cfg t = cfg p" using c cfg_core [of t p] cfg_core [of t "disc_state p"] by auto
  qed
qed

lemma retry_post:
  assumes "running_ok E p" "poll_state p \<in> {SFTP_INIT, STAT}"
  shows "post (retryAfterConnectionLoss E p) (\<lambda>b t. if b then running_ok E t \<and> cfg t = cfg p \<and> poll_state t = START
     \<and> adopted p \<and> \<not> adopted t else t = p)"
proof -
  let ?p = "p\<lparr>reconnect_attempted := True\<rparr>"
  have s: "session_ok p" "poll_base p" "xsink p = []" "\<not> sftp_handle p"
    using assms by (auto simp: running_ok_def stage_ok_def)
  have "running_ok E (t\<lparr>restore_session_blocking := False, abs_path := [], file_size := 0,
      file_permissions := 0, bytes_read := 0, read_calls := 0, poll_data := [], poll_state := START\<rparr>)
      \<and> cfg t = cfg p \<and> reconnect_attempted t"
    if "io_step False (disc_state ?p) t" "reused_session p" "\<not> reconnect_attempted p" for t
  proof -
    have c: "core t = core (disc_state ?p)" by (rule io_step_core [OF that(1)])
    have "conn_inv t" using s conn_inv_core [OF c] by (simp add: session_ok_def)
    moreover have "xsink t = []" using io_step_xsink(2) [OF that(1)] s by simp
    ultimately show ?thesis
      using s that cfg_core [OF c]
      by (auto simp: running_ok_def poll_base_def stage_ok_def session_ok_def adopted_def core_eq_sel [OF c]
          core_eq_poll [OF c] conn_inv_def)
  qed
  then show ?thesis
    unfolding retryAfterConnectionLoss_def
    by (auto intro!: post_mono [OF disconnectUnlocked_post] simp: adopted_def)
qed

lemma retry_or_fail_post:
  assumes "running_ok E p" "poll_state p \<in> {SFTP_INIT, STAT}" "io_step False p q"
  shows "post (retry_or_fail E d q) (stage_post E p)"
proof -
  have r: "running_ok E q" by (rule running_io [OF assms(3,1)])
  have st: "poll_state q \<in> {SFTP_INIT, STAT}" using assms(2) core_eq_poll(4) [OF io_step_core [OF assms(3)]] by simp
  have ag: "poll_agent q = None" using r st by (auto simp: running_ok_def stage_ok_def session_ok_def)
  have e: "post (session_error E d q) (stage_post E p)"
    by (rule post_mono [OF session_error_post [OF r _ ag]])
      (use st in \<open>auto intro: stage_post_cfg cfg_io [OF assms(3)]\<close>)
  show ?thesis
    unfolding retry_or_fail_def
    by (rule post_bindI [OF retry_post [OF r st]])
      (use e cfg_io [OF assms(3)] in \<open>auto split: if_splits intro: running_post\<close>)
qed

lemma setFdNonBlocking_io: "setFdNonBlocking E fd b s = (rc, t) \<Longrightarrow> io_step False s t"
  by (auto simp: setFdNonBlocking_def Let_def split: if_splits prod.splits intro: io_step_call)

lemma preconditions_post:
  assumes "\<not> ssh_session s"
  shows "post (checkConnectPreconditionsUnlocked E s)
    (\<lambda>rc t. if rc = 0 then io_step False s t else io_step True s t \<and> xsink t \<noteq> [])"
proof -
  obtain b t where c: "qore_check_cancel E s = (b, t)" by fastforce
  have "\<not> ssh_session t \<and> io_step True s (raise True e t)" if "\<not> b" for e
    using check_cancel_io(1) [OF c that] assms core_eq_sel(32) [OF io_step_core [OF check_cancel_io(1) [OF c that]]]
    by (auto intro: io_step_trans io_step_weaken)
  with check_cancel_io [OF c] show ?thesis by (auto simp: checkConnectPreconditionsUnlocked_def c)
qed

lemma running_reuse:
  assumes "running_ok E p" "poll_state p = START" "ssh_session p"
    "core t = core (p\<lparr>reused_session := True, poll_state := (if sftp_session p then STAT else SFTP_INIT)\<rparr>)"
  shows "closable False t" "cfg t = cfg p" "poll_state t \<noteq> DONE"
    "xsink t = [] \<Longrightarrow> running_ok E ((setBlockingUnlocked False t)\<lparr>restore_session_blocking := True\<rparr>)"
proof -
  note sel = core_eq_sel [OF assms(4)] core_eq_poll [OF assms(4)]
  have i: "conn_inv t" using assms(1,2) conn_inv_core [OF assms(4)] by (simp add: running_ok_def stage_ok_def)
  show "closable False t"
    using i assms(1) by (simp add: closable_def poll_base_def sel running_ok_def)
  show "cfg t = cfg p" using cfg_core [OF assms(4)] by simp
  show "poll_state t \<noteq> DONE" by (simp add: sel)
  show "running_ok E ((setBlockingUnlocked False t)\<lparr>restore_session_blocking := True\<rparr>)" if "xsink t = []"
    using i that assms(1-3) by (simp add: running_ok_def poll_base_def stage_ok_def session_ok_def adopted_def sel
        setBlockingUnlocked_def)
qed

lemma handleStart_post:
  assumes "running_ok E p" "poll_state p = START"
  shows "post (handleStart E p) (stage_post E p)"
proof (cases "ssh_session p")
  case True
  let ?p = "p\<lparr>reused_session := True, poll_state := (if sftp_session p then STAT else SFTP_INIT)\<rparr>"
  obtain rc t where f: "setFdNonBlocking E (getSocket ?p) True ?p = (rc, t)" by fastforce
  have io: "io_step False ?p t" by (rule setFdNonBlocking_io [OF f])
  have x: "xsink t = []" using io_step_xsink(2) [OF io] assms(1) by (simp add: running_ok_def)
  note r = running_reuse [OF assms True]
  have c: "core (raise True e t) = core ?p" for e using io_step_core [OF io] by simp
  have "post (end_stage E False (raise True e t)) (stage_post E p)" for e
    by (rule end_stage_post [OF r(1) [OF c]]) (simp_all add: r(2,3) [OF c] del: cfg_ops)
  moreover have "stage_post E p None ((setBlockingUnlocked False t)\<lparr>restore_session_blocking := True\<rparr>)"
    by (rule running_post [OF r(4) [OF io_step_core [OF io] x]])
      (simp add: setBlockingUnlocked_def r(2) [OF io_step_core [OF io]])
  ultimately show ?thesis using True f by (simp add: handleStart_def Let_def)
next
  case False
  have inv: "conn_inv (closeTransportUnlocked p)"
    using assms running_closable(1) [of p E] False by (simp add: running_ok_def closable_def)
  have sc: "running_ok E (t\<lparr>sock := k, connect_state := b, poll_state := CONNECTING\<rparr>)" if "running_ok E t"
    "conn_inv (closeTransportUnlocked t)" "poll_state t = START" "\<not> ssh_session t" for t k b
    using that by (auto simp: running_ok_def poll_base_def stage_ok_def adopted_def)
  show ?thesis
    unfolding handleStart_def if_not_P [OF False]
  proof (rule post_bindI [OF preconditions_post [OF False]], simp only: prod.case)
    fix rc :: int and t
    assume pre: "if rc = 0 then io_step False p t else io_step True p t \<and> xsink t \<noteq> []"
    show "post (if rc \<noteq> 0 then end_stage E False t
             else let p = startConnect E (connect_target t) t
                  in if xsink p \<noteq> [] \<or> \<not> connect_state p
                     then end_stage E True (if xsink p = [] then raise True ''SSH2CLIENT-CONNECT-ERROR'' p else p)
                     else Some (None, p\<lparr>poll_state := CONNECTING\<rparr>)) (stage_post E p)"
    proof (cases "rc = 0")
      case rc: False
      with pre assms show ?thesis by (auto intro: running_fail)
    next
      case True
      with pre have io: "io_step False p t" by simp
      note c = io_step_core [OF io]
      have t: "running_ok E t" "cfg t = cfg p" by (rule running_io [OF io assms(1)], rule cfg_io [OF io])
      have s: "\<not> ssh_session t" "poll_state t = START" "conn_inv (closeTransportUnlocked t)"
        using False assms(2) inv conn_inv_core [OF core_transport [OF c]]
        by (simp_all add: core_eq_sel [OF c] core_eq_poll [OF c])
      have tp: "stage_post E p None (t\<lparr>world := w, sock := k, connect_state := b, poll_state := CONNECTING\<rparr>)" for w k b
        using sc [where t = "t\<lparr>world := w\<rparr>" and k = k and b = b] s t running_io [OF io_step_world [of False t w] t(1)]
        by (intro running_post) simp_all
      have cl: "post (end_stage E True (t\<lparr>world := w, sock := k, connect_state := b, xsink := e\<rparr>)) (stage_post E p)"
        if "e \<noteq> []" for w k b e
        using t s that
        by (intro end_stage_post) (auto simp: closable_def running_ok_def poll_base_def)
      obtain r w where c: "start_connect E (connect_target t) (world t) = (r, w)" by fastforce
      have "xsink t = []" using t(1) by (simp add: running_ok_def)
      then show ?thesis
        using True cl [where w = w] tp [where w = w]
        by (cases r) (auto simp: startConnect_def call_ext_def c Let_def raise_def)
    qed
  qed
qed

text \<open>While the connection is made, the socket comes and goes; the rest of the client is unconnected.\<close>

lemma running_connecting:
  assumes "running_ok E p" "poll_state p = CONNECTING"
  shows "running_ok E (p\<lparr>world := w, sock := k\<rparr>)"
    "core t = core (p\<lparr>connect_state := b, session_fd_hold := h\<rparr>) \<Longrightarrow> xsink t \<noteq> [] \<Longrightarrow>
       post (end_stage E True t) (stage_post E p)"
proof -
  show "running_ok E (p\<lparr>world := w, sock := k\<rparr>)"
    using assms by (auto simp: running_ok_def poll_base_def stage_ok_def adopted_def)
  assume c: "core t = core (p\<lparr>connect_state := b, session_fd_hold := h\<rparr>)" and x: "xsink t \<noteq> []"
  have "closable True (p\<lparr>connect_state := b, session_fd_hold := h\<rparr>)"
    using assms by (simp add: closable_def running_ok_def poll_base_def stage_ok_def)
  then show "post (end_stage E True t) (stage_post E p)"
    using x assms(2) closable_core [OF c] cfg_core [OF c]
    by (intro end_stage_post) (simp_all add: core_eq_poll [OF c])
qed

lemma connecting_disconnected: "conn_inv (closeTransportUnlocked p) \<Longrightarrow> \<not> ssh_session p \<Longrightarrow> is_disconnected (closeTransportUnlocked p)"
  by (auto simp: is_disconnected_def conn_inv_def closeTransportUnlocked_def)

lemma fresh_session_inv:
  assumes "conn_inv (closeTransportUnlocked p)" "\<not> ssh_session p"
    "core t = core (p\<lparr>session_fd_hold := True, ssh_session := True, session_blocking := False\<rparr>)"
  shows "conn_inv t"
proof -
  have "conn_inv (p\<lparr>session_fd_hold := True, ssh_session := True, session_blocking := False\<rparr>)"
    using assms(1,2) by (simp add: conn_inv_def closeTransportUnlocked_def)
  with conn_inv_core [OF assms(3)] show ?thesis by simp
qed

lemma disc_transport: "disc_state (closeTransportUnlocked s) = disc_state s"
  by (simp add: disc_state_def closeTransportUnlocked_def)

lemma connected_socket_post:
  assumes "running_ok E p" "poll_state p = CONNECTING"
  shows "post (connected_socket E (p\<lparr>connect_state := False\<rparr>)) (stage_post E p)"
proof -
  have p: "conn_inv (closeTransportUnlocked p)" "\<not> ssh_session p" "poll_base p" "xsink p = []" "\<not> adopted p"
     "\<not> poll_loggedin p" "poll_agent p = None" "\<not> sftp_handle p"
    using assms by (simp_all add: running_ok_def stage_ok_def)
  have d: "\<not> sftp_session p" "sshauthenticatedwith p = None"
    using connecting_disconnected [OF p(1,2)] by (simp_all add: is_disconnected_def closeTransportUnlocked_def)
  have fail: "post (end_stage E True (raise True c (p\<lparr>connect_state := False, world := w, session_fd_hold := h\<rparr>))) (stage_post E p)"
    for c w h
    by (rule running_connecting(2) [OF assms, where b = False and h = h]) (simp_all add: core_def raise_def)
  have ready: "running_ok E (t\<lparr>restore_session_blocking := True, poll_state := HANDSHAKE\<rparr>)"
    if "core t = core (p\<lparr>connect_state := False, world := w, session_fd_hold := True, ssh_session := True, session_blocking := False\<rparr>)"
      "xsink t = []" for t w
  proof -
    have c: "core t = core ((p\<lparr>session_fd_hold := True, ssh_session := True, session_blocking := False\<rparr>)\<lparr>connect_state := False\<rparr>)"
      using that(1) by (simp add: core_def)
    have "conn_inv t"
      using conn_inv_core [OF c] fresh_session_inv [OF p(1,2) refl] by simp
    with p d that(2) show ?thesis
      by (simp add: running_ok_def poll_base_def stage_ok_def login_ok_def adopted_def core_eq_sel [OF c] core_eq_poll [OF c])
  qed
  have lost: "post (end_stage E False t) (stage_post E p)"
    if "core t = core (disc_state (p\<lparr>connect_state := False, world := w, session_fd_hold := True\<rparr>))" "xsink t \<noteq> []" for t w
  proof -
    let ?u = "closeTransportUnlocked (p\<lparr>connect_state := False, world := w, session_fd_hold := True\<rparr>)"
    have u: "conn_inv ?u" "\<not> ssh_session ?u" using p(1,2) by (simp, simp add: closeTransportUnlocked_def)
    have c: "core t = core ?u" using that(1) disc_state_id [OF u] by (simp add: disc_transport)
    have "poll_base ?u" using p by (simp add: poll_base_def closeTransportUnlocked_def)
    then show ?thesis
      using conn_inv_core [OF c] u that(2) cfg_core [OF c] poll_base_core [OF c]
      by (intro end_stage_post)
        (simp_all add: closable_def core_eq_poll [OF c], simp_all add: closeTransportUnlocked_def assms(2))
  qed
  show ?thesis
  proof (cases "sock p")
    case None
    then show ?thesis
      using fail [where w = "world p" and h = "session_fd_hold p"]
      by (simp add: connected_socket_def holdSessionDescriptorUnlocked_def)
  next
    case (Some fd)
    obtain no w where h: "hold_descriptor E fd (world p) = (no, w)" by fastforce
    let ?p = "p\<lparr>connect_state := False, world := w, session_fd_hold := True\<rparr>"
    obtain rc t where f: "setFdNonBlocking E (getSocket ?p) True ?p = (rc, t)" by fastforce
    have t: "t = p\<lparr>connect_state := False, world := world t, session_fd_hold := True\<rparr>"
      using setFdNonBlocking_io [OF f] by (elim io_stepE) simp
    have lo: "post (end_stage E True (raise True e t)) (stage_post E p)" for e
      by (subst t) (rule fail)
    have prep: "post (prepareSessionUnlocked E t) (\<lambda>rc u. post (if rc \<noteq> 0 then end_stage E False u
        else Some (None, u\<lparr>restore_session_blocking := True, poll_state := HANDSHAKE\<rparr>)) (stage_post E p))"
    proof (rule post_mono [OF prepareSession_post])
      fix rc :: int and u
      assume u: "rc = 0 \<and> xsink u = xsink t \<and> core u = core (t\<lparr>ssh_session := True, session_blocking := False\<rparr>)
        \<or> rc = -1 \<and> xsink u \<noteq> [] \<and> core u = core (disc_state t)"
      show "post (if rc \<noteq> 0 then end_stage E False u
        else Some (None, u\<lparr>restore_session_blocking := True, poll_state := HANDSHAKE\<rparr>)) (stage_post E p)"
        using u
      proof
        assume ok: "rc = 0 \<and> xsink u = xsink t \<and> core u = core (t\<lparr>ssh_session := True, session_blocking := False\<rparr>)"
        have xt: "xsink t = []" by (subst t) (simp add: p)
        have c: "core u = core (p\<lparr>connect_state := False, world := world t, session_fd_hold := True, ssh_session := True, session_blocking := False\<rparr>)"
          using ok by (subst (asm) t) simp
        have "cfg u = cfg p" using cfg_core [OF c] by simp
        with ok xt ready [OF c] show ?thesis by (auto intro: running_post)
      next
        assume no: "rc = -1 \<and> xsink u \<noteq> [] \<and> core u = core (disc_state t)"
        then have "core u = core (disc_state (p\<lparr>connect_state := False, world := world t, session_fd_hold := True\<rparr>))"
          by (subst (asm) t) simp
        from lost [OF this] no show ?thesis by simp
      qed
    qed
    have x: "post (end_stage E True (raise True e (p\<lparr>connect_state := False, world := w\<rparr>))) (stage_post E p)" for e
      by (rule running_connecting(2) [OF assms, where b = False and h = "session_fd_hold p"])
        (simp_all add: core_def raise_def)
    show ?thesis
      using Some h f lo prep x by (cases no) (simp_all add: connected_socket_def holdSessionDescriptorUnlocked_def call_ext_def)
  qed
qed


lemma handleConnecting_post:
  assumes "running_ok E p" "poll_state p = CONNECTING"
  shows "post (handleConnecting E p) (stage_post E p)"
proof -
  obtain r w where c: "continue_connect E (world p) = (r, w)" by fastforce
  define q where "q = p\<lparr>world := w, sock := connect_fd E w\<rparr>"
  have q: "running_ok E q" "poll_state q = CONNECTING" "cfg p = cfg q"
    unfolding q_def using running_connecting(1) [OF assms] assms(2) by simp_all
  have e: "post (end_stage E True (raise True e q)) (stage_post E q)" for e
    by (rule running_fail [OF q(1)]) simp_all
  have "post (case r of Inl e \<Rightarrow> end_stage E True (raise True e q)
    | Inr rc \<Rightarrow> if xsink q \<noteq> [] then end_stage E True q
        else if rc \<noteq> 0 then getPollInfo E (getSocket q) rc (connect_extra E (world q)) (connect_timeout E (world q)) q
        else connected_socket E (q\<lparr>connect_state := False\<rparr>)) (stage_post E q)"
    using e getPollInfo_post [OF q(1)] connected_socket_post [OF q(1,2)] q(1)
    by (auto simp: running_ok_def split: sum.split)
  moreover have eq: "p\<lparr>world := w, sock := connect_fd E (world (p\<lparr>world := w\<rparr>))\<rparr> = q" by (simp add: q_def)
  ultimately have "post (handleConnecting E p) (stage_post E q)"
    unfolding handleConnecting_def call_ext_def c Let_def prod.case eq by simp
  then show ?thesis by (rule post_mono) (rule stage_post_cfg, assumption, simp add: q(3))
qed

lemma running_wait: "running_ok E p \<Longrightarrow> call_ext f p = (r, t) \<Longrightarrow> post (getSessionPollInfo E t) (stage_post E p)"
  by (rule getSessionPollInfo_post [OF _ io_step_call])

lemma handleHandshake_post:
  assumes "running_ok E p" "poll_state p = HANDSHAKE" "callbacks_neutral E"
  shows "post (handleHandshake E p) (stage_post E p)"
proof -
  obtain rc q where s: "startupUnlocked E p = (rc, q)" by fastforce
  have io: "io_step False p q" by (rule startup_io [OF s])
  note c = io_step_core [OF io]
  have q: "running_ok E q" "cfg q = cfg p" "poll_state q = HANDSHAKE"
    using running_io [OF io assms(1)] cfg_io [OF io] assms(2) core_eq_poll(4) [OF c] by simp_all
  have ok: "login_ok q" "poll_agent q = None" "poll_base q" "xsink q = []"
    using q(1,3) by (simp_all add: running_ok_def stage_ok_def)
  have nh: "\<not> nh_live q" using ok(1) conn_inv_nh [of q] by (simp add: login_ok_def)
  have cl: "closable False q" using running_closable(2) [of q E] q by (simp add: running_ok_def)
  have fail: "post (end_stage E True (raise True e q)) (stage_post E p)" for e
    by (rule running_fail [OF assms(1)]) (use io in \<open>auto intro: io_step_trans io_step_weaken\<close>)
  have ver: "post (verifyHostKeyUnlocked E (poll_timeout q) q) (\<lambda>rc t. post (if rc \<noteq> 0 then end_stage E False t
      else Some (None, t\<lparr>poll_state := AUTHLIST\<rparr>)) (stage_post E p))"
  proof (rule post_I)
    fix rc t
    assume v: "verifyHostKeyUnlocked E (poll_timeout q) q = Some (rc, t)"
    then have "verify_outcome q rc t" by (rule post_D [OF verifyHostKey_post [OF nh assms(3) ok(4)]])
    then consider "rc = 0" "core t = core q" "xsink t = []" | "rc = -1" "core t = core (disc_state q)" "xsink t \<noteq> []"
      by (auto simp: verify_outcome_def)
    then show "post (if rc \<noteq> 0 then end_stage E False t else Some (None, t\<lparr>poll_state := AUTHLIST\<rparr>)) (stage_post E p)"
    proof cases
      case 1
      have "running_ok E t"
        using stage_ok_core [OF 1(2)] poll_base_core [OF 1(2)] 1(3) q(1) by (simp add: running_ok_def)
      then have "running_ok E (t\<lparr>poll_state := AUTHLIST\<rparr>)"
        using q(3) core_eq_poll(4) [OF 1(2)]
        by (simp add: running_ok_def poll_base_def stage_ok_def login_ok_def adopted_def)
      then show ?thesis using 1(1) cfg_core [OF 1(2)] q(2) by (auto intro: running_post)
    next
      case 2
      have "closable False t" using closable_core [OF 2(2)] closable_disc [OF cl ok(2)] by simp
      moreover have "poll_state t \<noteq> DONE" using core_eq_poll(4) [OF 2(2)] q(3) by simp
      ultimately show ?thesis
        using 2(1,3) cfg_core [OF 2(2)] q(2) by (auto intro: end_stage_post)
    qed
  qed
  show ?thesis
    using s fail ver getSessionPollInfo_post [OF assms(1) io] by (simp add: handleHandshake_def)
qed

lemma handleAuthList_post:
  assumes "running_ok E p" "poll_state p = AUTHLIST"
  shows "post (handleAuthList E p) (stage_post E p)"
proof -
  obtain l q where l: "call_ext (userauth_list E (sshuser p)) p = (l, q)" by fastforce
  have io: "io_step False p q" by (rule io_step_call [OF l])
  have q: "running_ok E q" "cfg q = cfg p" "poll_state q = AUTHLIST"
    using running_io [OF io assms(1)] cfg_io [OF io] assms(2) core_eq_poll(4) [OF io_step_core [OF io]] by simp_all
  obtain plan t where b: "buildAuthPlanUnlocked E (lptr_opt l) q = (plan, t)" by fastforce
  then obtain am where t: "t = q\<lparr>auth_methods := am\<rparr>" using buildAuthPlan_state [of E "lptr_opt l" q] by simp
  have "PROVIDER \<in> kind ` set plan \<Longrightarrow> client_identity_provider q \<noteq> None"
    using plan_provider [of _ E "lptr_opt l" q] b by auto
  then have "running_ok E (t\<lparr>auth_queue := plan, poll_state := AUTH\<rparr>)"
    using q(1,3) unfolding t
    by (simp add: running_ok_def poll_base_def stage_ok_def login_ok_def queue_ok_def adopted_def)
  then have "stage_post E p None (t\<lparr>auth_queue := plan, poll_state := AUTH\<rparr>)"
    by (rule running_post) (simp add: t q(2))
  then show ?thesis using running_wait [OF assms(1) l] by (simp add: handleAuthList_def l b)
qed

lemma handleSftpInit_post:
  assumes "running_ok E p" "poll_state p = SFTP_INIT"
  shows "post (handleSftpInit E p) (stage_post E p)"
proof -
  obtain r q where c: "call_ext (sftp_init E) p = (r, q)" by fastforce
  have io: "io_step False p q" by (rule io_step_call [OF c])
  have q: "running_ok E q" "cfg q = cfg p" "poll_state q = SFTP_INIT"
    using running_io [OF io assms(1)] cfg_io [OF io] assms(2) core_eq_poll(4) [OF io_step_core [OF io]] by simp_all
  then have s: "q\<lparr>sftp_session := False\<rparr> = q" by (simp add: running_ok_def stage_ok_def)
  have "conn_inv (q\<lparr>sftp_session := True\<rparr>)"
    using q(1,3) by (simp add: running_ok_def stage_ok_def session_ok_def poll_base_def conn_inv_def)
  then have "running_ok E (q\<lparr>sftp_session := True, poll_state := (if sftppath q = [] then REALPATH else STAT)\<rparr>)"
    using q(1,3) by (simp add: running_ok_def poll_base_def stage_ok_def session_ok_def adopted_def)
  then have "stage_post E p None (q\<lparr>sftp_session := True, poll_state := (if sftppath q = [] then REALPATH else STAT)\<rparr>)"
    by (rule running_post) (simp add: q(2))
  then show ?thesis
    using retry_or_fail_post [OF assms(1) _ io] getSessionPollInfo_post [OF assms(1) io] assms(2)
    by (cases "sftppath q = []") (simp_all add: handleSftpInit_def c s split: lptr.split)
qed

lemma handleRealPath_post:
  assumes "running_ok E p" "poll_state p = REALPATH"
  shows "post (handleRealPath E p) (stage_post E p)"
proof -
  obtain r q where c: "call_ext (sftp_realpath E ''.'') p = (r, q)" by fastforce
  have io: "io_step False p q" by (rule io_step_call [OF c])
  have ag: "poll_agent p = None" using assms by (simp add: running_ok_def stage_ok_def session_ok_def)
  have q: "running_ok E q" "cfg q = cfg p" "poll_state q = REALPATH"
    using running_io [OF io assms(1)] cfg_io [OF io] assms(2) core_eq_poll(4) [OF io_step_core [OF io]] by simp_all
  then have "running_ok E (q\<lparr>sftppath := d, poll_state := STAT\<rparr>)" for d
    by (simp add: running_ok_def poll_base_def stage_ok_def session_ok_def adopted_def)
  then have "stage_post E p None (q\<lparr>sftppath := d, poll_state := STAT\<rparr>)" for d
    by (rule running_post) (simp add: q(2))
  then show ?thesis
    using session_error_post [OF assms(1) _ ag io] getSessionPollInfo_post [OF assms(1) io] assms(2)
    by (simp add: handleRealPath_def c split: rd.split list.split)
qed

lemma handleStat_post:
  assumes "running_ok E p" "poll_state p = STAT"
  shows "post (handleStat E p) (stage_post E p)"
proof -
  define p1 where "p1 = (if abs_path p = [] then p\<lparr>abs_path := absolute_filename (sftppath p) (Some (poll_path p))\<rparr> else p)"
  have p1: "running_ok E p1" "cfg p1 = cfg p" "poll_state p1 = STAT"
    using assms by (simp_all add: p1_def running_ok_def poll_base_def stage_ok_def session_ok_def adopted_def)
  obtain rc a q where c: "call_ext (sftp_stat E (abs_path p1)) p1 = ((rc, a), q)" by (metis prod.exhaust)
  have io: "io_step False p1 q" by (rule io_step_call [OF c])
  have q: "running_ok E q" "cfg q = cfg p1" "poll_state q = STAT"
    using running_io [OF io p1(1)] cfg_io [OF io] p1(3) core_eq_poll(4) [OF io_step_core [OF io]] by simp_all
  then have "running_ok E (q\<lparr>file_size := n, file_permissions := m, poll_state := OPEN\<rparr>)" for n m
    by (simp add: running_ok_def poll_base_def stage_ok_def session_ok_def adopted_def)
  then have "stage_post E p1 None (q\<lparr>file_size := n, file_permissions := m, poll_state := OPEN\<rparr>)" for n m
    by (rule running_post) (simp add: q(2))
  then have "post (handleStat E p) (stage_post E p1)"
    using retry_or_fail_post [OF p1(1) _ io] getSessionPollInfo_post [OF p1(1) io] p1(3)
    by (simp add: handleStat_def Let_def p1_def [symmetric] c split: lrc.split)
  then show ?thesis by (rule post_mono) (rule stage_post_cfg, assumption, rule p1(2))
qed

lemma handleOpen_post:
  assumes "running_ok E p" "poll_state p = OPEN"
  shows "post (handleOpen E p) (stage_post E p)"
proof -
  obtain r q where c: "call_ext (sftp_open_read E (abs_path p) (file_permissions p)) p = (r, q)" by fastforce
  have io: "io_step False p q" by (rule io_step_call [OF c])
  have ag: "poll_agent p = None" using assms by (simp add: running_ok_def stage_ok_def session_ok_def)
  have q: "running_ok E q" "cfg q = cfg p" "poll_state q = OPEN"
    using running_io [OF io assms(1)] cfg_io [OF io] assms(2) core_eq_poll(4) [OF io_step_core [OF io]] by simp_all
  then have s: "q\<lparr>sftp_handle := False\<rparr> = q" by (simp add: running_ok_def stage_ok_def)
  have "running_ok E (q\<lparr>sftp_handle := True, poll_state := READ\<rparr>)"
    using q(1,3) by (simp add: running_ok_def poll_base_def stage_ok_def session_ok_def adopted_def)
  then have "stage_post E p None (q\<lparr>sftp_handle := True, poll_state := READ\<rparr>)"
    by (rule running_post) (simp add: q(2))
  then show ?thesis
    using session_error_post [OF assms(1) _ ag io] getSessionPollInfo_post [OF assms(1) io] assms(2)
    by (simp add: handleOpen_def c s split: lptr.split)
qed

lemma running_use: "running_ok E p \<Longrightarrow> sftp_handle p \<Longrightarrow> use_handle p = p"
  by (auto simp: use_handle_def running_ok_def stage_ok_def login_ok_def split: SftpPollState.splits)

lemma handleClose_post:
  assumes "running_ok E p" "poll_state p = CLOSE"
  shows "post (handleClose E p) (stage_post E p)"
proof -
  obtain rc q where c: "call_ext (sftp_close_handle E) p = (rc, q)" by fastforce
  have io: "io_step False p q" by (rule io_step_call [OF c])
  have q: "running_ok E q" "cfg q = cfg p" "poll_state q = CLOSE"
    using running_io [OF io assms(1)] cfg_io [OF io] assms(2) core_eq_poll(4) [OF io_step_core [OF io]] by simp_all
  let ?q = "q\<lparr>sftp_handle := False, poll_state := DONE\<rparr>"
  have cl: "closable False ?q" and v: "xsink ?q = []"
    using q(1,3) by (auto simp: closable_def running_ok_def stage_ok_def session_ok_def poll_base_def adopted_def)
  have "post (end_stage E False ?q) (stage_post E p)"
    unfolding end_stage_def
  proof (simp, rule post_mono [OF closeIntern_post [OF cl]])
    fix t
    assume t: "closed_from False ?q t"
    then show "stage_post E p None t"
      using v q(2) by (simp add: closed_from_def stage_post_def ended_ok_def)
  qed
  moreover have "use_handle p = p"
    using assms by (auto intro: running_use simp: running_ok_def stage_ok_def)
  ultimately show ?thesis
    using getSessionPollInfo_post [OF assms(1) io] by (simp add: handleClose_def c)
qed

lemma cancel_post:
  assumes "running_ok E p" "qore_check_cancel E p = (b, t)"
  shows "b \<Longrightarrow> post (end_stage E True t) (stage_post E p)" "\<not> b \<Longrightarrow> io_step False p t"
  using check_cancel_io [OF assms(2)] running_fail [OF assms(1)] by auto

text \<open>One round of the reading: it ends the stage, or the loop goes on with a state like the one before.\<close>

lemma read_round_post:
  assumes "running_ok E p" "poll_state p = READ"
    and rest: "\<And>q. running_ok E q \<Longrightarrow> poll_state q = READ \<Longrightarrow> cfg q = cfg p \<Longrightarrow> post (f q) (stage_post E p)"
  shows "post (if \<not> bytes_read p < file_size p then read_finish p
      else
        (case call_ext (sftp_read E (unat (file_size p - bytes_read p))) (use_handle p) of (r, p) \<Rightarrow>
           (case r of
              RdEagain \<Rightarrow> getSessionPollInfo E p
            | RdErr _ \<Rightarrow> session_error E False p
            | RdData d \<Rightarrow>
                if d = [] then read_finish p
                else
                  (let p = p\<lparr>poll_data := take (unat (bytes_read p)) (poll_data p) @ d,
                        bytes_read := bytes_read p + of_nat (length d), read_calls := read_calls p + 1\<rparr>
                   in if read_calls p mod SFTP_POLL_CANCEL_CHECK_INTERVAL = 0 then
                        (case qore_check_cancel E p of (cancelled, p) \<Rightarrow>
                           if cancelled then end_stage E True p else f p)
                      else f p)))) (stage_post E p)"
proof -
  have use: "use_handle p = p" using assms by (auto intro: running_use simp: running_ok_def stage_ok_def)
  obtain r q where c: "call_ext (sftp_read E (unat (file_size p - bytes_read p))) p = (r, q)" by fastforce
  have io: "io_step False p q" by (rule io_step_call [OF c])
  have ag: "poll_agent p = None" using assms by (simp add: running_ok_def stage_ok_def session_ok_def)
  have q: "running_ok E q" "cfg q = cfg p" "poll_state q = READ"
    using running_io [OF io assms(1)] cfg_io [OF io] assms(2) core_eq_poll(4) [OF io_step_core [OF io]] by simp_all
  have fin: "post (read_finish u) (stage_post E p)" if "running_ok E u" "poll_state u = READ" "cfg u = cfg p" for u
    using that by (auto simp: read_finish_def running_ok_def poll_base_def stage_ok_def session_ok_def adopted_def
        intro!: running_post)
  define n where "n d = q\<lparr>poll_data := take (unat (bytes_read q)) (poll_data q) @ d,
      bytes_read := bytes_read q + of_nat (length d), read_calls := read_calls q + 1\<rparr>" for d
  have n: "running_ok E (n d)" "poll_state (n d) = READ" "cfg (n d) = cfg p" for d
    using q by (simp_all add: n_def running_ok_def poll_base_def stage_ok_def session_ok_def adopted_def)
  have nd: "post (if read_calls (n d) mod SFTP_POLL_CANCEL_CHECK_INTERVAL = 0 then
        (case qore_check_cancel E (n d) of (cancelled, p) \<Rightarrow> if cancelled then end_stage E True p else f p)
      else f (n d)) (stage_post E p)" for d
  proof -
    obtain b t where k: "qore_check_cancel E (n d) = (b, t)" by fastforce
    note cn = cancel_post [OF n(1) k]
    have go: "post (f t) (stage_post E p)" if "\<not> b"
    proof (rule rest)
      show "running_ok E t" by (rule running_io [OF cn(2) [OF that] n(1)])
      show "poll_state t = READ" using core_eq_poll(4) [OF io_step_core [OF cn(2) [OF that]]] n(2) by simp
      show "cfg t = cfg p" using cfg_io [OF cn(2) [OF that]] n(3) by simp
    qed
    have no: "post (end_stage E True t) (stage_post E p)" if b
      by (rule post_mono [OF cn(1) [OF that]]) (rule stage_post_cfg, assumption, rule n(3))
    show ?thesis using k go no rest [OF n] by auto
  qed
  show ?thesis
    using fin [OF assms(1,2)] fin [OF q(1,3,2)] session_error_post [OF assms(1) _ ag io] assms(2)
      getSessionPollInfo_post [OF assms(1) io] nd
    unfolding use c prod.case Let_def n_def by (simp split: rd.split)
qed

lemma handleRead_post:
  assumes "running_ok E p" "poll_state p = READ"
  shows "post (handleRead E p) (stage_post E p)"
proof (rule post_I)
  fix r t
  assume ret: "handleRead E p = Some (r, t)"
  let ?P = "\<lambda>E' p y. E' = E \<longrightarrow> running_ok E p \<longrightarrow> poll_state p = READ \<longrightarrow> stage_post E p (fst y) (snd y)"
  have "?P E p (r, t)"
  proof (rule handleRead.raw_induct [where P = ?P, OF _ ret], intro impI)
    fix f E' p y
    assume IH: "\<And>E' p y. f E' p = Some y \<Longrightarrow> ?P E' p y" and E: "E' = E" and p: "running_ok E p" "poll_state p = READ"
    have rest: "post (f E q) (stage_post E p)" if "running_ok E q" "poll_state q = READ" "cfg q = cfg p" for q
      using IH [of E q] that by (auto intro!: post_I intro: stage_post_cfg)
    assume body: "(if \<not> bytes_read p < file_size p then read_finish p
      else
        (case call_ext (sftp_read E' (unat (file_size p - bytes_read p))) (use_handle p) of (r, p) \<Rightarrow>
           (case r of
              RdEagain \<Rightarrow> getSessionPollInfo E' p
            | RdErr _ \<Rightarrow> session_error E' False p
            | RdData d \<Rightarrow>
                if d = [] then read_finish p
                else
                  (let p = p\<lparr>poll_data := take (unat (bytes_read p)) (poll_data p) @ d,
                        bytes_read := bytes_read p + of_nat (length d), read_calls := read_calls p + 1\<rparr>
                   in if read_calls p mod SFTP_POLL_CANCEL_CHECK_INTERVAL = 0 then
                        (case qore_check_cancel E' p of (cancelled, p) \<Rightarrow>
                           if cancelled then end_stage E' True p else f E' p)
                      else f E' p)))) = Some y"
    have "\<And>q. running_ok E q \<Longrightarrow> poll_state q = READ \<Longrightarrow> cfg q = cfg p \<Longrightarrow> post (f E q) (stage_post E p)"
      by (rule rest)
    then have "post (Some y) (stage_post E p)"
      using read_round_post [OF p, of "f E"] unfolding body [unfolded E] by blast
    then show "stage_post E p (fst y) (snd y)" by (cases y) simp
  qed
  with assms show "stage_post E p r t" by simp
qed

end
