(* ===== verification/Sftp_Poll_Auth.thy ===== *)
theory Sftp_Poll_Auth
  imports Sftp_Poll_Inv
begin

text \<open>
  The authentication stage of the poll operation keeps the invariant, and with it the whole
  machine: the identity provider, the agent and the direct attempts, each with the rest of the
  loop as a parameter; then the dispatch of the stages and the loop over them.
\<close>


text \<open>The stage of the authentication.\<close>

definition auth_ok :: "('w, 'm) penv \<Rightarrow> ('w, 'm) pst \<Rightarrow> bool" where
  "auth_ok E p \<longleftrightarrow> running_ok E p \<and> poll_state p = AUTH"

lemma auth_ok_iff:
  "auth_ok E p \<longleftrightarrow> poll_state p = AUTH \<and> poll_base p \<and> xsink p = [] \<and> login_ok p \<and> queue_ok E p"
  by (auto simp: auth_ok_def running_ok_def stage_ok_def)

lemma auth_ok_io: "io_step False p t \<Longrightarrow> auth_ok E p \<Longrightarrow> auth_ok E t"
  using running_io core_eq_poll(4) [OF io_step_core] unfolding auth_ok_def by metis

lemma auth_fail:
  assumes "auth_ok E p" "io_step True p t" "xsink t \<noteq> []"
  shows "post (end_stage E True t) (stage_post E p)"
  using running_fail [OF _ assms(2,3)] assms(1) by (simp add: auth_ok_def)

lemma queue_pop: "PROVIDER \<in> kind ` set (tl q) \<Longrightarrow> PROVIDER \<in> kind ` set q"
  by (cases q) auto

lemma auth_pop:
  assumes "auth_ok E p" "poll_agent p = None"
  shows "auth_ok E (p\<lparr>auth_queue := tl (auth_queue p)\<rparr>)"
    "auth_ok E (p\<lparr>auth_queue := tl (auth_queue p), auth_attempt_checked := b\<rparr>)"
    "auth_ok E (p\<lparr>auth_queue := tl (auth_queue p), poll_candidates := c\<rparr>)"
proof -
  have "auth_ok E (p\<lparr>auth_queue := tl (auth_queue p)\<rparr>) \<and> auth_ok E (p\<lparr>auth_queue := tl (auth_queue p), auth_attempt_checked := b\<rparr>)
      \<and> auth_ok E (p\<lparr>auth_queue := tl (auth_queue p), poll_candidates := c\<rparr>)"
    using assms queue_pop [of "auth_queue p"] by (simp add: auth_ok_iff poll_base_def login_ok_def adopted_def queue_ok_def)
  then show "auth_ok E (p\<lparr>auth_queue := tl (auth_queue p)\<rparr>)"
    "auth_ok E (p\<lparr>auth_queue := tl (auth_queue p), auth_attempt_checked := b\<rparr>)"
    "auth_ok E (p\<lparr>auth_queue := tl (auth_queue p), poll_candidates := c\<rparr>)" by blast+
qed

text \<open>The front of the queue is the marker of the provider.\<close>

definition at_provider :: "('w, 'm) penv \<Rightarrow> ('w, 'm) pst \<Rightarrow> bool" where
  "at_provider E p \<longleftrightarrow> auth_ok E p \<and> poll_agent p = None \<and> client_identity_provider p \<noteq> None"

lemma at_provider_io: 
  assumes "io_step False p t" "at_provider E p"
  shows "at_provider E t"
  using auth_ok_io [OF assms(1)] assms(2) core_eq_sel(13) [OF io_step_core [OF assms(1)]]
    core_eq_poll(12) [OF io_step_core [OF assms(1)]]
  by (simp add: at_provider_def)

lemma at_provider_upd [simp]:
  "at_provider E (u\<lparr>poll_candidates := c\<rparr>) = at_provider E u" "at_provider E (u\<lparr>provider_index := i\<rparr>) = at_provider E u"
  by (simp_all add: at_provider_def auth_ok_iff poll_base_def login_ok_def adopted_def queue_ok_def)

lemma provider_fetch_post:
  assumes p: "at_provider E p" and cb: "callbacks_neutral E" and f: "provider_fetch E p = (r, t)"
  shows "r \<noteq> None \<Longrightarrow> at_provider E t \<and> cfg t = cfg p \<and> auth_queue t = auth_queue p \<and> poll_candidates t = r
      \<and> (poll_candidates p \<noteq> None \<longrightarrow> t = p)"
    "r = None \<Longrightarrow> post (end_stage E True t) (stage_post E p)"
proof -
  obtain v u where c: "getProviderCandidatesUnlocked E (poll_timeout p) p = (v, u)" by fastforce
  have a: "auth_ok E p" "xsink p = []" "client_identity_provider p \<noteq> None" using p by (simp_all add: at_provider_def auth_ok_iff)
  note o = getProviderCandidates_outcome [OF c a(2) cb a(3)]
  have q: "at_provider E u \<and> cfg u = cfg p \<and> auth_queue u = auth_queue p" if "v \<noteq> None"
    using at_provider_io [OF o(1) [OF that] p] cfg_io [OF o(1) [OF that]]
      core_eq_poll(7) [OF io_step_core [OF o(1) [OF that]]] by simp
  show "r \<noteq> None \<Longrightarrow> at_provider E t \<and> cfg t = cfg p \<and> auth_queue t = auth_queue p \<and> poll_candidates t = r
      \<and> (poll_candidates p \<noteq> None \<longrightarrow> t = p)"
    using f c p q by (auto simp: provider_fetch_def split: option.splits)
  show "r = None \<Longrightarrow> post (end_stage E True t) (stage_post E p)"
    using f c o(2) auth_fail [OF a(1)] by (auto simp: provider_fetch_def split: option.splits)
qed

lemma provider_next_post:
  assumes p: "at_provider E p" and cb: "callbacks_neutral E" and f: "provider_next E cs p = (rc, t)"
  shows "rc = 0 \<Longrightarrow> auth_ok E t \<and> cfg t = cfg p
      \<and> (auth_queue t = tl (auth_queue p) \<or> poll_candidates t = poll_candidates p \<and> provider_index p < length cs
         \<and> provider_index t = Suc (provider_index p)
         \<and> (\<exists>as. auth_queue t = as @ auth_queue p \<and> PROVIDER \<notin> kind ` set as))"
    "rc \<noteq> 0 \<Longrightarrow> post (end_stage E True t) (stage_post E p)"
proof -
  have a: "auth_ok E p" "poll_agent p = None" using p by (simp_all add: at_provider_def)
  obtain b q where c: "qore_check_cancel E p = (b, q)" by fastforce
  have run: "running_ok E p" using a by (simp add: auth_ok_def)
  note cn = cancel_post [OF run c]
  let ?q = "q\<lparr>provider_index := Suc (provider_index q)\<rparr>"
  obtain rc' as u where r: "resolveProviderCandidateUnlocked E (cs ! provider_index q) (poll_timeout q) ?q = ((rc', as), u)"
    by (metis prod.exhaust)
  have res: "rc' = 0 \<longrightarrow> auth_ok E (u\<lparr>auth_queue := as @ auth_queue u\<rparr>) \<and> cfg u = cfg p
      \<and> poll_candidates u = poll_candidates p \<and> provider_index u = Suc (provider_index p) \<and> auth_queue u = auth_queue p
      \<and> PROVIDER \<notin> kind ` set as"
    "rc' \<noteq> 0 \<longrightarrow> post (end_stage E True u) (stage_post E p)" if "\<not> b"
  proof -
    have io: "io_step False p q" by (rule cn(2) [OF that])
    have q: "at_provider E ?q" "cfg ?q = cfg p" using at_provider_io [OF io p] cfg_io [OF io] by simp_all
    then have x: "xsink ?q = []" "auth_ok E ?q" by (simp_all add: at_provider_def auth_ok_iff)
    have o: "candidate_outcome ?q (rc', as) u" by (rule resolveProviderCandidate_outcome [OF r x(1) cb])
    note qs = core_eq_poll [OF io_step_core [OF io]]
    show "rc' = 0 \<longrightarrow> auth_ok E (u\<lparr>auth_queue := as @ auth_queue u\<rparr>) \<and> cfg u = cfg p
      \<and> poll_candidates u = poll_candidates p \<and> provider_index u = Suc (provider_index p) \<and> auth_queue u = auth_queue p
      \<and> PROVIDER \<notin> kind ` set as"
    proof
      assume "rc' = 0"
      with o have s: "io_step False ?q u" "PROVIDER \<notin> kind ` set as" by (auto simp: candidate_outcome_def)
      note us = core_eq_poll [OF io_step_core [OF s(1)]]
      have "at_provider E u" by (rule at_provider_io [OF s(1) q(1)])
      then have "auth_ok E (u\<lparr>auth_queue := as @ auth_queue u\<rparr>)"
        by (simp add: at_provider_def auth_ok_iff poll_base_def login_ok_def adopted_def queue_ok_def)
      then show "auth_ok E (u\<lparr>auth_queue := as @ auth_queue u\<rparr>) \<and> cfg u = cfg p
        \<and> poll_candidates u = poll_candidates p \<and> provider_index u = Suc (provider_index p) \<and> auth_queue u = auth_queue p
        \<and> PROVIDER \<notin> kind ` set as"
        using s(2) cfg_io [OF s(1)] q(2) by (simp add: us qs)
    qed
    show "rc' \<noteq> 0 \<longrightarrow> post (end_stage E True u) (stage_post E p)"
    proof
      assume "rc' \<noteq> 0"
      with o have "io_step True ?q u" "xsink u \<noteq> []" by (auto simp: candidate_outcome_def)
      from auth_fail [OF x(2) this] show "post (end_stage E True u) (stage_post E p)"
        by (rule post_mono) (rule stage_post_cfg, assumption, rule q(2))
    qed
  qed
  have pi: "\<not> b \<Longrightarrow> provider_index q = provider_index p" using core_eq_poll(11) [OF io_step_core [OF cn(2)]] .
  show "rc = 0 \<Longrightarrow> auth_ok E t \<and> cfg t = cfg p
      \<and> (auth_queue t = tl (auth_queue p) \<or> poll_candidates t = poll_candidates p \<and> provider_index p < length cs
         \<and> provider_index t = Suc (provider_index p)
         \<and> (\<exists>as. auth_queue t = as @ auth_queue p \<and> PROVIDER \<notin> kind ` set as))"
    using f c r res(1) auth_pop(3) [OF a] unfolding provider_next_def by (auto split: if_splits)
  show "rc \<noteq> 0 \<Longrightarrow> post (end_stage E True t) (stage_post E p)"
    using f c r res(2) cn(1) unfolding provider_next_def by (auto split: if_splits)
qed

lemma expandProvider_post:
  assumes p: "at_provider E p" and cb: "callbacks_neutral E" and f: "expandProviderAttempt E p = (rc, t)"
  shows "rc = 0 \<Longrightarrow> auth_ok E t \<and> cfg t = cfg p" "rc \<noteq> 0 \<Longrightarrow> post (end_stage E True t) (stage_post E p)"
proof -
  have a: "auth_ok E p" "poll_agent p = None" using p by (simp_all add: at_provider_def)
  obtain r q where q: "provider_fetch E p = (r, q)" by fastforce
  note pf = provider_fetch_post [OF p cb q]
  have nx: "at_provider E q" "cfg q = cfg p" if "r \<noteq> None" using pf(1) [OF that] by simp_all
  show "rc = 0 \<Longrightarrow> auth_ok E t \<and> cfg t = cfg p"
    using f q auth_pop(1) [OF a] provider_next_post(1) [OF nx(1) cb] nx(2)
    unfolding expandProviderAttempt_def by (auto split: if_splits option.splits)
  have "post (end_stage E True t) (stage_post E p)" if "r = Some cs" "provider_next E cs q = (rc, t)" "rc \<noteq> 0" for cs
    by (rule post_mono [OF provider_next_post(2) [OF nx(1) cb that(2,3)]])
      (use that nx(2) in \<open>auto intro: stage_post_cfg\<close>)
  then show "rc \<noteq> 0 \<Longrightarrow> post (end_stage E True t) (stage_post E p)"
    using f q pf(2) unfolding expandProviderAttempt_def by (auto split: if_splits option.splits)
qed

text \<open>
  The outcome of a step of the agent: the handle is kept while the step waits and after a
  success, and released when the agent has no more identities or the thread was cancelled.
\<close>

definition agent_outcome :: "('w, 'm) penv \<Rightarrow> ('w, 'm) pst \<Rightarrow> lrc \<Rightarrow> ('w, 'm) pst \<Rightarrow> bool" where
  "agent_outcome E p rc t \<longleftrightarrow> cfg t = cfg p \<and> auth_queue t = auth_queue p
     \<and> (if rc = Ret SFTP_AGENT_ERROR then xsink t \<noteq> [] \<and> auth_ok E (t\<lparr>xsink := []\<rparr>)
        else auth_ok E t \<and> (rc \<noteq> Eagain \<and> rc \<noteq> Ret 0 \<longrightarrow> poll_agent t = None))"

lemma auth_ok_agent:
  assumes "auth_ok E p"
  shows "auth_ok E (agent_reset E p) \<and> cfg (agent_reset E p) = cfg p
    \<and> auth_queue (agent_reset E p) = auth_queue p \<and> poll_agent (agent_reset E p) = None \<and> xsink (agent_reset E p) = xsink p"
proof -
  have "agent_live p \<longleftrightarrow> poll_agent p \<noteq> None" using assms by (simp add: auth_ok_iff poll_base_def)
  then obtain w where "agent_reset E p = p\<lparr>agent_live := False, poll_agent := None, world := w\<rparr>" by (rule agent_reset_eq)
  with assms show ?thesis by (simp add: auth_ok_iff poll_base_def login_ok_def adopted_def queue_ok_def)
qed

lemma auth_ok_upd:
  assumes "auth_ok E p"
  shows "poll_agent p \<noteq> None \<Longrightarrow> auth_ok E (p\<lparr>poll_agent := Some h\<rparr>)"
    "auth_ok E (p\<lparr>agent_need_identity := b\<rparr>)" "auth_ok E (p\<lparr>auth_attempt_checked := b\<rparr>)"
    "poll_agent p \<noteq> None \<Longrightarrow> auth_ok E (p\<lparr>poll_agent := Some h, agent_need_identity := b\<rparr>)"
  using assms by (auto simp: auth_ok_iff poll_base_def login_ok_def adopted_def queue_ok_def)

lemma agent_select_post:
  assumes p: "auth_ok E p" "poll_agent p = Some h" and f: "agent_select_identity E h p = (r, t)"
  shows "case r of Some rc \<Rightarrow> (rc = SFTP_AGENT_ERROR \<or> rc = SFTP_AGENT_NO_MORE) \<and> agent_outcome E p (Ret rc) t
     | None \<Rightarrow> auth_ok E t \<and> poll_agent t \<noteq> None \<and> cfg t = cfg p \<and> auth_queue t = auth_queue p"
proof (cases "agent_need_identity p")
  case False
  with f p show ?thesis by (auto simp: agent_select_identity_def)
next
  case True
  obtain b q where c: "qore_check_cancel E p = (b, q)" by fastforce
  have run: "running_ok E p" using p by (simp add: auth_ok_def)
  show ?thesis
  proof (cases b)
    case True
    have io: "io_step True p q" "xsink q \<noteq> []" using check_cancel_io(2) [OF c True] by simp_all
    note qs = core_eq_poll [OF io_step_core [OF io(1)]]
    have "auth_ok E (q\<lparr>xsink := []\<rparr>)"
      by (rule auth_ok_io [OF _ p(1)]) (use p(1) io(1) in \<open>auto simp: io_step_def auth_ok_iff\<close>)
    moreover from this have "agent_live q \<longleftrightarrow> poll_agent q \<noteq> None" by (simp add: auth_ok_iff poll_base_def)
    then obtain w where "agent_reset E q = q\<lparr>agent_live := False, poll_agent := None, world := w\<rparr>" by (rule agent_reset_eq)
    ultimately have "auth_ok E ((agent_reset E q)\<lparr>xsink := []\<rparr>) \<and> cfg (agent_reset E q) = cfg q
      \<and> auth_queue (agent_reset E q) = auth_queue q \<and> xsink (agent_reset E q) = xsink q"
      by (simp add: auth_ok_iff poll_base_def login_ok_def adopted_def queue_ok_def)
    with f True c \<open>agent_need_identity p\<close> io cfg_io [OF io(1)] show ?thesis
      by (auto simp: agent_select_identity_def agent_outcome_def qs)
  next
    case False
    have io: "io_step False p q" by (rule check_cancel_io(1) [OF c False])
    obtain rc h1 u where n: "Ssh2AgentHelper_nextIdentity E h q = ((rc, h1), u)" by (metis prod.exhaust)
    have io2: "io_step False p u" by (rule io_step_trans [OF io nextIdentity_io [OF n]])
    note us = core_eq_poll [OF io_step_core [OF io2]]
    have u: "auth_ok E (u\<lparr>poll_agent := Some h1\<rparr>)" "auth_ok E (u\<lparr>poll_agent := Some h1, agent_need_identity := b\<rparr>)" for b
      using auth_ok_upd(1,4) [OF auth_ok_io [OF io2 p(1)]] p(2) by (simp_all add: us)
    show ?thesis
      using f c False \<open>agent_need_identity p\<close> n u auth_ok_agent [OF u(1)] cfg_io [OF io2]
      by (cases "rc = 0") (auto simp: agent_select_identity_def agent_outcome_def us SFTP_AGENT_ERROR_def SFTP_AGENT_NO_MORE_def)
  qed
qed

lemma agent_outcome_trans:
  "agent_outcome E q rc t \<Longrightarrow> cfg q = cfg p \<Longrightarrow> auth_queue q = auth_queue p \<Longrightarrow> agent_outcome E p rc t"
  by (simp add: agent_outcome_def)

lemma agent_round_post:
  assumes p: "auth_ok E p"
    and rest: "\<And>q. auth_ok E q \<Longrightarrow> cfg q = cfg p \<Longrightarrow> auth_queue q = auth_queue p \<Longrightarrow> post (f q) (agent_outcome E p)"
  shows "post (case poll_agent p of
        None \<Rightarrow> Some (Ret SFTP_AGENT_NO_MORE, p)
      | Some h \<Rightarrow>
          (case agent_select_identity E h p of (r, p) \<Rightarrow>
             (case r of
                Some rc \<Rightarrow> Some (Ret rc, p)
              | None \<Rightarrow>
                  (case Ssh2AgentHelper_userauth E (the (poll_agent p)) (sshuser p) p of (rc, p) \<Rightarrow>
                     if rc = Eagain then Some (Eagain, p)
                     else if rc = Ret 0 then Some (Ret 0, p)
                     else f (p\<lparr>agent_need_identity := True\<rparr>))))) (agent_outcome E p)"
proof (cases "poll_agent p")
  case None
  with p show ?thesis by (simp add: agent_outcome_def SFTP_AGENT_NO_MORE_def SFTP_AGENT_ERROR_def)
next
  case (Some h)
  obtain r q where q: "agent_select_identity E h p = (r, q)" by fastforce
  note s = agent_select_post [OF p Some q]
  show ?thesis
  proof (cases r)
    case (Some rc)
    with s q \<open>poll_agent p = Some h\<close> show ?thesis by simp
  next
    case None
    obtain rc u where u: "Ssh2AgentHelper_userauth E (the (poll_agent q)) (sshuser q) q = (rc, u)" by fastforce
    have io: "io_step False q u" by (rule userauth_io [OF u])
    have k: "auth_ok E u" "cfg u = cfg p" "auth_queue u = auth_queue p"
      using s None auth_ok_io [OF io] cfg_io [OF io] core_eq_poll(7) [OF io_step_core [OF io]] by simp_all
    then show ?thesis
      using rest [OF auth_ok_upd(2) [OF k(1)]] Some None q u
      by (simp add: agent_outcome_def SFTP_AGENT_ERROR_def)
  qed
qed

lemma agent_step_loop_post:
  assumes "auth_ok E p"
  shows "post (agent_step_loop E p) (agent_outcome E p)"
proof (rule post_I)
  fix r t
  assume ret: "agent_step_loop E p = Some (r, t)"
  let ?P = "\<lambda>E' p y. E' = E \<longrightarrow> auth_ok E p \<longrightarrow> agent_outcome E p (fst y) (snd y)"
  have "?P E p (r, t)"
  proof (rule agent_step_loop.raw_induct [where P = ?P, OF _ ret], intro impI)
    fix f E' p y
    assume IH: "\<And>E' p y. f E' p = Some y \<Longrightarrow> ?P E' p y" and E: "E' = E" and p: "auth_ok E p"
      and body: "(case poll_agent p of
        None \<Rightarrow> Some (Ret SFTP_AGENT_NO_MORE, p)
      | Some h \<Rightarrow>
          (case agent_select_identity E' h p of (r, p) \<Rightarrow>
             (case r of
                Some rc \<Rightarrow> Some (Ret rc, p)
              | None \<Rightarrow>
                  (case Ssh2AgentHelper_userauth E' (the (poll_agent p)) (sshuser p) p of (rc, p) \<Rightarrow>
                     if rc = Eagain then Some (Eagain, p)
                     else if rc = Ret 0 then Some (Ret 0, p)
                     else f E' (p\<lparr>agent_need_identity := True\<rparr>))))) = Some y"
    have "post (f E q) (agent_outcome E p)" if "auth_ok E q" "cfg q = cfg p" "auth_queue q = auth_queue p" for q
      using IH [of E q] that by (auto intro!: post_I intro: agent_outcome_trans)
    then have "post (Some y) (agent_outcome E p)"
      using agent_round_post [OF p, of "f E"] unfolding body [unfolded E] by blast
    then show "agent_outcome E p (fst y) (snd y)" by (cases y) simp
  qed
  with assms show "agent_outcome E p r t" by simp
qed

lemma stepAgentAuth_post:
  assumes "auth_ok E p" "auth_queue p = a # q" "kind a = AGENT"
  shows "post (stepAgentAuth E p) (agent_outcome E p)"
proof (cases "have_agent_api E \<and> poll_agent p = None")
  case True
  obtain rc h u where i: "Ssh2AgentHelper_init E Ssh2AgentHelper_new p = ((rc, h), u)" by (metis prod.exhaust)
  have nl: "\<not> agent_live p" using assms(1) True by (simp add: auth_ok_iff poll_base_def)
  note io = agent_init_io [OF i nl]
  show ?thesis
  proof (cases "rc = 0")
    case False
    have s: "io_step False p u" by (rule io(2) [OF False])
    have "agent_outcome E p (Ret SFTP_AGENT_NO_MORE) u"
      using auth_ok_io [OF s assms(1)] cfg_io [OF s] True core_eq_poll [OF io_step_core [OF s]]
      by (simp add: agent_outcome_def SFTP_AGENT_NO_MORE_def SFTP_AGENT_ERROR_def)
    with True i False show ?thesis by (simp add: stepAgentAuth_def)
  next
    case rc: True
    have s: "io_step False (p\<lparr>agent_live := True\<rparr>) u" by (rule io(1) [OF rc])
    then obtain w where u: "u = p\<lparr>agent_live := True, world := w\<rparr>" by (rule io_stepE) simp
    have "auth_ok E (u\<lparr>poll_agent := Some h, agent_need_identity := True\<rparr>)"
      using assms True unfolding u by (simp add: auth_ok_iff poll_base_def login_ok_def adopted_def queue_ok_def)
    from agent_step_loop_post [OF this] True i rc show ?thesis
      by (auto simp: stepAgentAuth_def u elim!: post_mono intro: agent_outcome_trans)
  qed
next
  case False
  then have "\<not> have_agent_api E \<Longrightarrow> poll_agent p = None" using assms(1) by (auto simp: auth_ok_iff queue_ok_def)
  with False show ?thesis
    using assms agent_step_loop_post [OF assms(1)]
    by (auto simp: stepAgentAuth_def agent_outcome_def SFTP_AGENT_NO_MORE_def SFTP_AGENT_ERROR_def)
qed

lemma auth_give_up:
  assumes "auth_ok E p"
  shows "post (auth_finish E p) (stage_post E p)"
proof -
  have "\<not> poll_loggedin p" using assms by (simp add: auth_ok_iff login_ok_def)
  moreover have "post (end_stage E True (raise True c p)) (stage_post E p)" for c
    by (rule auth_fail [OF assms]) simp_all
  ultimately show ?thesis by (simp add: auth_finish_def)
qed

text \<open>A success: the agent, if there is one, is released, and the next stage begins.\<close>

lemma agent_reset_again: "poll_agent p = None \<Longrightarrow> agent_reset E p = p"
  by (simp add: agent_reset_def)

lemma finishConnect_eq: obtains w where "finishConnectUnlocked E s = s\<lparr>world := w\<rparr>"
  by (cases "have_keepalive E \<and> keepalive_interval s > 0")
    (auto simp: finishConnectUnlocked_def run_ext_def intro: that [of "world s"])

lemma auth_success:
  assumes "auth_ok E p" "q = (setAuthenticatedWithUnlocked a p)\<lparr>poll_loggedin := True\<rparr>"
  shows "post (auth_finish E q) (stage_post E p)" "post (auth_finish E (agent_reset E q)) (stage_post E p)"
proof -
  have al: "agent_live q \<longleftrightarrow> poll_agent q \<noteq> None"
    using assms by (simp add: auth_ok_iff poll_base_def setAuthenticatedWithUnlocked_def)
  have main: "post (auth_finish E u) (stage_post E p)"
    if u: "u = q\<lparr>agent_live := b, poll_agent := h, world := w\<rparr>" "b \<longleftrightarrow> h \<noteq> None" for u b h w
  proof -
    have "agent_live (u\<lparr>auth_queue := []\<rparr>) \<longleftrightarrow> poll_agent (u\<lparr>auth_queue := []\<rparr>) \<noteq> None" using u by simp
    then obtain w1 where r: "agent_reset E (u\<lparr>auth_queue := []\<rparr>)
        = u\<lparr>auth_queue := [], agent_live := False, poll_agent := None, world := w1\<rparr>" by (rule agent_reset_eq)
    define v where "v = u\<lparr>auth_queue := [], agent_live := False, poll_agent := None, world := w1, poll_candidates := None\<rparr>"
    obtain w2 where f: "finishConnectUnlocked E v = v\<lparr>world := w2\<rparr>" by (rule finishConnect_eq)
    have "conn_inv (p\<lparr>sshauthenticatedwith := m\<rparr>)" for m
      using assms(1) by (simp add: auth_ok_iff login_ok_def conn_inv_def)
    then have "running_ok E (v\<lparr>world := w2, poll_state := SFTP_INIT\<rparr>)"
      using assms(1) unfolding v_def u(1) assms(2) setAuthenticatedWithUnlocked_def
      by (simp add: auth_ok_iff running_ok_def poll_base_def stage_ok_def session_ok_def login_ok_def adopted_def)
    moreover have "cfg v = cfg p" by (simp add: v_def u(1) assms(2) setAuthenticatedWithUnlocked_def)
    moreover have "poll_loggedin u" by (simp add: u assms(2))
    ultimately show ?thesis
      by (simp add: auth_finish_def r Let_def v_def [symmetric] f running_post)
  qed
  show "post (auth_finish E q) (stage_post E p)"
    by (rule main [where b = "agent_live q" and h = "poll_agent q" and w = "world q"]) (use al in simp_all)
  obtain w where "agent_reset E q = q\<lparr>agent_live := False, poll_agent := None, world := w\<rparr>"
    by (rule agent_reset_eq [OF al])
  then show "post (auth_finish E (agent_reset E q)) (stage_post E p)"
    by (rule main [where h = None]) simp
qed

lemma attempt_access_disc:
  "post (checkAuthAttemptAccessUnlocked E a s)
    (\<lambda>rc t. if rc = 0 then io_step False s t else io_step True (disc_state s) t \<and> xsink t \<noteq> [])"
proof -
  have d: "post (force_disconnect E u) (\<lambda>_ t. io_step True (disc_state s) t \<and> xsink t \<noteq> [])"
    if "ssh2_check_fs_access E f md True s = (rc, u)" "rc \<noteq> 0" for u f md rc
  proof (rule post_mono [OF force_disconnect_io])
    fix r :: int and t
    assume t: "io_step False (disc_state u) t"
    have "io_step True (disc_state s) (disc_state u)" by (rule io_step_disc [OF fs_access_io [OF that(1)]])
    with t fs_access_denied [OF that] io_step_xsink(2) [OF t] show "io_step True (disc_state s) t \<and> xsink t \<noteq> []"
      by (auto intro: io_step_trans io_step_weaken)
  qed
  obtain rc u where 1: "ssh2_check_fs_access E (priv_key a) [QSEC_READ] True s = (rc, u)" by fastforce
  obtain rc2 v where 2: "ssh2_check_fs_access E (pub_key a) [QSEC_READ] True s = (rc2, v)" by fastforce
  have "rc = 0 \<Longrightarrow> u = s" "rc2 = 0 \<Longrightarrow> v = s" using fs_access_ok 1 2 by fastforce+
  then show ?thesis
    unfolding checkAuthAttemptAccessUnlocked_def using 1 2 d [OF 1] d [OF 2] by auto
qed

lemma check_attempt_post:
  assumes "auth_ok E p" "poll_agent p = None"
  shows "post (check_attempt E a p) (\<lambda>rc t. if rc = 0 then auth_ok E t \<and> cfg t = cfg p \<and> auth_queue t = auth_queue p \<and> poll_agent t = None
    else post (end_stage E False t) (stage_post E p))"
proof -
  have x: "xsink p = []" "\<not> agent_live p" using assms by (simp_all add: auth_ok_iff poll_base_def)
  have cl: "closable False p" using running_closable(2) [of p E] assms(1) by (simp add: auth_ok_def running_ok_def)
  have "post (checkAuthAttemptAccessUnlocked E a p) (\<lambda>rc t. if rc = 0
      then auth_ok E (t\<lparr>auth_attempt_checked := True\<rparr>) \<and> cfg t = cfg p \<and> auth_queue t = auth_queue p \<and> poll_agent t = None
      else post (end_stage E False t) (stage_post E p))"
  proof (rule post_mono [OF attempt_access_disc])
    fix rc :: int and t
    assume o: "if rc = 0 then io_step False p t else io_step True (disc_state p) t \<and> xsink t \<noteq> []"
    show "if rc = 0 then auth_ok E (t\<lparr>auth_attempt_checked := True\<rparr>) \<and> cfg t = cfg p \<and> auth_queue t = auth_queue p \<and> poll_agent t = None
      else post (end_stage E False t) (stage_post E p)"
    proof (cases "rc = 0")
      case True
      with o have io: "io_step False p t" by simp
      then show ?thesis
        using True auth_ok_upd(3) [OF auth_ok_io [OF io assms(1)]] cfg_io [OF io] core_eq_poll [OF io_step_core [OF io]] assms(2)
        by simp
    next
      case False
      with o have d: "core t = core (disc_state p)" "xsink t \<noteq> []" by (auto dest: io_step_core)
      have "poll_state t \<noteq> DONE" using core_eq_poll(4) [OF d(1)] assms(1) by (simp add: auth_ok_iff)
      then have "post (end_stage E False t) (stage_post E p)"
        using closable_core [OF d(1)] closable_disc [OF cl assms(2)] d(2) cfg_core [OF d(1)] by (intro end_stage_post) simp_all
      with False show ?thesis by simp
    qed
  qed
  then show ?thesis using assms by (auto simp: check_attempt_def elim!: post_mono)
qed

lemma auth_waits:
  assumes "auth_ok E t" "cfg t = cfg p"
  shows "post (getSessionPollInfo E t) (stage_post E p)"
  by (rule post_mono [OF getSessionPollInfo_post [of E t t]]) (use assms in \<open>auto simp: auth_ok_def intro: stage_post_cfg\<close>)

lemma auth_wins:
  assumes "auth_ok E t" "cfg t = cfg p"
  shows "post (auth_finish E (agent_reset E ((setAuthenticatedWithUnlocked a t)\<lparr>poll_loggedin := True\<rparr>))) (stage_post E p)"
    "post (auth_finish E ((setAuthenticatedWithUnlocked a t)\<lparr>poll_loggedin := True\<rparr>)) (stage_post E p)"
  by (rule post_mono [OF auth_success(2) [OF assms(1) refl]] post_mono [OF auth_success(1) [OF assms(1) refl]],
      rule stage_post_cfg, assumption, rule assms(2))+

text \<open>
  One attempt of each kind, with the rest of the loop as a parameter: it is reached only with
  the invariant.
\<close>

lemma agent_attempt_post:
  assumes p: "auth_ok E p" "auth_queue p = a # q" "kind a = AGENT"
    and rest: "\<And>q. auth_ok E q \<Longrightarrow> cfg q = cfg p \<Longrightarrow> post (f q) (stage_post E p)"
  shows "post (do { (rc, p) \<leftarrow> stepAgentAuth E p;
                 if rc = Eagain then getSessionPollInfo E p
                 else if rc = Ret SFTP_AGENT_ERROR then end_stage E True p
                 else if rc = Ret 0 then
                   auth_finish E (agent_reset E ((setAuthenticatedWithUnlocked a p)\<lparr>poll_loggedin := True\<rparr>))
                 else f (p\<lparr>auth_queue := tl (auth_queue p)\<rparr>) }) (stage_post E p)"
proof (rule post_bindI [OF stepAgentAuth_post [OF p]], simp only: prod.case)
  fix rc t
  assume o: "agent_outcome E p rc t"
  have err: "post (end_stage E True t) (stage_post E p)" if "rc = Ret SFTP_AGENT_ERROR"
  proof -
    from o that have t: "auth_ok E (t\<lparr>xsink := []\<rparr>)" "xsink t \<noteq> []" "cfg t = cfg p" by (simp_all add: agent_outcome_def)
    have "io_step True (t\<lparr>xsink := []\<rparr>) t" by (simp add: io_step_def)
    from auth_fail [OF t(1) this t(2)] show ?thesis
      by (rule post_mono) (rule stage_post_cfg, assumption, simp add: t(3))
  qed
  have n: "SFTP_AGENT_ERROR \<noteq> 0" by (simp add: SFTP_AGENT_ERROR_def)
  show "post (if rc = Eagain then getSessionPollInfo E t
                 else if rc = Ret SFTP_AGENT_ERROR then end_stage E True t
                 else if rc = Ret 0 then
                   auth_finish E (agent_reset E ((setAuthenticatedWithUnlocked a t)\<lparr>poll_loggedin := True\<rparr>))
                 else f (t\<lparr>auth_queue := tl (auth_queue t)\<rparr>)) (stage_post E p)"
    using o err n auth_waits [of E t p] auth_wins(1) [of E t p a] rest [OF auth_pop(1) [of E t]]
    by (auto simp: agent_outcome_def)
qed

lemma plain_attempt_post:
  assumes p: "auth_ok E p" "poll_agent p = None"
    and rest: "\<And>q. auth_ok E q \<Longrightarrow> cfg q = cfg p \<Longrightarrow> post (f q) (stage_post E p)"
  shows "post (do { (rc, p) \<leftarrow> check_attempt E a p;
                 if rc \<noteq> 0 then end_stage E False p
                 else case authCallUnlocked E a p of (rc, p) \<Rightarrow>
                   if rc = Eagain then getSessionPollInfo E p
                   else if rc = Ret 0 then
                     auth_finish E ((setAuthenticatedWithUnlocked a p)\<lparr>poll_loggedin := True\<rparr>)
                   else f (p\<lparr>auth_queue := tl (auth_queue p), auth_attempt_checked := False\<rparr>) }) (stage_post E p)"
proof (rule post_bindI [OF check_attempt_post [OF p]], simp only: prod.case)
  fix rc :: int and t
  assume o: "if rc = 0 then auth_ok E t \<and> cfg t = cfg p \<and> auth_queue t = auth_queue p \<and> poll_agent t = None
    else post (end_stage E False t) (stage_post E p)"
  obtain rc2 u where u: "authCallUnlocked E a t = (rc2, u)" by fastforce
  have io: "io_step False t u" by (rule authCall_io [OF u])
  have k: "auth_ok E u" "cfg u = cfg p" "poll_agent u = None" if "rc = 0"
    using o that auth_ok_io [OF io] cfg_io [OF io] core_eq_poll(12) [OF io_step_core [OF io]] by simp_all
  show "post (if rc \<noteq> 0 then end_stage E False t
                 else case authCallUnlocked E a t of (rc, p) \<Rightarrow>
                   if rc = Eagain then getSessionPollInfo E p
                   else if rc = Ret 0 then auth_finish E ((setAuthenticatedWithUnlocked a p)\<lparr>poll_loggedin := True\<rparr>)
                   else f (p\<lparr>auth_queue := tl (auth_queue p), auth_attempt_checked := False\<rparr>)) (stage_post E p)"
    using o u k auth_waits [of E u p] auth_wins(2) [of E u p a] rest [OF auth_pop(2) [OF k(1) k(3)]] by auto
qed

lemma auth_round_post:
  assumes p: "auth_ok E p" and cb: "callbacks_neutral E"
    and rest: "\<And>q. auth_ok E q \<Longrightarrow> cfg q = cfg p \<Longrightarrow> post (f q) (stage_post E p)"
  shows "post (if poll_loggedin p then auth_finish E p
      else case auth_queue p of
        [] \<Rightarrow> auth_finish E p
      | attempt # _ \<Rightarrow>
          if kind attempt = PROVIDER then
            (case expandProviderAttempt E p of (rc, p) \<Rightarrow>
               if rc \<noteq> 0 then end_stage E True p else f p)
          else if kind attempt = AGENT then
            do { (rc, p) \<leftarrow> stepAgentAuth E p;
                 if rc = Eagain then getSessionPollInfo E p
                 else if rc = Ret SFTP_AGENT_ERROR then end_stage E True p
                 else if rc = Ret 0 then
                   auth_finish E (agent_reset E ((setAuthenticatedWithUnlocked attempt p)\<lparr>poll_loggedin := True\<rparr>))
                 else f (p\<lparr>auth_queue := tl (auth_queue p)\<rparr>) }
          else
            do { (rc, p) \<leftarrow> check_attempt E attempt p;
                 if rc \<noteq> 0 then end_stage E False p
                 else case authCallUnlocked E attempt p of (rc, p) \<Rightarrow>
                   if rc = Eagain then getSessionPollInfo E p
                   else if rc = Ret 0 then
                     auth_finish E ((setAuthenticatedWithUnlocked attempt p)\<lparr>poll_loggedin := True\<rparr>)
                   else f (p\<lparr>auth_queue := tl (auth_queue p), auth_attempt_checked := False\<rparr>) }) (stage_post E p)"
proof -
  have nl: "\<not> poll_loggedin p" using p by (simp add: auth_ok_iff login_ok_def)
  show ?thesis
  proof (cases "auth_queue p")
    case Nil
    with nl auth_give_up [OF p] show ?thesis by simp
  next
    case (Cons a q)
    consider (prov) "kind a = PROVIDER" | (ag) "kind a = AGENT" | (other) "kind a \<noteq> PROVIDER" "kind a \<noteq> AGENT" by blast
    then show ?thesis
    proof cases
      case prov
      then have "at_provider E p" using p Cons by (auto simp: at_provider_def auth_ok_iff queue_ok_def)
      note e = expandProvider_post [OF this cb]
      with Cons nl prov rest show ?thesis by (auto split: prod.split)
    next
      case ag
      with agent_attempt_post [OF p Cons ag rest] Cons nl show ?thesis
        by (simp only: list.case if_False if_True attempt_kind.distinct simp_thms)
    next
      case other
      then have "poll_agent p = None" using p Cons by (auto simp: auth_ok_iff queue_ok_def)
      from plain_attempt_post [OF p this rest] Cons nl other show ?thesis
        by (simp only: list.case if_False if_True simp_thms)
    qed
  qed
qed

lemma handleAuth_post:
  assumes "auth_ok E p" "callbacks_neutral E"
  shows "post (handleAuth E p) (stage_post E p)"
proof (rule post_I)
  fix r t
  assume ret: "handleAuth E p = Some (r, t)"
  let ?P = "\<lambda>E' p y. E' = E \<longrightarrow> auth_ok E p \<longrightarrow> stage_post E p (fst y) (snd y)"
  have "?P E p (r, t)"
  proof (rule handleAuth.raw_induct [where P = ?P, OF _ ret], intro impI)
    fix f E' p y
    assume IH: "\<And>E' p y. f E' p = Some y \<Longrightarrow> ?P E' p y" and E: "E' = E" and p: "auth_ok E p"
      and body: "(if poll_loggedin p then auth_finish E' p
      else case auth_queue p of
        [] \<Rightarrow> auth_finish E' p
      | attempt # _ \<Rightarrow>
          if kind attempt = PROVIDER then
            (case expandProviderAttempt E' p of (rc, p) \<Rightarrow>
               if rc \<noteq> 0 then end_stage E' True p else f E' p)
          else if kind attempt = AGENT then
            do { (rc, p) \<leftarrow> stepAgentAuth E' p;
                 if rc = Eagain then getSessionPollInfo E' p
                 else if rc = Ret SFTP_AGENT_ERROR then end_stage E' True p
                 else if rc = Ret 0 then
                   auth_finish E' (agent_reset E' ((setAuthenticatedWithUnlocked attempt p)\<lparr>poll_loggedin := True\<rparr>))
                 else f E' (p\<lparr>auth_queue := tl (auth_queue p)\<rparr>) }
          else
            do { (rc, p) \<leftarrow> check_attempt E' attempt p;
                 if rc \<noteq> 0 then end_stage E' False p
                 else case authCallUnlocked E' attempt p of (rc, p) \<Rightarrow>
                   if rc = Eagain then getSessionPollInfo E' p
                   else if rc = Ret 0 then
                     auth_finish E' ((setAuthenticatedWithUnlocked attempt p)\<lparr>poll_loggedin := True\<rparr>)
                   else f E' (p\<lparr>auth_queue := tl (auth_queue p), auth_attempt_checked := False\<rparr>) }) = Some y"
    have "post (f E q) (stage_post E p)" if "auth_ok E q" "cfg q = cfg p" for q
      using IH [of E q] that by (auto intro!: post_I intro: stage_post_cfg)
    then have "post (Some y) (stage_post E p)"
      using auth_round_post [OF p assms(2), of "f E"] unfolding body [unfolded E] by blast
    then show "stage_post E p (fst y) (snd y)" by (cases y) simp
  qed
  with assms show "stage_post E p r t" by simp
qed

section \<open>The machine keeps the invariant\<close>

lemma handle_stage_post:
  assumes "running_ok E p" "callbacks_neutral E"
  shows "post (handle_stage E p) (stage_post E p)"
  using handleStart_post [OF assms(1)] handleConnecting_post [OF assms(1)] handleHandshake_post [OF assms(1) _ assms(2)]
    handleAuthList_post [OF assms(1)] handleAuth_post [OF _ assms(2), of p] handleSftpInit_post [OF assms(1)]
    handleRealPath_post [OF assms(1)] handleStat_post [OF assms(1)] handleOpen_post [OF assms(1)]
    handleRead_post [OF assms(1)] handleClose_post [OF assms(1)] running_not_ended [OF assms(1)] assms(1)
  by (simp add: handle_stage_def auth_ok_def ended_def split: SftpPollState.split)

text \<open>
  What one call of \<open>continuePoll()\<close> promises: something to wait for means that the operation
  runs, nothing means that it has ended.
\<close>

definition poll_result :: "('w, 'm) penv \<Rightarrow> ('w, 'm) pst \<Rightarrow> poll_info option \<Rightarrow> ('w, 'm) pst \<Rightarrow> bool" where
  "poll_result E p r t \<longleftrightarrow> stage_post E p r t \<and> (r = None \<longleftrightarrow> ended t)"

lemma continuePollIntern_post:
  assumes "running_ok E p" "callbacks_neutral E"
  shows "post (continuePollIntern E p) (poll_result E p)"
proof (rule post_I)
  fix r t
  assume ret: "continuePollIntern E p = Some (r, t)"
  let ?P = "\<lambda>E' p y. E' = E \<longrightarrow> (if ended p then y = (None, p)
    else running_ok E p \<longrightarrow> poll_result E p (fst y) (snd y))"
  have "?P E p (r, t)"
  proof (rule continuePollIntern.raw_induct [where P = ?P, OF _ ret], intro impI)
    fix f E' p y
    assume IH: "\<And>E' p y. f E' p = Some y \<Longrightarrow> ?P E' p y" and E: "E' = E"
      and body: "(if ended p then Some (None, p) else do { (rv, p) \<leftarrow> handle_stage E' p;
                if rv \<noteq> None then Some (rv, p) else f E' p }) = Some y"
    have "poll_result E p (fst y) (snd y)" if p: "\<not> ended p" "running_ok E p"
    proof -
      from body E p obtain rv q where h: "handle_stage E p = Some (rv, q)"
        and n: "(if rv \<noteq> None then Some (rv, q) else f E q) = Some y" by (auto elim!: bind_SomeE)
      have s: "stage_post E p rv q" by (rule post_D [OF handle_stage_post [OF p(2) assms(2)] h])
      show ?thesis
      proof (cases "rv = None \<and> \<not> ended q")
        case False
        with n s IH [of E q y] show ?thesis by (auto simp: poll_result_def stage_post_def)
      next
        case True
        then have "running_ok E q" "cfg q = cfg p" using s by (simp_all add: stage_post_def)
        with IH [of E q y] n True show ?thesis by (auto simp: poll_result_def intro: stage_post_cfg)
      qed
    qed
    then show "if ended p then y = (None, p) else running_ok E p \<longrightarrow> poll_result E p (fst y) (snd y)"
      using body by auto
  qed
  with assms running_not_ended [OF assms(1)] show "poll_result E p r t" by simp
qed

end
