(* ===== verification/Sftp_Poll_Run.thy ===== *)
theory Sftp_Poll_Run
  imports Sftp_Poll_Auth
begin

text \<open>
  The life of a poll operation: from its start on an idle client, through any sequence of calls
  of \<open>continuePoll()\<close> and \<open>abort()\<close> with anything happening outside in between, the invariant
  of the machine holds.
\<close>

section \<open>Driving the operation\<close>

lemma continuePoll_post:
  assumes "running_ok E p" "callbacks_neutral E"
  shows "post (continuePoll E p) (poll_result E p)"
proof -
  obtain b t where c: "qore_check_cancel E p = (b, t)" by fastforce
  show ?thesis
  proof (cases b)
    case True
    have "post (end_stage E True t) (stage_post E p)" using cancel_post [OF assms(1)] c True by simp
    moreover have "post (end_stage E True t) (\<lambda>r t. r = None \<and> ended t)"
      by (auto simp: end_stage_def closeIntern_def ended_def intro!: post_I)
    ultimately show ?thesis
      using running_not_ended [OF assms(1)] c True by (auto simp: continuePoll_def poll_result_def post_def)
  next
    case False
    have io: "io_step False p t" using check_cancel_io(1) [OF c] False by simp
    have "post (continuePollIntern E t) (poll_result E t)"
      by (rule continuePollIntern_post [OF running_io [OF io assms(1)] assms(2)])
    then have "post (continuePollIntern E t) (poll_result E p)"
      by (rule post_mono) (auto simp: poll_result_def intro: stage_post_cfg cfg_io [OF io])
    then show ?thesis using running_not_ended [OF assms(1)] c False by (simp add: continuePoll_def)
  qed
qed

text \<open>
  The calls a program makes on the operation, in any order: \<open>continuePoll()\<close>, \<open>abort()\<close>, and
  anything that happens outside the module between them. \<open>rem\<close> is a part of the world that
  only the operation changes.
\<close>

inductive poll_run :: "('w \<Rightarrow> 'r) \<Rightarrow> ('w, 'm) penv \<Rightarrow> ('w, 'm) pst \<Rightarrow> ('w, 'm) pst \<Rightarrow> bool"
  for rem :: "'w \<Rightarrow> 'r" and E :: "('w, 'm) penv" and p0 :: "('w, 'm) pst" where
  run_start: "poll_run rem E p0 p0"
| run_continue: "poll_run rem E p0 p \<Longrightarrow> continuePoll E p = Some (r, t) \<Longrightarrow> poll_run rem E p0 t"
| run_abort: "poll_run rem E p0 p \<Longrightarrow> poll_abort E p = Some ((), t) \<Longrightarrow> poll_run rem E p0 t"
| run_world: "poll_run rem E p0 p \<Longrightarrow> rem w = rem (world p) \<Longrightarrow> poll_run rem E p0 (p\<lparr>world := w\<rparr>)"

definition run_ok :: "('w, 'm) penv \<Rightarrow> ('w, 'm) pst \<Rightarrow> ('w, 'm) pst \<Rightarrow> bool" where
  "run_ok E p0 p \<longleftrightarrow> cfg p = cfg p0 \<and>
     (if ended p then ended_ok p \<and> (poll_state p = DONE \<longrightarrow> xsink p = [])
      else running_ok E p)"

lemma abort_post:
  assumes "running_ok E p"
  shows "post (poll_abort E p) (\<lambda>_ t. ended_ok t \<and> cfg t = cfg p \<and> poll_state t = CLOSED \<and> \<not> ssh_session t)"
proof -
  have "\<not> (poll_state p = DONE \<or> poll_state p = CLOSED)" using running_not_ended [OF assms] by (simp add: ended_def)
  moreover have "closable True p" using assms running_closable(1) [of p E] by (simp add: running_ok_def)
  ultimately show ?thesis
    unfolding poll_abort_def by (auto simp: closed_from_def intro!: post_mono [OF closeIntern_post])
qed

lemma ended_world: "ended_ok (p\<lparr>world := w\<rparr>) = ended_ok p" "ended (p\<lparr>world := w\<rparr>) = ended p"
  "adopted (p\<lparr>world := w\<rparr>) = adopted p"
  by (simp_all add: ended_ok_def ended_def adopted_def)

lemma poll_run_ok:
  assumes "poll_run rem E p0 p" "running_ok E p0" "callbacks_neutral E"
  shows "run_ok E p0 p"
  using assms(1)
proof induction
  case run_start
  then show ?case using assms(2) running_not_ended [OF assms(2)] by (simp add: run_ok_def)
next
  case (run_continue p r t)
  show ?case
  proof (cases "ended p")
    case True
    with run_continue show ?thesis by (simp add: continuePoll_def)
  next
    case False
    with run_continue have "running_ok E p" "cfg p = cfg p0" by (simp_all add: run_ok_def)
    with post_D [OF continuePoll_post [OF this(1) assms(3)] run_continue(2)] show ?thesis
      by (auto simp: run_ok_def poll_result_def stage_post_def)
  qed
next
  case (run_abort p t)
  show ?case
  proof (cases "ended p")
    case True
    with run_abort show ?thesis by (auto simp: poll_abort_def ended_def)
  next
    case False
    with run_abort have "running_ok E p" "cfg p = cfg p0" by (simp_all add: run_ok_def)
    with post_D [OF abort_post run_abort(2)] show ?thesis by (auto simp: run_ok_def ended_def)
  qed
next
  case (run_world p w)
  then show ?case using running_io [OF io_step_world, of E p w] by (auto simp: run_ok_def ended_world)
qed

text \<open>A client that an operation can be started on: idle, consistent and in blocking mode.\<close>

definition client_idle :: "'w client \<Rightarrow> bool" where
  "client_idle c \<longleftrightarrow> conn_inv c \<and> is_sftp c \<and> xsink c = [] \<and> \<not> agent_live c \<and> \<not> handle_outlives c
     \<and> (ssh_session c \<longrightarrow> session_blocking c)"

lemma start_running:
  assumes "startPollGetFile path c = Inr p" "client_idle c"
  shows "running_ok E p" "settings p = settings c" "poll_path p = c_str path" "poll_data p = []"
    "poll_state p = START" "abs_path p = []" "world p = world c" "sftppath p = sftppath c" "bytes_read p = 0"
proof -
  have c: "\<not> poll_op_in_progress c" "\<not> connect_in_progress c"
    using assms(1) by (auto simp: startPollGetFile_def reservePollOperation_def split: if_splits)
  then have p: "p = SftpPollOperationPriv_new path DEFAULT_TIMEOUT_MS (c\<lparr>poll_op_in_progress := True\<rparr>)"
    using assms(1) by (simp add: startPollGetFile_def reservePollOperation_def)
  show "running_ok E p" "settings p = settings c" "poll_path p = c_str path" "poll_data p = []"
    "poll_state p = START" "abs_path p = []" "world p = world c" "sftppath p = sftppath c" "bytes_read p = 0"
    using assms(2) c unfolding p client_idle_def SftpPollOperationPriv_new_def poll.defs client.defs
    by (simp_all add: running_ok_def poll_base_def stage_ok_def conn_inv_def settings_def)
qed

lemma ended_idle: "ended_ok p \<Longrightarrow> client_idle ((client.truncate p)\<lparr>xsink := []\<rparr>)"
  by (simp add: ended_ok_def client_idle_def client.truncate_def conn_inv_def)

lemma closeIntern_no_handle:
  assumes "closable False p" "\<not> sftp_handle p" "ssh_session p" "xsink p = []"
  shows "\<exists>t. closeIntern E False p = Some ((), t) \<and> closed_from False p t \<and> ssh_session t \<and> sock t = sock p
     \<and> sshauthenticatedwith t = sshauthenticatedwith p"
proof -
  have al: "agent_live p \<longleftrightarrow> poll_agent p \<noteq> None" using assms(1) by (simp add: closable_def poll_base_def)
  obtain w where w: "agent_reset E p = p\<lparr>agent_live := False, poll_agent := None, world := w\<rparr>"
    by (rule agent_reset_eq [OF al])
  let ?q = "p\<lparr>agent_live := False, poll_agent := None, world := w, poll_candidates := None, connect_state := False\<rparr>"
  have e: "closeIntern E False p = Some ((), release_client ?q)"
    using assms(2) by (simp add: closeIntern_def w close_handle_def drop_connection_def)
  have "ssh_session (release_client ?q)" "sock (release_client ?q) = sock p"
    "sshauthenticatedwith (release_client ?q) = sshauthenticatedwith p"
    using assms(3) by (simp_all add: release_client_def Let_def restoreBlockingIntern_def setBlockingUnlocked_def)
  with e post_D [OF closeIntern_post [OF assms(1)] e] show ?thesis by blast
qed

definition poll_client :: "tworld client" where
  "poll_client = client0\<lparr>is_sftp := True\<rparr>"

abbreviation penv0 :: "(tworld, unit) penv" where
  "penv0 \<equiv> env0"

lemma example_neutral: "callbacks_neutral (env0 :: (tworld, 'm) penv)"
  by (simp add: callbacks_neutral_def env0_def)

lemma example_idle: "client_idle poll_client"
  by (simp add: client_idle_def poll_client_def client0_def conn_inv_def)

definition poll0 :: "tworld poll" where
  "poll0 = SftpPollOperationPriv_new ''f'' DEFAULT_TIMEOUT_MS (poll_client\<lparr>poll_op_in_progress := True\<rparr>)"

lemma example_start: "startPollGetFile ''f'' poll_client = Inr poll0"
  by (simp add: startPollGetFile_def reservePollOperation_def poll0_def poll_client_def client0_def)

lemma example_run:
  "map_option (\<lambda>(r, t). (r, getOutput t, adopted t)) (continuePoll penv0 poll0) = Some (None, Some ''abc'', False)"
  by code_simp

end
