(* ===== verification/Sftp_Poll_Live.thy ===== *)
theory Sftp_Poll_Live
  imports Sftp_Poll_Run
begin

text \<open>
  One call of \<open>continuePoll()\<close> returns: each handler does, the loops over the identities of the
  agent, over the attempts and candidates of the authentication and over the blocks of the file
  have a measure, and the stages advance, with one restart at most.
\<close>

section \<open>Every handler returns\<close>

lemma halts_close_handle:
  assumes "sftp_settling m E"
  shows "halts (close_handle E)"
  unfolding halts_def close_handle_def
  by (auto simp: returns_bind intro!: post_I retry_in_disconnect_returns [OF settlingD(1) [OF assms]] settlingD(2) [OF assms])

lemma halts_drop:
  assumes "sftp_settling m E"
  shows "halts (drop_connection E d)"
  using haltsD [OF halts_disconnect [OF settlingD(1) [OF assms], of None]] by (auto simp: halts_def drop_connection_def)

lemma halts_closeIntern:
  assumes "sftp_settling m E"
  shows "halts (closeIntern E d)"
  using haltsD [OF halts_close_handle [OF assms]] haltsD [OF halts_drop [OF assms]]
  by (auto simp: halts_def closeIntern_def returns_bind intro!: post_I)

lemma halts_end_stage:
  assumes "sftp_settling m E"
  shows "halts (end_stage E d)"
  using haltsD [OF halts_closeIntern [OF assms]] by (auto simp: halts_def end_stage_def returns_bind intro!: post_I)

lemma halts_session_error:
  assumes "sftp_settling m E"
  shows "halts (session_error E d)"
  using haltsD [OF halts_disconnect [OF settlingD(1) [OF assms], of None]] haltsD [OF halts_end_stage [OF assms]]
  by (auto simp: halts_def session_error_def sftp_doSessionErrUnlocked_def returns_bind intro!: post_I split: prod.split)

lemma halts_info:
  assumes "sftp_settling m E"
  shows "returns (getPollInfo E fd ev ex tm p)" "returns (getSessionPollInfo E p)"
  using haltsD [OF halts_end_stage [OF assms]] by (auto simp: getPollInfo_def getSessionPollInfo_def Let_def split: prod.split)

lemma halts_retry_or_fail:
  assumes "sftp_settling m E"
  shows "halts (retry_or_fail E d)"
  using haltsD [OF halts_disconnect [OF settlingD(1) [OF assms], of None]] haltsD [OF halts_session_error [OF assms]]
  by (auto simp: halts_def retry_or_fail_def retryAfterConnectionLoss_def returns_bind intro!: post_I)

lemma connection_parts_return:
  assumes "sftp_settling m E"
  shows "returns (checkConnectPreconditionsUnlocked E u)" "returns (prepareSessionUnlocked E u)"
    "returns (verifyHostKeyUnlocked E tmo u)" "returns (checkAuthAttemptAccessUnlocked E a u)"
proof -
  note st = settlingD(1) [OF assms]
  show "returns (checkConnectPreconditionsUnlocked E u)"
    by (auto simp: checkConnectPreconditionsUnlocked_def returns_bind force_disconnect_returns [OF st]
        intro!: post_I split: prod.split)
  show "returns (prepareSessionUnlocked E u)"
    by (auto simp: prepareSessionUnlocked_def disconnect_raise_returns [OF st] Let_def split: prod.split)
  show "returns (verifyHostKeyUnlocked E tmo u)"
    by (auto simp: verifyHostKeyUnlocked_def disconnect_raise_returns [OF st] split: option.split prod.split verdict.split)
  show "returns (checkAuthAttemptAccessUnlocked E a u)" by (rule checkAuthAttemptAccess_returns [OF st])
qed

lemma handlers_return:
  assumes "sftp_settling m E"
  shows "returns (handleStart E p)" "returns (handleConnecting E p)" "returns (handleHandshake E p)"
    "returns (handleAuthList E p)" "returns (handleSftpInit E p)" "returns (handleRealPath E p)"
    "returns (handleStat E p)" "returns (handleOpen E p)" "returns (handleClose E p)"
proof -
  note parts = connection_parts_return [OF assms] halts_info [OF assms] haltsD [OF halts_end_stage [OF assms]]
    haltsD [OF halts_session_error [OF assms]] haltsD [OF halts_retry_or_fail [OF assms]]
  show "returns (handleStart E p)"
    by (auto simp: handleStart_def Let_def returns_bind parts intro!: post_I split: prod.split)
  show "returns (handleConnecting E p)"
    by (auto simp: handleConnecting_def connected_socket_def Let_def returns_bind parts intro!: post_I split: prod.split sum.split)
  show "returns (handleHandshake E p)"
    by (auto simp: handleHandshake_def returns_bind parts intro!: post_I split: prod.split)
  show "returns (handleAuthList E p)" by (auto simp: handleAuthList_def parts split: prod.split)
  show "returns (handleSftpInit E p)" by (auto simp: handleSftpInit_def parts split: prod.split lptr.split)
  show "returns (handleRealPath E p)" by (auto simp: handleRealPath_def parts split: prod.split rd.split list.split)
  show "returns (handleStat E p)" by (auto simp: handleStat_def Let_def parts split: prod.split lrc.split)
  show "returns (handleOpen E p)" by (auto simp: handleOpen_def parts split: prod.split lptr.split)
  show "returns (handleClose E p)" by (auto simp: handleClose_def parts split: prod.split)
qed

text \<open>The reading: every block that arrives brings the end nearer.\<close>

definition bounded_reads :: "('w, 's) env \<Rightarrow> bool" where
  "bounded_reads E \<longleftrightarrow> (\<forall>n w d w'. sftp_read E n w = (RdData d, w') \<longrightarrow> length d \<le> n)"

lemma word_progress:
  fixes b s :: "64 word"
  assumes "b < s" "0 < n" "n \<le> unat (s - b)"
  shows "unat (s - (b + of_nat n)) < unat (s - b)"
proof -
  have u: "unat (s - b) < 2 ^ 64" using unsigned_less [of "s - b", where 'a = nat] by simp
  then have n: "unat (of_nat n :: 64 word) = n" using assms(3) by (simp add: unat_of_nat take_bit_nat_eq_self)
  have e: "s - (b + of_nat n) = (s - b) - of_nat n" by (simp add: algebra_simps)
  have "unat ((s - b) - of_nat n) = unat (s - b) - n"
    using assms(3) n by (simp add: unat_sub word_le_nat_alt)
  then show ?thesis using assms(2,3) unfolding e by simp
qed

lemma handleRead_returns:
  assumes "sftp_settling m E" "bounded_reads E"
  shows "returns (handleRead E p)"
proof (induction "unat (file_size p - bytes_read p)" arbitrary: p rule: less_induct)
  case less
  show ?case
  proof (cases "bytes_read p < file_size p")
    case False
    then show ?thesis by (subst handleRead.simps) (simp add: read_finish_def)
  next
    case True
    obtain r w where r: "sftp_read E (unat (file_size p - bytes_read p)) (world p) = (r, w)" by fastforce
    show ?thesis
    proof (cases r)
      case (RdData d)
      have go: "returns (handleRead E t)"
        if "d \<noteq> []" "file_size t = file_size p" "bytes_read t = bytes_read p + of_nat (length d)" for t
        using word_progress [OF True, of "length d"] assms(2) r RdData that unfolding bounded_reads_def
        by (intro less) auto
      show ?thesis
        using True r RdData go
        by (subst handleRead.simps)
          (auto simp: call_ext_def use_handle_def Let_def read_finish_def haltsD [OF halts_end_stage [OF assms(1)]]
            qore_check_cancel_def raise_def split: prod.split)
    qed (use True r halts_info [OF assms(1)] haltsD [OF halts_session_error [OF assms(1)]] in
      \<open>subst handleRead.simps; simp add: call_ext_def use_handle_def\<close>)+
  qed
qed

text \<open>The agent: an attempt uses up an identity, or it is the one that was interrupted.\<close>

definition agent_left :: "nat \<Rightarrow> ('w, 'm) pst \<Rightarrow> nat" where
  "agent_left k p = (case poll_agent p of None \<Rightarrow> 0 | Some h \<Rightarrow> 2 * agent_rank k h + (if agent_need_identity p then 0 else 1))"

lemma agent_select_rank:
  assumes "agent_finite k E" "poll_agent p = Some h" "agent_select_identity E h p = (None, t)"
  shows "\<exists>h1. poll_agent t = Some h1 \<and> 2 * agent_rank k h1 < agent_left k p"
proof (cases "agent_need_identity p")
  case False
  with assms show ?thesis by (simp add: agent_select_identity_def agent_left_def)
next
  case True
  obtain b q where c: "qore_check_cancel E p = (b, q)" by fastforce
  obtain rc h1 u where n: "Ssh2AgentHelper_nextIdentity E h q = ((rc, h1), u)" by (metis prod.exhaust)
  from assms(3) True c n have rc: "rc = 0" and t: "t = u\<lparr>poll_agent := Some h1, agent_need_identity := False\<rparr>"
    by (auto simp: agent_select_identity_def split: if_splits)
  from nextIdentity_rank [OF assms(1) n [unfolded rc]] t True assms(2) show ?thesis by (simp add: agent_left_def)
qed

text \<open>The agent touches neither the candidates of the provider nor the part about the file.\<close>

definition data_part :: "('w, 'm) pst \<Rightarrow> string \<times> string \<times> 64 word" where
  "data_part p = (abs_path p, poll_data p, bytes_read p)"

definition provider_part :: "('w, 'm) pst \<Rightarrow> qvalue list option \<times> nat \<times> string \<times> string \<times> 64 word" where
  "provider_part p = (poll_candidates p, provider_index p, data_part p)"

lemma data_part_core: "core t = core p \<Longrightarrow> data_part t = data_part p"
  using core_eq_poll(2,19,21) unfolding data_part_def by metis

lemma provider_part_core: "core t = core p \<Longrightarrow> provider_part t = provider_part p"
  using core_eq_poll(10,11) data_part_core unfolding provider_part_def by metis

lemma provider_part_upd [simp]:
  "provider_part (p\<lparr>poll_agent := h\<rparr>) = provider_part p" "provider_part (p\<lparr>agent_need_identity := b\<rparr>) = provider_part p"
  "provider_part (p\<lparr>agent_live := b\<rparr>) = provider_part p" "provider_part (p\<lparr>world := w\<rparr>) = provider_part p"
  "provider_part (agent_reset E p) = provider_part p"
  by (simp_all add: provider_part_def data_part_def agent_reset_def Ssh2AgentHelper_reset_def Let_def run_ext_def split: option.split)

lemma agent_select_part:
  assumes "agent_select_identity E h p = (r, t)"
  shows "provider_part t = provider_part p"
proof -
  obtain b q where c: "qore_check_cancel E p = (b, q)" by fastforce
  obtain rc h1 u where n: "Ssh2AgentHelper_nextIdentity E h q = ((rc, h1), u)" by (metis prod.exhaust)
  have "core q = core p" using check_cancel_io [OF c] io_step_core by (cases b) blast+
  moreover have "core u = core q" by (rule io_step_core [OF nextIdentity_io [OF n]])
  ultimately have "provider_part q = provider_part p" "provider_part u = provider_part p"
    using provider_part_core by metis+
  with assms c n show ?thesis by (auto simp: agent_select_identity_def split: if_splits)
qed

lemma agent_step_loop_returns:
  assumes "agent_finite k E"
  shows "returns (agent_step_loop E p) \<and> post (agent_step_loop E p) (\<lambda>_ t. provider_part t = provider_part p)"
proof (induction "agent_left k p" arbitrary: p rule: less_induct)
  case less
  show ?case
  proof (cases "poll_agent p")
    case None
    then show ?thesis by (subst (1 2) agent_step_loop.simps) simp
  next
    case (Some h)
    obtain r q where q: "agent_select_identity E h p = (r, q)" by fastforce
    obtain rc u where u: "Ssh2AgentHelper_userauth E (the (poll_agent q)) (sshuser q) q = (rc, u)" by fastforce
    note c = io_step_core [OF userauth_io [OF u]]
    have pp: "provider_part q = provider_part p" "provider_part u = provider_part p"
      using agent_select_part [OF q] provider_part_core [OF c] by simp_all
    have "returns (agent_step_loop E (u\<lparr>agent_need_identity := True\<rparr>))
      \<and> post (agent_step_loop E (u\<lparr>agent_need_identity := True\<rparr>)) (\<lambda>_ t. provider_part t = provider_part p)" if "r = None"
    proof -
      from agent_select_rank [OF assms Some] q that obtain h1
        where "poll_agent q = Some h1" "2 * agent_rank k h1 < agent_left k p" by blast
      then have "agent_left k (u\<lparr>agent_need_identity := True\<rparr>) < agent_left k p"
        using core_eq_poll(12) [OF c] by (simp add: agent_left_def)
      from less [OF this] pp(2) show ?thesis by simp
    qed
    with Some q u pp show ?thesis by (subst (1 2) agent_step_loop.simps) (simp split: option.split)
  qed
qed

lemma stepAgentAuth_returns:
  assumes "agent_finite k E"
  shows "returns (stepAgentAuth E p)" "post (stepAgentAuth E p) (\<lambda>_ t. provider_part t = provider_part p)"
proof -
  obtain rc h u where i: "Ssh2AgentHelper_init E Ssh2AgentHelper_new p = ((rc, h), u)" by (metis prod.exhaust)
  have "provider_part u = provider_part p"
    using i by (auto simp: Ssh2AgentHelper_init_def Ssh2AgentHelper_reset_def provider_part_def data_part_def Let_def run_ext_def call_ext_def
        split: if_splits option.splits prod.splits)
  then show "returns (stepAgentAuth E p)" "post (stepAgentAuth E p) (\<lambda>_ t. provider_part t = provider_part p)"
    using i agent_step_loop_returns [OF assms, of p]
      agent_step_loop_returns [OF assms, of "u\<lparr>poll_agent := Some h, agent_need_identity := True\<rparr>"]
    by (auto simp: stepAgentAuth_def)
qed

text \<open>
  The order in which the authentication ends: the markers of the provider, then its candidates
  that are not fetched yet or not tried yet, then the attempts in the queue.
\<close>

definition auth_rank :: "('w, 'm) pst \<Rightarrow> nat \<times> nat \<times> nat \<times> nat" where
  "auth_rank p = (length (filter (\<lambda>a. kind a = PROVIDER) (auth_queue p)),
     case poll_candidates p of None \<Rightarrow> 1 | Some _ \<Rightarrow> 0,
     case poll_candidates p of None \<Rightarrow> 0 | Some cs \<Rightarrow> length cs - provider_index p,
     length (auth_queue p))"

definition auth_less :: "(('w, 'm) pst \<times> ('w, 'm) pst) set" where
  "auth_less = inv_image (less_than <*lex*> less_than <*lex*> less_than <*lex*> less_than) auth_rank"

lemma wf_auth_less: "wf auth_less"
  by (simp add: auth_less_def wf_lex_prod)

lemma auth_less_pop:
  assumes "auth_queue p = a # q" "kind a \<noteq> PROVIDER" "auth_queue t = q" "provider_part t = provider_part p"
  shows "(t, p) \<in> auth_less"
  using assms by (cases "poll_candidates p") (simp_all add: auth_less_def auth_rank_def provider_part_def)

lemma auth_less_provider:
  assumes "auth_queue p = a # q" "kind a = PROVIDER" "auth_queue t = q"
  shows "(t, p) \<in> auth_less"
  using assms by (simp add: auth_less_def auth_rank_def)

lemma expandProvider_less:
  assumes p: "at_provider E p" and cb: "callbacks_neutral E" and f: "expandProviderAttempt E p = (0, t)"
    and q: "auth_queue p = a # as" "kind a = PROVIDER"
  shows "(t, p) \<in> auth_less"
proof (cases "publicKeyAuthAvailableUnlocked p")
  case False
  with f q show ?thesis by (intro auth_less_provider) (auto simp: expandProviderAttempt_def)
next
  case True
  obtain r u where u: "provider_fetch E p = (r, u)" by fastforce
  then obtain cs where r: "r = Some cs" and n: "provider_next E cs u = (0, t)"
    using f True by (cases r) (auto simp: expandProviderAttempt_def)
  have pf: "at_provider E u" "auth_queue u = auth_queue p" "poll_candidates u = Some cs" "poll_candidates p \<noteq> None \<longrightarrow> u = p"
    using provider_fetch_post(1) [OF p cb u] r by simp_all
  from provider_next_post(1) [OF pf(1) cb n] consider
    "auth_queue t = tl (auth_queue u)" | as where "poll_candidates t = poll_candidates u" "provider_index u < length cs"
      "provider_index t = Suc (provider_index u)" "auth_queue t = as @ auth_queue u" "PROVIDER \<notin> kind ` set as" by auto
  then show ?thesis
  proof cases
    case 1
    with pf(2) q show ?thesis by (intro auth_less_provider) auto
  next
    case (2 as)
    then have "filter (\<lambda>a. kind a = PROVIDER) as = []" by (force simp: filter_empty_conv)
    with 2 pf q show ?thesis
      by (cases "poll_candidates p") (auto simp: auth_less_def auth_rank_def)
  qed
qed

lemma check_attempt_part:
  "post (check_attempt E a p) (\<lambda>rc t. poll_state t = poll_state p \<and> (rc = 0 \<longrightarrow> provider_part t = provider_part p))"
proof -
  have "post (checkAuthAttemptAccessUnlocked E a p)
      (\<lambda>rc t. poll_state t = poll_state p \<and> (rc = 0 \<longrightarrow> provider_part t = provider_part p))"
    by (rule post_mono [OF attempt_access_disc])
      (auto split: if_splits dest!: io_step_core dest: provider_part_core core_eq_poll(4))
  then show ?thesis by (auto simp: check_attempt_def provider_part_def data_part_def elim!: post_mono)
qed

lemma plain_attempt_less:
  assumes p: "auth_ok E p" "auth_queue p = a # as" "kind a \<noteq> PROVIDER" "kind a \<noteq> AGENT"
    and c: "check_attempt E a p = Some (0, t)" "authCallUnlocked E a t = (rc, v)"
  shows "auth_ok E (v\<lparr>auth_queue := tl (auth_queue v), auth_attempt_checked := False\<rparr>)"
    "(v\<lparr>auth_queue := tl (auth_queue v), auth_attempt_checked := False\<rparr>, p) \<in> auth_less"
    "data_part (v\<lparr>auth_queue := tl (auth_queue v), auth_attempt_checked := False\<rparr>) = data_part p"
proof -
  have pa: "poll_agent p = None" using p by (auto simp: auth_ok_iff queue_ok_def)
  have io: "io_step False t v" by (rule authCall_io [OF c(2)])
  have t: "auth_ok E t" "auth_queue t = auth_queue p" "poll_agent t = None" "provider_part t = provider_part p"
    using post_D [OF check_attempt_post [OF p(1) pa] c(1)] post_D [OF check_attempt_part c(1)] by simp_all
  have v: "auth_ok E v" "auth_queue v = auth_queue p" "poll_agent v = None" "provider_part v = provider_part p"
    using t auth_ok_io [OF io] core_eq_poll [OF io_step_core [OF io]] provider_part_core [OF io_step_core [OF io]] by simp_all
  show "auth_ok E (v\<lparr>auth_queue := tl (auth_queue v), auth_attempt_checked := False\<rparr>)" by (rule auth_pop(2) [OF v(1,3)])
  show "(v\<lparr>auth_queue := tl (auth_queue v), auth_attempt_checked := False\<rparr>, p) \<in> auth_less"
    by (rule auth_less_pop [OF p(2,3)]) (use v p(2) in \<open>simp_all add: provider_part_def data_part_def\<close>)
  show "data_part (v\<lparr>auth_queue := tl (auth_queue v), auth_attempt_checked := False\<rparr>) = data_part p"
    using v(4) by (simp add: provider_part_def data_part_def)
qed

text \<open>The provider does not touch the part about the file, and it does not move the machine.\<close>

definition stage_data :: "('w, 'm) pst \<Rightarrow> SftpPollState \<times> string \<times> string \<times> 64 word" where
  "stage_data p = (poll_state p, data_part p)"

lemma stage_data_io: "io_step x p t \<Longrightarrow> stage_data t = stage_data p"
  using core_eq_poll(4) [OF io_step_core] data_part_core [OF io_step_core] unfolding stage_data_def by metis

lemma stage_data_upd [simp]:
  "stage_data (p\<lparr>auth_queue := q\<rparr>) = stage_data p" "stage_data (p\<lparr>poll_candidates := c\<rparr>) = stage_data p"
  "stage_data (p\<lparr>provider_index := i\<rparr>) = stage_data p"
  by (simp_all add: stage_data_def data_part_def)

lemma provider_fetch_data:
  assumes "at_provider E p" "callbacks_neutral E" "provider_fetch E p = (r, t)"
  shows "stage_data t = stage_data p"
proof -
  obtain v q where c: "getProviderCandidatesUnlocked E (poll_timeout p) p = (v, q)" by fastforce
  have a: "xsink p = []" "client_identity_provider p \<noteq> None" using assms(1) by (simp_all add: at_provider_def auth_ok_iff)
  note o = getProviderCandidates_outcome [OF c a(1) assms(2) a(2)]
  have "stage_data q = stage_data p" using stage_data_io o by (cases v) blast+
  with assms(3) c show ?thesis by (auto simp: provider_fetch_def split: option.splits)
qed

lemma provider_next_data:
  assumes "at_provider E p" "callbacks_neutral E" "provider_next E cs p = (rc, t)"
  shows "stage_data t = stage_data p"
proof -
  obtain b q where b: "qore_check_cancel E p = (b, q)" by fastforce
  let ?q = "q\<lparr>provider_index := Suc (provider_index q)\<rparr>"
  obtain rc' as w where w: "resolveProviderCandidateUnlocked E (cs ! provider_index q) (poll_timeout q) ?q = ((rc', as), w)"
    by (metis prod.exhaust)
  have q: "stage_data q = stage_data p" using check_cancel_io [OF b] stage_data_io by (cases b) blast+
  have "stage_data w = stage_data p" if "\<not> b"
  proof -
    have "at_provider E ?q" using at_provider_io [OF check_cancel_io(1) [OF b that] assms(1)] by simp
    then have "xsink ?q = []" by (simp add: at_provider_def auth_ok_iff)
    from resolveProviderCandidate_outcome [OF w this assms(2)] obtain x where "io_step x ?q w"
      by (auto simp: candidate_outcome_def split: if_splits)
    from stage_data_io [OF this] q show ?thesis by simp
  qed
  with assms(3) b w q show ?thesis by (auto simp: provider_next_def split: if_splits)
qed

lemma expandProvider_data:
  assumes p: "at_provider E p" and cb: "callbacks_neutral E" and f: "expandProviderAttempt E p = (rc, t)"
  shows "stage_data t = stage_data p"
proof -
  obtain r u where u: "provider_fetch E p = (r, u)" by fastforce
  have "stage_data v = stage_data p" if "r = Some cs" "provider_next E cs u = (rc, v)" for cs v
    using provider_next_data [OF _ cb that(2)] provider_fetch_post(1) [OF p cb u] provider_fetch_data [OF p cb u] that(1) by simp
  with f u provider_fetch_data [OF p cb u] show ?thesis
    by (auto simp: expandProviderAttempt_def split: if_splits option.splits)
qed

lemma auth_finish_returns: "sftp_settling m E \<Longrightarrow> returns (auth_finish E p)"
  by (simp add: auth_finish_def Let_def haltsD [OF halts_end_stage])

text \<open>
  The stages before the file is known, and what is left of the part about the file when the
  authentication does not end the operation.
\<close>

definition early :: "('w, 'm) pst \<Rightarrow> bool" where
  "early p \<longleftrightarrow> poll_state p \<notin> {OPEN, READ, CLOSE, DONE}"

definition data_kept :: "('w, 'm) pst \<Rightarrow> 'r \<Rightarrow> ('w, 'm) pst \<Rightarrow> bool" where
  "data_kept p r t \<longleftrightarrow> poll_state t = CLOSED \<or> early t \<and> data_part t = data_part p"

lemma data_kept_trans: "post m (data_kept q) \<Longrightarrow> data_part q = data_part p \<Longrightarrow> post m (data_kept p)"
  by (auto simp: post_def data_kept_def)

lemma closeIntern_frame:
  "post (closeIntern E d p) (\<lambda>_ t. poll_state t = (if poll_state p = DONE then DONE else CLOSED)
     \<and> poll_data t = poll_data p \<and> abs_path t = abs_path p \<and> sftppath t = sftppath p \<and> poll_path t = poll_path p)"
proof -
  let ?F = "\<lambda>p. (poll_state p, poll_data p, abs_path p, sftppath p, poll_path p)"
  have c: "?F t = ?F s" if "io_step x s t" for x and s t :: "('a, 'b) poll_scheme"
    using core_eq_poll [OF io_step_core [OF that]] core_eq_sel [OF io_step_core [OF that]] by simp
  have d: "?F (disc_state s) = ?F s" "?F (closeTransportUnlocked s) = ?F s" for s :: "('a, 'b) poll_scheme"
    by (simp_all add: disc_state_def closeTransportUnlocked_def)
  have a: "?F ((agent_reset E p)\<lparr>poll_candidates := None, connect_state := False\<rparr>) = ?F p"
    by (simp add: agent_reset_def Ssh2AgentHelper_reset_def Let_def run_ext_def split: option.split)
  have h: "post (close_handle E q) (\<lambda>_ t. ?F t = ?F q)" for q
    by (rule post_mono [OF close_handle_post]) (auto dest!: c)
  have e: "post (drop_connection E b q) (\<lambda>_ t. ?F t = ?F q)" for b q
    by (rule post_mono [OF drop_connection_post]) (use d in \<open>auto split: if_splits dest!: c\<close>)
  have r: "?F (release_client q) = ((if poll_state q = DONE then DONE else CLOSED), poll_data q, abs_path q, sftppath q, poll_path q)"
    for q :: "('a, 'b) poll_scheme"
    by (simp add: release_client_def Let_def restoreBlockingIntern_def setBlockingUnlocked_def)
  show ?thesis
    unfolding closeIntern_def post_bind
    by (rule post_mono [OF h], simp only: prod.case post_bind post_Some, rule post_mono [OF e]) (use a r in auto)
qed

lemma end_stage_frame:
  "post (end_stage E d p) (\<lambda>r t. r = None \<and> poll_state t = (if poll_state p = DONE then DONE else CLOSED)
     \<and> poll_data t = poll_data p \<and> abs_path t = abs_path p \<and> sftppath t = sftppath p \<and> poll_path t = poll_path p)"
  unfolding end_stage_def post_bind by (rule post_mono [OF closeIntern_frame]) simp

lemma ends_keep:
  assumes "early p"
  shows "post (end_stage E d p) (data_kept q)"
    "data_part p = data_part q \<Longrightarrow> post (getPollInfo E fd ev ex tm p) (data_kept q)"
    "data_part p = data_part q \<Longrightarrow> post (getSessionPollInfo E p) (data_kept q)"
proof -
  have e: "post (end_stage E d u) (data_kept q)" if "early u" for d u
    by (rule post_mono [OF end_stage_frame]) (use that in \<open>auto simp: data_kept_def early_def\<close>)
  show "post (end_stage E d p) (data_kept q)" by (rule e [OF assms])
  show i: "post (getPollInfo E fd ev ex tm p) (data_kept q)" if "data_part p = data_part q" for fd ev ex tm
    using assms that by (auto simp: getPollInfo_def Let_def e data_kept_def data_part_def early_def raise_def)
  show "post (getSessionPollInfo E p) (data_kept q)" if "data_part p = data_part q"
    using i [OF that] by (simp add: getSessionPollInfo_def split: prod.split)
qed

lemma data_part_upd [simp]:
  "data_part (p\<lparr>auth_queue := q\<rparr>) = data_part p" "data_part (p\<lparr>poll_candidates := c\<rparr>) = data_part p"
  "data_part (p\<lparr>poll_state := a\<rparr>) = data_part p" "data_part (p\<lparr>poll_loggedin := b\<rparr>) = data_part p"
  "data_part (p\<lparr>world := w\<rparr>) = data_part p" "data_part (agent_reset E p) = data_part p"
  "data_part (finishConnectUnlocked E p) = data_part p" "data_part (setAuthenticatedWithUnlocked m p) = data_part p"
  "data_part (raise x e p) = data_part p"
  by (simp_all add: data_part_def agent_reset_def Ssh2AgentHelper_reset_def Let_def run_ext_def finishConnectUnlocked_def
      setAuthenticatedWithUnlocked_def raise_def split: option.split)

lemma auth_finish_keep:
  assumes "early p" "data_part p = data_part q"
  shows "post (auth_finish E p) (data_kept q)"
  using assms ends_keep(1) [of "raise True e p" for e] by (auto simp: auth_finish_def Let_def raise_def early_def) (simp add: data_kept_def early_def)

lemma agent_attempt_keep:
  assumes p: "auth_ok E p" "auth_queue p = a # as" "kind a = AGENT" and step: "stepAgentAuth E p = Some (rc, t)"
    and pp: "provider_part t = provider_part p"
  shows "post (end_stage E d t) (data_kept p)" "post (getSessionPollInfo E t) (data_kept p)"
    "post (auth_finish E (agent_reset E ((setAuthenticatedWithUnlocked a t)\<lparr>poll_loggedin := True\<rparr>))) (data_kept p)"
    "rc \<noteq> Eagain \<Longrightarrow> rc \<noteq> Ret 0 \<Longrightarrow> rc \<noteq> Ret SFTP_AGENT_ERROR \<Longrightarrow> (t\<lparr>auth_queue := tl (auth_queue t)\<rparr>, p) \<in> auth_less
      \<and> auth_ok E (t\<lparr>auth_queue := tl (auth_queue t)\<rparr>) \<and> data_part (t\<lparr>auth_queue := tl (auth_queue t)\<rparr>) = data_part p"
proof -
  let ?win = "agent_reset E ((setAuthenticatedWithUnlocked a t)\<lparr>poll_loggedin := True\<rparr>)"
  have o: "agent_outcome E p rc t" by (rule post_D [OF stepAgentAuth_post [OF p] step])
  have s: "poll_state t = AUTH" "data_part t = data_part p"
    using o pp by (auto simp: agent_outcome_def auth_ok_iff provider_part_def split: if_splits)
  have "poll_state ?win = poll_state t"
    by (simp add: agent_reset_def Ssh2AgentHelper_reset_def Let_def run_ext_def setAuthenticatedWithUnlocked_def split: option.split)
  then show "post (auth_finish E ?win) (data_kept p)" using s by (intro auth_finish_keep) (simp_all add: early_def)
  show "post (end_stage E d t) (data_kept p)" "post (getSessionPollInfo E t) (data_kept p)"
    using ends_keep [of t] s by (simp_all add: early_def)
  show "(t\<lparr>auth_queue := tl (auth_queue t)\<rparr>, p) \<in> auth_less
      \<and> auth_ok E (t\<lparr>auth_queue := tl (auth_queue t)\<rparr>) \<and> data_part (t\<lparr>auth_queue := tl (auth_queue t)\<rparr>) = data_part p"
    if "rc \<noteq> Eagain" "rc \<noteq> Ret 0" "rc \<noteq> Ret SFTP_AGENT_ERROR"
    using o pp that s p auth_pop(1) [of E t] auth_less_pop [OF p(2), of "t\<lparr>auth_queue := tl (auth_queue t)\<rparr>"]
    by (simp add: agent_outcome_def provider_part_def)
qed

lemma handleAuth_returns:
  assumes st: "sftp_settling m E" and ag: "agent_finite k E" and cb: "callbacks_neutral E" and "auth_ok E p"
  shows "returns (handleAuth E p) \<and> post (handleAuth E p) (data_kept p)"
  using assms(4)
proof (induction p rule: wf_induct_rule [OF wf_auth_less])
  case (1 p)
  note ends = auth_finish_returns [OF st] haltsD [OF halts_end_stage [OF st]] halts_info [OF st]
  have nl: "\<not> poll_loggedin p" "early p" using 1(2) by (simp_all add: auth_ok_iff login_ok_def early_def)
  have go: "returns (handleAuth E t) \<and> post (handleAuth E t) (data_kept p)"
    if "(t, p) \<in> auth_less" "auth_ok E t" "data_part t = data_part p" for t
    using 1(1) [OF that(1,2)] data_kept_trans that(3) by blast
  show ?case
  proof (cases "auth_queue p")
    case Nil
    with nl ends auth_finish_keep [of p p] show ?thesis by (subst (1 2) handleAuth.simps) simp
  next
    case q: (Cons a as)
    consider (PROVIDER) "kind a = PROVIDER" | (AGENT) "kind a = AGENT" | (other) "kind a \<noteq> PROVIDER" "kind a \<noteq> AGENT" by blast
    then show ?thesis
    proof cases
      case PROVIDER
      obtain rc t where e: "expandProviderAttempt E p = (rc, t)" by fastforce
      have at: "at_provider E p" using 1(2) q PROVIDER by (auto simp: at_provider_def auth_ok_iff queue_ok_def)
      have "returns (handleAuth E t) \<and> post (handleAuth E t) (data_kept p)" if "rc = 0"
        using go expandProvider_less [OF at cb _ q PROVIDER] expandProvider_post(1) [OF at cb e]
          expandProvider_data [OF at cb e] e that unfolding stage_data_def by blast
      moreover have "post (end_stage E True t) (data_kept p)"
        by (rule ends_keep) (use expandProvider_data [OF at cb e] nl(2) in \<open>simp add: stage_data_def early_def\<close>)
      ultimately show ?thesis using nl q PROVIDER e ends by (subst (1 2) handleAuth.simps) simp
    next
      case AGENT
      obtain rc t where step: "stepAgentAuth E p = Some (rc, t)"
        using stepAgentAuth_returns(1) [OF ag] unfolding returns_def by blast
      note k = agent_attempt_keep [OF 1(2) q AGENT step post_D [OF stepAgentAuth_returns(2) [OF ag] step]]
      have "returns (handleAuth E (t\<lparr>auth_queue := tl (auth_queue t)\<rparr>)) \<and>
          post (handleAuth E (t\<lparr>auth_queue := tl (auth_queue t)\<rparr>)) (data_kept p)"
        if "rc \<noteq> Eagain" "rc \<noteq> Ret 0" "rc \<noteq> Ret SFTP_AGENT_ERROR"
        using go k(4) that by blast
      with k(1-3) step nl q AGENT ends show ?thesis by (subst (1 2) handleAuth.simps) simp
    next
      case other
      have "returns (check_attempt E a p)"
        by (auto simp: check_attempt_def returns_bind connection_parts_return [OF st] intro!: post_I)
      then obtain rc t where step: "check_attempt E a p = Some (rc, t)" unfolding returns_def by blast
      obtain rc2 v where call: "authCallUnlocked E a t = (rc2, v)" by fastforce
      have s: "poll_state t = poll_state p" "rc = 0 \<longrightarrow> data_part t = data_part p"
        using post_D [OF check_attempt_part step] by (simp_all add: provider_part_def)
      have "stage_data v = stage_data t" by (rule stage_data_io [OF authCall_io [OF call]])
      then have v: "poll_state v = poll_state p" "rc = 0 \<longrightarrow> data_part v = data_part p" using s by (simp_all add: stage_data_def)
      have "returns (handleAuth E (v\<lparr>auth_queue := tl (auth_queue v), auth_attempt_checked := False\<rparr>)) \<and>
          post (handleAuth E (v\<lparr>auth_queue := tl (auth_queue v), auth_attempt_checked := False\<rparr>)) (data_kept p)" if "rc = 0"
        using go plain_attempt_less [OF 1(2) q other _ call] step that by blast
      moreover have "early ((setAuthenticatedWithUnlocked a v)\<lparr>poll_loggedin := True\<rparr>) = early v"
        by (simp add: setAuthenticatedWithUnlocked_def early_def)
      moreover have "post (end_stage E False t) (data_kept p)" by (rule ends_keep) (use s nl in \<open>simp add: early_def\<close>)
      moreover have "early v" using v(1) nl(2) by (simp add: early_def)
      ultimately show ?thesis
        using step call nl q other ends ends_keep [of v] v
          auth_finish_keep [of "(setAuthenticatedWithUnlocked a v)\<lparr>poll_loggedin := True\<rparr>" p]
        by (subst (1 2) handleAuth.simps) (cases "rc = 0"; simp)
    qed
  qed
qed

section \<open>The stages advance\<close>

fun stage_left :: "SftpPollState \<Rightarrow> nat" where
  "stage_left START = 10"
| "stage_left CONNECTING = 9"
| "stage_left HANDSHAKE = 8"
| "stage_left AUTHLIST = 7"
| "stage_left AUTH = 6"
| "stage_left SFTP_INIT = 5"
| "stage_left REALPATH = 4"
| "stage_left STAT = 3"
| "stage_left OPEN = 2"
| "stage_left READ = 1"
| "stage_left _ = 0"

text \<open>The operation may start over once, and only when it uses a session that it found.\<close>

definition poll_rank :: "('w, 'm) pst \<Rightarrow> nat" where
  "poll_rank p = (if adopted p \<or> poll_state p = START \<and> \<not> reconnect_attempted p then 20 else 0) + stage_left (poll_state p)"

definition advances :: "(('w, 'm) pst \<Rightarrow> bool) \<Rightarrow> poll_info option \<Rightarrow> ('w, 'm) pst \<Rightarrow> bool" where
  "advances Q r t \<longleftrightarrow> (r = None \<longrightarrow> ended t \<or> Q t)"

definition restarts :: "('w, 'm) pst \<Rightarrow> ('w, 'm) pst \<Rightarrow> bool" where
  "restarts p t \<longleftrightarrow> adopted p \<and> poll_state t = START \<and> reconnect_attempted t"

lemma advances_mono: "post m (advances P) \<Longrightarrow> (\<And>t. P t \<Longrightarrow> Q t) \<Longrightarrow> post m (advances Q)"
  by (auto simp: post_def advances_def)

lemma ends_advance:
  "post (end_stage E d p) (advances Q)" "post (getPollInfo E fd ev ex tm p) (advances Q)"
  "post (getSessionPollInfo E p) (advances Q)" "post (session_error E d p) (advances Q)"
proof -
  show e: "post (end_stage E d p) (advances Q)" for d and p :: "('a, 'b) poll_scheme"
    by (auto simp: end_stage_def closeIntern_def ended_def advances_def intro!: post_I)
  show i: "post (getPollInfo E fd ev ex tm p) (advances Q)" for fd ev ex tm
    using e by (simp add: getPollInfo_def Let_def advances_def)
  show "post (getSessionPollInfo E p) (advances Q)" using i by (simp add: getSessionPollInfo_def split: prod.split)
  show "post (session_error E d p) (advances Q)" by (auto simp: session_error_def e intro!: post_I)
qed

lemma retry_advance: "post (retry_or_fail E d p) (advances (restarts p))"
proof -
  have "post (retryAfterConnectionLoss E p) (\<lambda>b t. b \<longrightarrow> restarts p t)"
    unfolding retryAfterConnectionLoss_def
    by (auto intro!: post_mono [OF disconnectUnlocked_post] simp: restarts_def adopted_def core_eq_poll [OF io_step_core])
  then show ?thesis
    unfolding retry_or_fail_def post_bind by (rule post_mono) (auto simp: ends_advance, simp add: advances_def)
qed

lemma handleStart_advance:
  "post (handleStart E p) (advances (\<lambda>t. if ssh_session p then poll_state t \<in> {STAT, SFTP_INIT} else poll_state t = CONNECTING))"
proof (cases "ssh_session p")
  case True
  let ?p = "p\<lparr>reused_session := True, poll_state := (if sftp_session p then STAT else SFTP_INIT)\<rparr>"
  obtain rc t where f: "setFdNonBlocking E (getSocket ?p) True ?p = (rc, t)" by fastforce
  have "poll_state t = poll_state ?p" by (rule core_eq_poll [OF io_step_core [OF setFdNonBlocking_io [OF f]]])
  then have "advances (\<lambda>t. poll_state t \<in> {STAT, SFTP_INIT}) None ((setBlockingUnlocked False t)\<lparr>restore_session_blocking := True\<rparr>)"
    by (simp add: advances_def setBlockingUnlocked_def)
  with True f show ?thesis by (simp add: handleStart_def Let_def ends_advance)
next
  case False
  then show ?thesis
    by (auto simp: handleStart_def Let_def ends_advance intro!: post_I) (auto simp: advances_def post_def ends_advance)
qed

lemma adopted_upd [simp]:
  "adopted (p\<lparr>world := w\<rparr>) = adopted p" "adopted (p\<lparr>sftp_session := b\<rparr>) = adopted p" "adopted (p\<lparr>abs_path := n\<rparr>) = adopted p"
  "adopted (p\<lparr>poll_state := a\<rparr>) = adopted p" "adopted (p\<lparr>sftppath := n\<rparr>) = adopted p" "adopted (p\<lparr>file_size := z\<rparr>) = adopted p"
  "adopted (p\<lparr>file_permissions := z\<rparr>) = adopted p" "adopted (p\<lparr>sftp_handle := b\<rparr>) = adopted p"
  "adopted (p\<lparr>poll_data := d\<rparr>) = adopted p" "adopted (p\<lparr>bytes_read := z\<rparr>) = adopted p"
  "adopted (p\<lparr>read_calls := z\<rparr>) = adopted p" "adopted (p\<lparr>handle_misused := b\<rparr>) = adopted p"
  by (simp_all add: adopted_def)

lemma retry_advance_or:
  assumes "adopted q = adopted p"
  shows "post (retry_or_fail E d q) (advances (\<lambda>t. Q t \<or> restarts p t))"
  by (rule advances_mono [OF retry_advance]) (use assms in \<open>simp add: restarts_def\<close>)

lemma handlers_advance:
  "post (handleConnecting E p) (advances (\<lambda>t. poll_state t = HANDSHAKE))"
  "post (handleHandshake E p) (advances (\<lambda>t. poll_state t = AUTHLIST))"
  "post (handleAuthList E p) (advances (\<lambda>t. poll_state t = AUTH))"
  "post (handleSftpInit E p) (advances (\<lambda>t. poll_state t \<in> {REALPATH, STAT} \<and> adopted t = adopted p \<or> restarts p t))"
  "post (handleRealPath E p) (advances (\<lambda>t. poll_state t = STAT \<and> adopted t = adopted p))"
  "post (handleStat E p) (advances (\<lambda>t. poll_state t = OPEN \<and> adopted t = adopted p \<or> restarts p t))"
  "post (handleOpen E p) (advances (\<lambda>t. poll_state t = READ \<and> adopted t = adopted p))"
  "post (handleClose E p) (advances (\<lambda>_. False))"
proof -
  have s: "advances Q None t" if "Q t" for Q and t :: "('a, 'b) poll_scheme" using that by (simp add: advances_def)
  note parts = ends_advance retry_advance_or
  show "post (handleConnecting E p) (advances (\<lambda>t. poll_state t = HANDSHAKE))"
    by (auto simp: handleConnecting_def connected_socket_def Let_def parts s intro!: post_I split: prod.split sum.split)
  show "post (handleHandshake E p) (advances (\<lambda>t. poll_state t = AUTHLIST))"
    by (auto simp: handleHandshake_def parts s intro!: post_I split: prod.split)
  show "post (handleAuthList E p) (advances (\<lambda>t. poll_state t = AUTH))"
    by (auto simp: handleAuthList_def parts s split: prod.split)
  show "post (handleSftpInit E p) (advances (\<lambda>t. poll_state t \<in> {REALPATH, STAT} \<and> adopted t = adopted p \<or> restarts p t))"
    unfolding handleSftpInit_def call_ext_def by (auto simp: parts s split: prod.split lptr.split)
  show "post (handleRealPath E p) (advances (\<lambda>t. poll_state t = STAT \<and> adopted t = adopted p))"
    unfolding handleRealPath_def call_ext_def by (auto simp: parts s split: prod.split rd.split list.split)
  show "post (handleStat E p) (advances (\<lambda>t. poll_state t = OPEN \<and> adopted t = adopted p \<or> restarts p t))"
    unfolding handleStat_def call_ext_def Let_def by (auto simp: parts s split: prod.split lrc.split)
  show "post (handleOpen E p) (advances (\<lambda>t. poll_state t = READ \<and> adopted t = adopted p))"
    unfolding handleOpen_def call_ext_def by (auto simp: parts s split: prod.split lptr.split)
  show "post (handleClose E p) (advances (\<lambda>_. False))"
    by (simp add: handleClose_def parts split: prod.split)
qed

lemma finishConnect_loggedin [simp]:
  "poll_loggedin (finishConnectUnlocked E p) = poll_loggedin (p :: ('w, 'm) pst)" "poll_loggedin (agent_reset E p) = poll_loggedin p"
  by (simp_all add: finishConnectUnlocked_def run_ext_def agent_reset_def Ssh2AgentHelper_reset_def Let_def split: option.split)

lemma auth_finish_advance: "post (auth_finish E p) (advances (\<lambda>t. poll_state t = SFTP_INIT \<and> poll_loggedin t))"
  by (simp add: auth_finish_def ends_advance) (simp add: advances_def Let_def)

lemma handleAuth_advance: "post (handleAuth E p) (advances (\<lambda>t. poll_state t = SFTP_INIT \<and> poll_loggedin t))"
proof (rule post_I)
  fix r t
  let ?Q = "advances (\<lambda>t. poll_state t = SFTP_INIT \<and> poll_loggedin t)"
  assume ret: "handleAuth E p = Some (r, t)"
  let ?P = "\<lambda>(E :: ('a, 'b) penv) (p :: ('a, 'b) pst) y. ?Q (fst y) (snd y)"
  have i: "post (getSessionPollInfo E p) ?Q" "post (end_stage E d p) ?Q" for E :: "('a, 'b) penv" and p d
    by (rule ends_advance)+
  note i' = post_D [OF i(1)] post_D [OF i(2)] post_D [OF auth_finish_advance]
  have "?P E p (r, t)"
  proof (rule handleAuth.raw_induct [where P = ?P, OF _ ret], goal_cases)
    case (1 f E' p' y)
    then show ?case
      by (cases y) (auto split: if_splits list.splits prod.splits elim!: bind_SomeE dest!: i')
  qed
  then show "?Q r t" by simp
qed

lemma handleRead_advance: "post (handleRead E p) (advances (\<lambda>t. poll_state t = CLOSE \<and> adopted t = adopted p))"
proof (rule post_I)
  fix r t
  assume ret: "handleRead E p = Some (r, t)"
  let ?P = "\<lambda>(E :: ('a, 'b) penv) (p :: ('a, 'b) pst) y. advances (\<lambda>t. poll_state t = CLOSE \<and> adopted t = adopted p) (fst y) (snd y)"
  have "?P E p (r, t)"
  proof (rule handleRead.raw_induct [where P = ?P, OF _ ret], goal_cases)
    case (1 f E' p' y)
    have ends: "getSessionPollInfo E' q = Some y \<Longrightarrow> ?P E' p' y" "session_error E' d q = Some y \<Longrightarrow> ?P E' p' y"
      "end_stage E' d q = Some y \<Longrightarrow> ?P E' p' y" for q d
      using post_D [OF ends_advance(3)] post_D [OF ends_advance(4)] post_D [OF ends_advance(1)] by (cases y; simp; blast)+
    have fin: "read_finish q = Some y \<Longrightarrow> adopted q = adopted p' \<Longrightarrow> ?P E' p' y" for q
      by (auto simp: read_finish_def advances_def)
    have rec: "f E' q = Some y \<Longrightarrow> adopted q = adopted p' \<Longrightarrow> ?P E' p' y" for q
      using 1(1) [of E' q y] by simp
    show ?case
      using 1(2) ends fin rec
      by (auto simp: call_ext_def use_handle_def Let_def qore_check_cancel_def raise_def split: if_splits rd.splits prod.splits)
  qed
  then show "advances (\<lambda>t. poll_state t = CLOSE \<and> adopted t = adopted p) r t" by simp
qed

definition poll_terminating :: "('w \<Rightarrow> nat) \<Rightarrow> nat \<Rightarrow> ('w, 'm) penv \<Rightarrow> bool" where
  "poll_terminating m k E \<longleftrightarrow> sftp_settling m E \<and> agent_finite k E \<and> bounded_reads E \<and> callbacks_neutral E"

lemma terminatingD:
  assumes "poll_terminating m k E"
  shows "sftp_settling m E" "agent_finite k E" "bounded_reads E" "callbacks_neutral E"
  using assms by (simp_all add: poll_terminating_def)

text \<open>
  The contract of the handler of a stage: it keeps the invariant, it returns, and when it
  neither waits nor ends the operation, the operation is in a later stage.
\<close>

locale poll_stage =
  fixes st :: SftpPollState
    and h :: "('w, 'm) penv \<Rightarrow> ('w, 'm) pst \<Rightarrow> (poll_info option \<times> ('w, 'm) pst) option"
  assumes keeps: "running_ok E p \<Longrightarrow> poll_state p = st \<Longrightarrow> callbacks_neutral E \<Longrightarrow> post (h E p) (stage_post E p)"
    and halts: "poll_terminating m k E \<Longrightarrow> running_ok E p \<Longrightarrow> poll_state p = st \<Longrightarrow> returns (h E p)"
    and advance: "running_ok E p \<Longrightarrow> poll_state p = st \<Longrightarrow> running_ok E t \<Longrightarrow> h E p = Some (None, t) \<Longrightarrow> poll_rank t < poll_rank p"
begin

lemma total:
  assumes "poll_terminating m k E" "running_ok E p" "poll_state p = st"
  shows "\<exists>r t. h E p = Some (r, t) \<and> stage_post E p r t \<and>
    (r = None \<and> \<not> ended t \<longrightarrow> running_ok E t \<and> poll_rank t < poll_rank p)"
proof -
  obtain r t where c: "h E p = Some (r, t)" using halts [OF assms] unfolding returns_def by blast
  have s: "stage_post E p r t" by (rule post_D [OF keeps [OF assms(2,3) terminatingD(4) [OF assms(1)]] c])
  moreover from s have "\<not> ended t \<Longrightarrow> running_ok E t" by (simp add: stage_post_def)
  ultimately show ?thesis using c advance [OF assms(2,3)] by blast
qed

end

lemma advanced: "post m (advances Q) \<Longrightarrow> m = Some (None, t) \<Longrightarrow> running_ok E t \<Longrightarrow> Q t"
  using running_not_ended [of E t] by (auto simp: post_def advances_def)

lemma rank_login:
  "running_ok E p \<Longrightarrow> poll_state p \<in> {CONNECTING, HANDSHAKE, AUTHLIST, AUTH} \<Longrightarrow> poll_rank p = stage_left (poll_state p)"
  by (auto simp: poll_rank_def running_ok_def stage_ok_def login_ok_def)

lemma rank_restart: "restarts p t \<Longrightarrow> poll_state p \<noteq> START \<Longrightarrow> poll_rank t < poll_rank p"
  by (simp add: restarts_def poll_rank_def adopted_def)

lemma rank_sftp:
  "poll_state p \<noteq> START \<Longrightarrow> poll_state t \<noteq> START \<Longrightarrow> adopted t = adopted p \<Longrightarrow> stage_left (poll_state t) < stage_left (poll_state p)
     \<Longrightarrow> poll_rank t < poll_rank p"
  by (simp add: poll_rank_def)

interpretation start_stage: poll_stage START handleStart
proof unfold_locales
  fix E :: "('a, 'b) penv" and p t
  assume p: "running_ok E p" "poll_state p = START" and t: "running_ok E t" "handleStart E p = Some (None, t)"
  have "if ssh_session p then poll_state t \<in> {STAT, SFTP_INIT} else poll_state t = CONNECTING"
    by (rule advanced [OF handleStart_advance t(2,1)])
  moreover have "reconnect_attempted p \<longrightarrow> \<not> ssh_session p" using p by (simp add: running_ok_def stage_ok_def)
  ultimately show "poll_rank t < poll_rank p"
    using p(2) rank_login [OF t(1)] by (auto simp: poll_rank_def split: if_splits)
qed (simp_all add: handleStart_post handlers_return(1) [OF terminatingD(1)])

interpretation connecting_stage: poll_stage CONNECTING handleConnecting
proof unfold_locales
  fix E :: "('a, 'b) penv" and p t
  assume p: "running_ok E p" "poll_state p = CONNECTING" and t: "running_ok E t" "handleConnecting E p = Some (None, t)"
  from advanced [OF handlers_advance(1) t(2,1)] rank_login [OF p(1)] rank_login [OF t(1)] p(2)
  show "poll_rank t < poll_rank p" by simp
qed (simp_all add: handleConnecting_post handlers_return(2) [OF terminatingD(1)])

interpretation handshake_stage: poll_stage HANDSHAKE handleHandshake
proof unfold_locales
  fix E :: "('a, 'b) penv" and p t
  assume p: "running_ok E p" "poll_state p = HANDSHAKE" and t: "running_ok E t" "handleHandshake E p = Some (None, t)"
  from advanced [OF handlers_advance(2) t(2,1)] rank_login [OF p(1)] rank_login [OF t(1)] p(2)
  show "poll_rank t < poll_rank p" by simp
qed (simp_all add: handleHandshake_post handlers_return(3) [OF terminatingD(1)])

interpretation authlist_stage: poll_stage AUTHLIST handleAuthList
proof unfold_locales
  fix E :: "('a, 'b) penv" and p t
  assume p: "running_ok E p" "poll_state p = AUTHLIST" and t: "running_ok E t" "handleAuthList E p = Some (None, t)"
  from advanced [OF handlers_advance(3) t(2,1)] rank_login [OF p(1)] rank_login [OF t(1)] p(2)
  show "poll_rank t < poll_rank p" by simp
qed (simp_all add: handleAuthList_post handlers_return(4) [OF terminatingD(1)])

interpretation auth_stage: poll_stage AUTH handleAuth
proof unfold_locales
  fix E :: "('a, 'b) penv" and p t
  assume p: "running_ok E p" "poll_state p = AUTH" and t: "running_ok E t" "handleAuth E p = Some (None, t)"
  have "poll_state t = SFTP_INIT \<and> poll_loggedin t" by (rule advanced [OF handleAuth_advance t(2,1)])
  then have "poll_rank t = 5" using t(1) by (auto simp: poll_rank_def running_ok_def stage_ok_def session_ok_def)
  with rank_login [OF p(1)] p(2) show "poll_rank t < poll_rank p" by simp
next
  fix m k E and p :: "('a, 'b) pst"
  assume E: "poll_terminating m k E" and p: "running_ok E p" "poll_state p = AUTH"
  from handleAuth_returns [OF terminatingD(1,2,4) [OF E]] p show "returns (handleAuth E p)" by (simp add: auth_ok_def)
qed (simp add: handleAuth_post auth_ok_def)

interpretation init_stage: poll_stage SFTP_INIT handleSftpInit
proof unfold_locales
  fix E :: "('a, 'b) penv" and p t
  assume p: "running_ok E p" "poll_state p = SFTP_INIT" and t: "running_ok E t" "handleSftpInit E p = Some (None, t)"
  from advanced [OF handlers_advance(4) t(2,1)] show "poll_rank t < poll_rank p"
    by (elim disjE) (use p(2) in \<open>auto intro: rank_sftp rank_restart\<close>)
qed (simp_all add: handleSftpInit_post handlers_return(5) [OF terminatingD(1)])

interpretation realpath_stage: poll_stage REALPATH handleRealPath
proof unfold_locales
  fix E :: "('a, 'b) penv" and p t
  assume p: "running_ok E p" "poll_state p = REALPATH" and t: "running_ok E t" "handleRealPath E p = Some (None, t)"
  from advanced [OF handlers_advance(5) t(2,1)] p(2) show "poll_rank t < poll_rank p" by (auto intro: rank_sftp)
qed (simp_all add: handleRealPath_post handlers_return(6) [OF terminatingD(1)])

interpretation stat_stage: poll_stage STAT handleStat
proof unfold_locales
  fix E :: "('a, 'b) penv" and p t
  assume p: "running_ok E p" "poll_state p = STAT" and t: "running_ok E t" "handleStat E p = Some (None, t)"
  from advanced [OF handlers_advance(6) t(2,1)] show "poll_rank t < poll_rank p"
    by (elim disjE) (use p(2) in \<open>auto intro: rank_sftp rank_restart\<close>)
qed (simp_all add: handleStat_post handlers_return(7) [OF terminatingD(1)])

interpretation open_stage: poll_stage OPEN handleOpen
proof unfold_locales
  fix E :: "('a, 'b) penv" and p t
  assume p: "running_ok E p" "poll_state p = OPEN" and t: "running_ok E t" "handleOpen E p = Some (None, t)"
  from advanced [OF handlers_advance(7) t(2,1)] p(2) show "poll_rank t < poll_rank p" by (auto intro: rank_sftp)
qed (simp_all add: handleOpen_post handlers_return(8) [OF terminatingD(1)])

interpretation read_stage: poll_stage READ handleRead
proof unfold_locales
  fix E :: "('a, 'b) penv" and p t
  assume p: "running_ok E p" "poll_state p = READ" and t: "running_ok E t" "handleRead E p = Some (None, t)"
  from advanced [OF handleRead_advance t(2,1)] p(2) show "poll_rank t < poll_rank p" by (auto intro: rank_sftp)
qed (simp_all add: handleRead_post handleRead_returns [OF terminatingD(1,3)])

interpretation close_stage: poll_stage CLOSE handleClose
proof unfold_locales
  fix E :: "('a, 'b) penv" and p t
  assume t: "running_ok E t" "handleClose E p = Some (None, t)"
  from advanced [OF handlers_advance(8) t(2,1)] show "poll_rank t < poll_rank p" by simp
qed (simp_all add: handleClose_post handlers_return(9) [OF terminatingD(1)])

lemmas stage_total = start_stage.total connecting_stage.total handshake_stage.total authlist_stage.total auth_stage.total
  init_stage.total realpath_stage.total stat_stage.total open_stage.total read_stage.total close_stage.total

lemma handle_stage_total:
  assumes "poll_terminating m k E" "running_ok E p"
  shows "\<exists>r t. handle_stage E p = Some (r, t) \<and> stage_post E p r t \<and>
    (r = None \<and> \<not> ended t \<longrightarrow> running_ok E t \<and> poll_rank t < poll_rank p)"
  using stage_total [OF assms] running_not_ended [OF assms(2)]
  by (simp add: handle_stage_def ended_def split: SftpPollState.split)

lemma stage_progress:
  assumes "poll_terminating m k E" "running_ok E p" "handle_stage E p = Some (None, t)" "\<not> ended t"
  shows "running_ok E t" "poll_rank t < poll_rank p"
  using handle_stage_total [OF assms(1,2)] assms(3,4) by auto

lemma continuePollIntern_returns:
  assumes "poll_terminating m k E" "running_ok E p"
  shows "returns (continuePollIntern E p)"
  using assms(2)
proof (induction "poll_rank p" arbitrary: p rule: less_induct)
  case less
  have "returns (continuePollIntern E t)" if h: "handle_stage E p = Some (None, t)" for t
  proof (cases "ended t")
    case True
    then show ?thesis by (subst continuePollIntern.simps) simp
  next
    case False
    from less(1) stage_progress [OF assms(1) less(2) h False] show ?thesis by blast
  qed
  moreover obtain r t where "handle_stage E p = Some (r, t)" using handle_stage_total [OF assms(1) less(2)] by blast
  ultimately show ?case by (subst continuePollIntern.simps) (cases r; simp)
qed

lemma continuePoll_halts:
  assumes "poll_terminating m k E" "running_ok E p \<or> ended p"
  shows "returns (continuePoll E p)"
proof -
  obtain b t where c: "qore_check_cancel E p = (b, t)" by fastforce
  have "running_ok E t" if "\<not> b" "\<not> ended p"
    using running_io [OF check_cancel_io(1) [OF c that(1)]] assms(2) that by blast
  with c show ?thesis
    using continuePollIntern_returns [OF assms(1)] haltsD [OF halts_end_stage [of m E]] assms(1)
    by (auto simp: continuePoll_def poll_terminating_def)
qed

end
