(* ===== verification/Sftp_Poll_Fetch.thy ===== *)
theory Sftp_Poll_Fetch
  imports Sftp_Poll_Live "HOL-Library.Sublist"
begin

text \<open>
  The poll operation as a refinement of an abstract retrieval: the data it collects is always a
  prefix of the remote file, and it hands over the whole file or nothing.
\<close>

section \<open>The abstract operation\<close>

text \<open>
  What the program that drives the operation sees: data that is still incomplete, the whole
  file, or a failure. The data only ever grows along the file, and it is handed over only when
  it is the whole file.
\<close>

datatype fetch = Pending string | Fetched string | Failed

inductive fetch_step :: "string \<Rightarrow> fetch \<Rightarrow> fetch \<Rightarrow> bool" for content where
  fetch_more: "prefix d d' \<Longrightarrow> prefix d' content \<Longrightarrow> fetch_step content (Pending d) (Pending d')"
| fetch_done: "prefix d content \<Longrightarrow> fetch_step content (Pending d) (Fetched content)"
| fetch_fail: "fetch_step content (Pending d) Failed"
| fetch_over: "fetch_step content (Fetched content) (Fetched content)"
| fetch_over_failed: "fetch_step content Failed Failed"

definition abs_fetch :: "('w, 'm) pst \<Rightarrow> fetch" where
  "abs_fetch p = (case poll_state p of
       READ \<Rightarrow> Pending (poll_data p) | CLOSE \<Rightarrow> Pending (poll_data p)
     | DONE \<Rightarrow> Fetched (poll_data p) | CLOSED \<Rightarrow> Failed | _ \<Rightarrow> Pending [])"

text \<open>The name of the remote file, and a server as a function from names to contents.\<close>

definition target :: "('w, 'm) pst \<Rightarrow> string" where
  "target p = absolute_filename (sftppath p) (Some (poll_path p))"

definition serves :: "('w \<Rightarrow> string) \<Rightarrow> ('w, 's) env \<Rightarrow> (string \<Rightarrow> string) \<Rightarrow> bool" where
  "serves rem E content \<longleftrightarrow> (\<forall>f. serves_file rem E f (content f))"

definition data_ok :: "('w \<Rightarrow> string) \<Rightarrow> (string \<Rightarrow> string) \<Rightarrow> ('w, 'm) pst \<Rightarrow> bool" where
  "data_ok rem content p = (case poll_state p of
       OPEN \<Rightarrow> abs_path p = target p \<and> bytes_read p = 0 \<and> poll_data p = [] \<and> unat (file_size p) = length (content (target p))
     | READ \<Rightarrow> abs_path p = target p \<and> unat (file_size p) = length (content (target p))
         \<and> unat (bytes_read p) = length (poll_data p) \<and> content (target p) = poll_data p @ rem (world p)
     | CLOSE \<Rightarrow> poll_data p = content (target p)
     | DONE \<Rightarrow> poll_data p = content (target p)
     | CLOSED \<Rightarrow> True
     | STAT \<Rightarrow> (abs_path p = [] \<or> abs_path p = target p) \<and> bytes_read p = 0 \<and> poll_data p = []
     | _ \<Rightarrow> abs_path p = [] \<and> bytes_read p = 0 \<and> poll_data p = [])"

text \<open>Up to the first use of the session, the part about the file is empty.\<close>

definition untouched :: "('w, 'm) pst \<Rightarrow> bool" where
  "untouched p \<longleftrightarrow> data_part p = ([], [], 0)"

lemma data_ok_early: 
  "poll_state p \<in> {START, CONNECTING, HANDSHAKE, AUTHLIST, AUTH, SFTP_INIT, REALPATH} \<Longrightarrow> data_ok rem content p = untouched p"
  by (auto simp: data_ok_def untouched_def data_part_def)

lemma untouched_ok: "untouched p \<Longrightarrow> early p \<Longrightarrow> data_ok rem content p"
  by (auto simp: data_ok_def untouched_def data_part_def early_def split: SftpPollState.split)

lemma kept_ok: "data_kept p r t \<Longrightarrow> untouched p \<Longrightarrow> data_ok rem content t"
  using untouched_ok [of t] by (auto simp: data_kept_def untouched_def data_ok_def)

lemma data_ok_world:
  "poll_state p \<noteq> READ \<or> rem w = rem (world p) \<Longrightarrow> data_ok rem content (p\<lparr>world := w\<rparr>) = data_ok rem content p"
  "data_ok rem content (p\<lparr>poll_fd := fd\<rparr>) = data_ok rem content p"
  "data_ok rem content (p\<lparr>xsink := e\<rparr>) = data_ok rem content p"
  by (auto simp: data_ok_def target_def cong: SftpPollState.case_cong)

lemma poll_state_raise [simp]: "poll_state (raise x c p) = poll_state p"
  by (simp add: raise_def)

lemma ends_data:
  assumes "poll_state p \<noteq> DONE"
  shows "post (end_stage E d p) (\<lambda>_. data_ok rem content)"
  by (rule post_mono [OF end_stage_frame]) (use assms in \<open>simp add: data_ok_def\<close>)

lemma waits_data:
  assumes "poll_state p \<noteq> DONE" "data_ok rem content p"
  shows "post (getPollInfo E fd ev ex tm p) (\<lambda>_. data_ok rem content)"
    "post (getSessionPollInfo E p) (\<lambda>_. data_ok rem content)"
proof -
  show w: "post (getPollInfo E fd ev ex tm p) (\<lambda>_. data_ok rem content)" for fd ev ex tm
    using assms by (auto simp: getPollInfo_def Let_def data_ok_world raise_def ends_data)
  show "post (getSessionPollInfo E p) (\<lambda>_. data_ok rem content)"
    using w by (simp add: getSessionPollInfo_def split: prod.split)
qed

lemma session_error_data:
  assumes "poll_state p \<noteq> DONE"
  shows "post (session_error E d p) (\<lambda>_. data_ok rem content)"
  unfolding session_error_def
proof (rule post_bindI [OF sessionErr_cases], simp only: prod.case)
  fix t
  assume "xsink t \<noteq> [] \<and> (io_step True p t \<or> io_step True (disc_state p) t)"
  then have "poll_state t = poll_state p"
    using core_eq_poll(4) [OF io_step_core, of True p t] core_eq_poll(4) [OF io_step_core, of True "disc_state p" t] by auto
  with assms show "post (end_stage E d t) (\<lambda>_. data_ok rem content)" by (intro ends_data) simp
qed

lemma retry_or_fail_data:
  assumes "poll_state p \<noteq> DONE"
  shows "post (retry_or_fail E d p) (\<lambda>_. data_ok rem content)"
proof -
  have "post (retryAfterConnectionLoss E p) (\<lambda>b t. if b then data_ok rem content t else t = p)"
    unfolding retryAfterConnectionLoss_def by (auto intro!: post_I simp: data_ok_def)
  then show ?thesis
    unfolding retry_or_fail_def post_bind by (rule post_mono) (use session_error_data [OF assms] in auto)
qed

lemma handleStart_data:
  assumes "poll_state p = START" "untouched p"
  shows "post (handleStart E p) (\<lambda>_. data_ok rem content)"
proof (cases "ssh_session p")
  case True
  let ?p = "p\<lparr>reused_session := True, poll_state := (if sftp_session p then STAT else SFTP_INIT)\<rparr>"
  obtain rc t where f: "setFdNonBlocking E (getSocket ?p) True ?p = (rc, t)" by fastforce
  have "stage_data t = stage_data ?p" by (rule stage_data_io [OF setFdNonBlocking_io [OF f]])
  then have t: "poll_state t \<in> {STAT, SFTP_INIT}" "untouched t"
    using assms(2) by (auto simp: stage_data_def untouched_def data_part_def)
  then have "data_ok rem content ((setBlockingUnlocked False t)\<lparr>restore_session_blocking := True\<rparr>)"
    by (intro untouched_ok) (auto simp: untouched_def early_def data_part_def setBlockingUnlocked_def)
  moreover have "post (end_stage E False (raise True c t)) (\<lambda>_. data_ok rem content)" for c
    by (rule ends_data) (use t in \<open>auto simp: raise_def\<close>)
  ultimately show ?thesis using True f by (simp add: handleStart_def Let_def)
next
  case False
  show ?thesis
    unfolding handleStart_def if_not_P [OF False]
  proof (rule post_bindI [OF preconditions_post [OF False]], simp only: prod.case)
    fix rc :: int and t
    assume pre: "if rc = 0 then io_step False p t else io_step True p t \<and> xsink t \<noteq> []"
    then have "stage_data t = stage_data p" using stage_data_io by (cases "rc = 0") auto
    then have t: "poll_state t = START" "untouched t" using assms by (simp_all add: stage_data_def untouched_def)
    define q where "q = startConnect E (connect_target t) t"
    have q: "poll_state q = START" "data_part q = data_part t"
      using t by (auto simp: q_def startConnect_def call_ext_def Let_def raise_def data_part_def split: prod.split sum.split)
    have "data_ok rem content (q\<lparr>poll_state := CONNECTING\<rparr>)"
      by (rule untouched_ok) (use q t in \<open>simp_all add: untouched_def early_def\<close>)
    moreover have "post (end_stage E True q) (\<lambda>_. data_ok rem content)" "post (end_stage E True (raise True c q)) (\<lambda>_. data_ok rem content)"
      "post (end_stage E False t) (\<lambda>_. data_ok rem content)" for c
      by (rule ends_data, simp add: q t raise_def)+
    ultimately show "post (if rc \<noteq> 0 then end_stage E False t
             else let p = startConnect E (connect_target t) t
                  in if xsink p \<noteq> [] \<or> \<not> connect_state p
                     then end_stage E True (if xsink p = [] then raise True ''SSH2CLIENT-CONNECT-ERROR'' p else p)
                     else Some (None, p\<lparr>poll_state := CONNECTING\<rparr>)) (\<lambda>_. data_ok rem content)"
      by (simp add: q_def [symmetric])
  qed
qed

lemma untouched_upd [simp]:
  "untouched (p\<lparr>world := w\<rparr>) = untouched p" "untouched (p\<lparr>sock := k\<rparr>) = untouched p" "untouched (p\<lparr>connect_state := b\<rparr>) = untouched p"
  "untouched (p\<lparr>session_fd_hold := b\<rparr>) = untouched p" "untouched (p\<lparr>ssh_session := b\<rparr>) = untouched p"
  "untouched (p\<lparr>session_blocking := b\<rparr>) = untouched p" "untouched (p\<lparr>restore_session_blocking := b\<rparr>) = untouched p"
  "untouched (p\<lparr>poll_state := a\<rparr>) = untouched p" "untouched (p\<lparr>auth_queue := q\<rparr>) = untouched p"
  "untouched (p\<lparr>auth_methods := m\<rparr>) = untouched p" "untouched (p\<lparr>sftp_session := b\<rparr>) = untouched p"
  "untouched (p\<lparr>sftppath := n\<rparr>) = untouched p" "untouched (raise x c p) = untouched p"
  by (simp_all add: untouched_def data_part_def raise_def)

lemma untouched_core: "core t = core p \<Longrightarrow> untouched t = untouched p"
  using data_part_core unfolding untouched_def by metis

lemma connected_socket_data:
  assumes "poll_state p = CONNECTING" "untouched p"
  shows "post (connected_socket E p) (\<lambda>_. data_ok rem content)"
proof -
  obtain rc q where h: "holdSessionDescriptorUnlocked E p = (rc, q)" by fastforce
  have q: "poll_state q = CONNECTING" "untouched q"
    using h assms by (auto simp: holdSessionDescriptorUnlocked_def call_ext_def split: option.splits prod.splits if_splits)
  obtain rc2 t where f: "setFdNonBlocking E (getSocket q) True q = (rc2, t)" by fastforce
  have "stage_data t = stage_data q" by (rule stage_data_io [OF setFdNonBlocking_io [OF f]])
  then have t: "poll_state t = CONNECTING" "untouched t" using q by (simp_all add: stage_data_def untouched_def)
  have e: "post (end_stage E d u) (\<lambda>_. data_ok rem content)" if "poll_state u = CONNECTING" for d u
    by (rule ends_data) (simp add: that)
  have "post (prepareSessionUnlocked E t) (\<lambda>rc u. post (if rc \<noteq> 0 then end_stage E False u
      else Some (None, u\<lparr>restore_session_blocking := True, poll_state := HANDSHAKE\<rparr>)) (\<lambda>_. data_ok rem content))"
  proof (rule post_mono [OF prepareSession_post])
    fix rc :: int and u
    assume "rc = 0 \<and> xsink u = xsink t \<and> core u = core (t\<lparr>ssh_session := True, session_blocking := False\<rparr>)
      \<or> rc = -1 \<and> xsink u \<noteq> [] \<and> core u = core (disc_state t)"
    then consider "rc = 0" "core u = core (t\<lparr>ssh_session := True, session_blocking := False\<rparr>)"
      | "rc = -1" "core u = core (disc_state t)" by blast
    then show "post (if rc \<noteq> 0 then end_stage E False u
      else Some (None, u\<lparr>restore_session_blocking := True, poll_state := HANDSHAKE\<rparr>)) (\<lambda>_. data_ok rem content)"
    proof cases
      case 1
      then show ?thesis using untouched_core [OF 1(2)] t by (auto intro!: untouched_ok simp: early_def)
    next
      case 2
      then show ?thesis using core_eq_poll(4) [OF 2(2)] t e by simp
    qed
  qed
  with h f q t e [of "raise True c t" for c] e [of q] show ?thesis by (simp add: connected_socket_def raise_def)
qed

lemma handleConnecting_data:
  assumes "poll_state p = CONNECTING" "untouched p"
  shows "post (handleConnecting E p) (\<lambda>_. data_ok rem content)"
proof -
  obtain r w where c: "continue_connect E (world p) = (r, w)" by fastforce
  let ?q = "p\<lparr>world := w, sock := connect_fd E w\<rparr>"
  have "data_ok rem content ?q" by (rule untouched_ok) (use assms in \<open>simp_all add: early_def\<close>)
  then have "post (getPollInfo E fd ev ex tm ?q) (\<lambda>_. data_ok rem content)" for fd ev ex tm
    by (intro waits_data) (use assms in simp_all)
  moreover have "post (end_stage E True ?q) (\<lambda>_. data_ok rem content)" "post (end_stage E True (raise True e ?q)) (\<lambda>_. data_ok rem content)" for e
    by (rule ends_data, simp add: assms raise_def)+
  moreover have "post (connected_socket E (?q\<lparr>connect_state := False\<rparr>)) (\<lambda>_. data_ok rem content)"
    by (rule connected_socket_data) (use assms in simp_all)
  ultimately show ?thesis by (auto simp: handleConnecting_def call_ext_def c Let_def split: sum.split)
qed

lemma handleHandshake_data:
  assumes "running_ok E p" "poll_state p = HANDSHAKE" "untouched p" "callbacks_neutral E"
  shows "post (handleHandshake E p) (\<lambda>_. data_ok rem content)"
proof -
  obtain rc q where s: "startupUnlocked E p = (rc, q)" by fastforce
  have io: "io_step False p q" by (rule startup_io [OF s])
  note c = io_step_core [OF io]
  have q: "poll_state q = HANDSHAKE" "untouched q" "xsink q = []" "\<not> nh_live q"
    using assms core_eq_poll(4) [OF c] untouched_core [OF c] running_io [OF io assms(1)] conn_inv_nh [of q]
    by (simp_all add: running_ok_def stage_ok_def login_ok_def)
  have "post (verifyHostKeyUnlocked E (poll_timeout q) q) (\<lambda>rc t. post (if rc \<noteq> 0 then end_stage E False t
      else Some (None, t\<lparr>poll_state := AUTHLIST\<rparr>)) (\<lambda>_. data_ok rem content))"
  proof (rule post_mono [OF verifyHostKey_post [OF q(4) assms(4) q(3)]])
    fix rc t
    assume "verify_outcome q rc t"
    then consider "rc = 0" "core t = core q" | "rc = -1" "core t = core (disc_state q)" by (auto simp: verify_outcome_def)
    then show "post (if rc \<noteq> 0 then end_stage E False t else Some (None, t\<lparr>poll_state := AUTHLIST\<rparr>)) (\<lambda>_. data_ok rem content)"
    proof cases
      case 1
      then show ?thesis using untouched_core [OF 1(2)] q by (auto intro!: untouched_ok simp: early_def)
    next
      case 2
      then show ?thesis using core_eq_poll(4) [OF 2(2)] q by (simp add: ends_data)
    qed
  qed
  moreover have "data_ok rem content q" by (rule untouched_ok) (use q in \<open>simp_all add: early_def\<close>)
  ultimately show ?thesis using q by (simp add: handleHandshake_def s waits_data ends_data raise_def)
qed

lemma handleAuthList_data:
  assumes "poll_state p = AUTHLIST" "untouched p"
  shows "post (handleAuthList E p) (\<lambda>_. data_ok rem content)"
proof -
  obtain l w where c: "userauth_list E (sshuser p) (world p) = (l, w)" by fastforce
  let ?q = "p\<lparr>world := w\<rparr>"
  have "data_ok rem content ?q" by (rule untouched_ok) (use assms in \<open>simp_all add: early_def\<close>)
  then have "post (getSessionPollInfo E ?q) (\<lambda>_. data_ok rem content)" by (intro waits_data) (use assms in simp_all)
  moreover obtain plan t where b: "buildAuthPlanUnlocked E (lptr_opt l) ?q = (plan, t)" by fastforce
  moreover have "data_ok rem content (t\<lparr>auth_queue := plan, poll_state := AUTH\<rparr>)"
    by (rule untouched_ok) (use b assms buildAuthPlan_state [of E "lptr_opt l" ?q] in \<open>auto simp: early_def\<close>)
  ultimately show ?thesis by (simp add: handleAuthList_def call_ext_def c)
qed

lemma handleSftpInit_data:
  assumes "poll_state p = SFTP_INIT" "untouched p"
  shows "post (handleSftpInit E p) (\<lambda>_. data_ok rem content)"
proof -
  have u: "data_ok rem content (p\<lparr>world := w, sftp_session := b, poll_state := a\<rparr>)" if "a \<in> {SFTP_INIT, REALPATH, STAT}" for w b a
    by (rule untouched_ok) (use assms that in \<open>auto simp: early_def\<close>)
  have "post (getSessionPollInfo E (p\<lparr>world := w, sftp_session := b\<rparr>)) (\<lambda>_. data_ok rem content)" for w b
    by (intro waits_data untouched_ok) (use assms in \<open>simp_all add: early_def\<close>)
  then show ?thesis
    using u assms(1) by (auto simp: handleSftpInit_def call_ext_def retry_or_fail_data split: prod.split lptr.split)
qed

lemma handleRealPath_data:
  assumes "poll_state p = REALPATH" "untouched p"
  shows "post (handleRealPath E p) (\<lambda>_. data_ok rem content)"
proof -
  have u: "data_ok rem content (p\<lparr>world := w, sftppath := n, poll_state := a\<rparr>)" "data_ok rem content (p\<lparr>world := w\<rparr>)"
    if "a \<in> {REALPATH, STAT}" for w n a
    by (rule untouched_ok; use assms that in \<open>auto simp: early_def\<close>)+
  have "post (getSessionPollInfo E (p\<lparr>world := w\<rparr>)) (\<lambda>_. data_ok rem content)" for w
    using u(2) [of STAT w] assms(1) by (intro waits_data) simp_all
  then show ?thesis
    using u(1) assms(1) by (auto simp: handleRealPath_def call_ext_def session_error_data split: prod.split rd.split list.split)
qed

lemma handleStat_data:
  assumes "poll_state p = STAT" "data_ok rem content p" "serves rem E content"
  shows "post (handleStat E p) (\<lambda>_. data_ok rem content)"
proof -
  define q where "q = (if abs_path p = [] then p\<lparr>abs_path := absolute_filename (sftppath p) (Some (poll_path p))\<rparr> else p)"
  have q: "abs_path q = target q" "poll_state q = STAT" "bytes_read q = 0" "poll_data q = []"
    using assms(1,2) by (auto simp: q_def data_ok_def target_def)
  obtain rc a w where c: "sftp_stat E (abs_path q) (world q) = ((rc, a), w)" by (metis prod.exhaust)
  have "serves_file rem E (target q) (content (target q))" using assms(3) by (simp add: serves_def)
  then have sz: "unat (att_filesize a) = length (content (target q))" if "rc = Ret n" "0 \<le> n" for n
    using c q(1) that unfolding serves_file_def by metis
  have "post (getSessionPollInfo E (q\<lparr>world := w\<rparr>)) (\<lambda>_. data_ok rem content)"
    by (rule waits_data) (use q in \<open>simp_all add: data_ok_def target_def\<close>)
  then show ?thesis
    using sz q unfolding handleStat_def call_ext_def Let_def q_def [symmetric] c prod.case
    by (cases rc) (auto simp: retry_or_fail_data data_ok_def target_def)
qed

lemma handleOpen_data:
  assumes "poll_state p = OPEN" "data_ok rem content p" "serves rem E content"
  shows "post (handleOpen E p) (\<lambda>_. data_ok rem content)"
proof -
  have p: "abs_path p = target p" "bytes_read p = 0" "poll_data p = []" "unat (file_size p) = length (content (target p))"
    using assms(1,2) by (simp_all add: data_ok_def)
  obtain r w where c: "sftp_open_read E (abs_path p) (file_permissions p) (world p) = (r, w)" by fastforce
  have "serves_file rem E (target p) (content (target p))" using assms(3) by (simp add: serves_def)
  then have g: "rem w = content (target p)" if "r = Got ()"
    using c p(1) that unfolding serves_file_def by metis
  have "post (getSessionPollInfo E (p\<lparr>world := w, sftp_handle := False\<rparr>)) (\<lambda>_. data_ok rem content)"
    by (rule waits_data) (use p assms(1) in \<open>simp_all add: data_ok_def target_def\<close>)
  then show ?thesis
    using g p assms(1) unfolding handleOpen_def call_ext_def c
    by (cases r) (auto simp: session_error_data data_ok_def target_def)
qed

text \<open>What the caller could have seen of the file so far only grows.\<close>

definition seen :: "('w, 'm) pst \<Rightarrow> string" where
  "seen p = (if poll_state p \<in> {READ, CLOSE, DONE} then poll_data p else [])"

definition grows :: "('w \<Rightarrow> string) \<Rightarrow> (string \<Rightarrow> string) \<Rightarrow> ('w, 'm) pst \<Rightarrow> 'r \<Rightarrow> ('w, 'm) pst \<Rightarrow> bool" where
  "grows rem content p r t \<longleftrightarrow> data_ok rem content t \<and> (poll_state t = CLOSED \<or> prefix (seen p) (seen t))"

lemma wait_grows:
  assumes "poll_state q \<noteq> DONE" "data_ok rem content q" "prefix (seen p) (seen q)"
  shows "post (getSessionPollInfo E q) (grows rem content p)"
proof -
  have e: "post (end_stage E True u) (grows rem content p)" if "poll_state u \<noteq> DONE" for u
    by (rule post_mono [OF end_stage_frame]) (use that in \<open>simp add: grows_def data_ok_def\<close>)
  show ?thesis
    using assms e by (auto simp: getSessionPollInfo_def getPollInfo_def Let_def grows_def data_ok_world seen_def split: prod.split)
qed

lemma handleClose_data:
  assumes "poll_state p = CLOSE" "data_ok rem content p"
  shows "post (handleClose E p) (grows rem content p)"
proof -
  have p: "poll_data p = content (target p)" using assms by (simp add: data_ok_def)
  obtain r w where c: "sftp_close_handle E (world p) = (r, w)" by fastforce
  let ?q = "p\<lparr>handle_misused := handle_misused p \<or> \<not> sftp_session p, world := w\<rparr>"
  have q: "data_ok rem content ?q" using p assms(1) by (simp add: data_ok_def target_def)
  have "post (getSessionPollInfo E ?q) (grows rem content p)"
    by (rule wait_grows) (use q assms(1) in \<open>simp_all add: seen_def\<close>)
  moreover have "post (end_stage E False (?q\<lparr>sftp_handle := False, poll_state := DONE\<rparr>)) (grows rem content p)"
    by (rule post_mono [OF end_stage_frame]) (use p assms(1) in \<open>simp add: data_ok_def target_def grows_def seen_def\<close>)
  ultimately show ?thesis
    unfolding handleClose_def call_ext_def use_handle_def using c by simp
qed

text \<open>The reading: what has been read and what the server still holds are always the whole file.\<close>

lemma read_block_data:
  assumes p: "poll_state p = READ" "data_ok rem content p" "bytes_read p < file_size p" and E: "reads_file rem E"
    and r: "sftp_read E (unat (file_size p - bytes_read p)) (world p) = (RdData d, w)"
    and t: "t = p\<lparr>handle_misused := b, world := w', poll_data := take (unat (bytes_read p)) (poll_data p) @ d,
      bytes_read := bytes_read p + of_nat (length d), read_calls := c\<rparr>" "rem w' = rem w"
  shows "d \<noteq> []" "data_ok rem content t" "unat (file_size t - bytes_read t) < unat (file_size p - bytes_read p)"
    "prefix (seen p) (seen t)"
proof -
  have sz: "unat (file_size p) = length (content (target p))" "unat (bytes_read p) = length (poll_data p)"
    "content (target p) = poll_data p @ rem (world p)" "abs_path p = target p" using p by (simp_all add: data_ok_def)
  have n: "unat (file_size p - bytes_read p) = length (rem (world p))"
    using p(3) sz by (simp add: unat_sub word_less_nat_alt word_le_nat_alt)
  have pos: "0 < unat (file_size p - bytes_read p)" using n sz p(3) by (simp add: word_less_nat_alt)
  have d: "length d \<le> unat (file_size p - bytes_read p)" "rem (world p) = d @ rem w" "d \<noteq> []"
  proof -
    have "rem (world p) \<noteq> []" using pos n by (metis less_nat_zero_code list.size(3))
    then show "length d \<le> unat (file_size p - bytes_read p)" "rem (world p) = d @ rem w" "d \<noteq> []"
      using reads_fileD(2) [OF E r refl] pos by blast+
  qed
  show "d \<noteq> []" by (rule d(3))
  have l: "length (poll_data p) + length d \<le> unat (file_size p)" using sz d(2) by simp
  have u: "unat (bytes_read p + of_nat (length d)) = length (poll_data p) + length d"
    using l sz(2) unsigned_less [of "file_size p", where 'a = nat]
    by (simp add: unat_word_ariths unat_of_nat take_bit_nat_eq_self)
  have pd: "poll_data t = poll_data p @ d" using t sz(2) by simp
  show "data_ok rem content t" using p(1) u sz d(2) t pd by (simp add: data_ok_def target_def)
  show "unat (file_size t - bytes_read t) < unat (file_size p - bytes_read p)"
    using word_progress [OF p(3) _ d(1)] d(3) t by simp
  show "prefix (seen p) (seen t)" using pd t p(1) by (simp add: seen_def)
qed

lemma grows_trans:
  "post m (grows rem content q) \<Longrightarrow> prefix (seen p) (seen q) \<Longrightarrow> post m (grows rem content p)"
  by (auto simp: post_def grows_def)

lemma fail_grows: "poll_state q \<noteq> DONE \<Longrightarrow> post (end_stage E d q) (grows rem content p)"
  by (rule post_mono [OF end_stage_frame]) (simp add: grows_def data_ok_def)

lemma session_error_grows: 
  assumes "poll_state q \<noteq> DONE"
  shows "post (session_error E d q) (grows rem content p)"
  unfolding session_error_def
proof (rule post_bindI [OF sessionErr_cases], simp only: prod.case)
  fix t
  assume "xsink t \<noteq> [] \<and> (io_step True q t \<or> io_step True (disc_state q) t)"
  then have "poll_state t = poll_state q"
    using core_eq_poll(4) [OF io_step_core, of True q t] core_eq_poll(4) [OF io_step_core, of True "disc_state q" t] by auto
  with assms show "post (end_stage E d t) (grows rem content p)" by (intro fail_grows) simp
qed

lemma read_finish_grows:
  assumes "poll_state p = READ" "data_ok rem content p" "\<not> bytes_read p < file_size p"
  shows "post (read_finish p) (grows rem content p)"
proof -
  have sz: "unat (file_size p) = length (content (target p))" "unat (bytes_read p) = length (poll_data p)"
    "content (target p) = poll_data p @ rem (world p)" using assms(1,2) by (simp_all add: data_ok_def)
  moreover have "length (content (target p)) \<le> length (poll_data p)" using assms(3) sz by (simp add: word_less_nat_alt)
  ultimately have "poll_data p = content (target p)" by simp
  with sz assms(1) show ?thesis
    unfolding read_finish_def by (simp add: grows_def data_ok_def target_def seen_def)
qed

lemma handleRead_data:
  assumes E: "reads_file rem E"
  shows "poll_state p = READ \<Longrightarrow> data_ok rem content p \<Longrightarrow> post (handleRead E p) (grows rem content p)"
proof (induction "unat (file_size p - bytes_read p)" arbitrary: p rule: less_induct)
  case less
  show ?case
  proof (cases "bytes_read p < file_size p")
    case False
    with read_finish_grows [OF less(2,3)] show ?thesis by (subst handleRead.simps) simp
  next
    case True
    obtain r w where r: "sftp_read E (unat (file_size p - bytes_read p)) (world p) = (r, w)" by fastforce
    let ?q = "p\<lparr>handle_misused := handle_misused p \<or> \<not> sftp_session p, world := w\<rparr>"
    show ?thesis
    proof (cases r)
      case (RdData d)
      let ?t = "\<lambda>w'. p\<lparr>handle_misused := handle_misused p \<or> \<not> sftp_session p, world := w',
        poll_data := take (unat (bytes_read p)) (poll_data p) @ d, bytes_read := bytes_read p + of_nat (length d),
        read_calls := read_calls p + 1\<rparr>"
      note b = read_block_data [OF less(2,3) True E r [unfolded RdData] refl]
      have go: "post (handleRead E (?t w')) (grows rem content p)" if "rem w' = rem w" for w'
        by (rule grows_trans [OF less(1) [OF b(3) [OF that]] b(4) [OF that]]) (use less(2) b(2) [OF that] in simp_all)
      have eq: "p\<lparr>handle_misused := handle_misused p \<or> \<not> sftp_session p,
        poll_data := take (unat (bytes_read p)) (poll_data p) @ d, bytes_read := bytes_read p + of_nat (length d),
        read_calls := read_calls p + 1, world := w'\<rparr> = ?t w'" for w' by simp
      obtain c w' where c: "check_cancel E w = (c, w')" by fastforce
      have "rem w' = rem w" using E c unfolding reads_file_def waits_neutral_def by (metis snd_conv)
      moreover have "post (end_stage E True (raise True e (?t w'))) (grows rem content p)" for e w'
        by (rule fail_grows) (simp add: less(2))
      ultimately show ?thesis
        using True r RdData b(1) go c less(2)
        by (subst handleRead.simps) (auto simp: call_ext_def use_handle_def Let_def qore_check_cancel_def eq)
    next
      case RdEagain
      have "rem w = rem (world p)" using reads_fileD(1) [OF E r RdEagain] .
      then have "post (getSessionPollInfo E ?q) (grows rem content p)"
        using less(2,3) by (intro wait_grows) (simp_all add: data_ok_def target_def seen_def)
      with True r RdEagain show ?thesis by (subst handleRead.simps) (simp add: call_ext_def use_handle_def)
    next
      case (RdErr e)
      have "post (session_error E False ?q) (grows rem content p)" by (rule session_error_grows) (simp add: less(2))
      with True r RdErr show ?thesis by (subst handleRead.simps) (simp add: call_ext_def use_handle_def)
    qed
  qed
qed

lemma handle_stage_grows:
  assumes "poll_terminating m k E" "serves rem E content" "running_ok E p" "data_ok rem content p"
  shows "post (handle_stage E p) (grows rem content p)"
proof -
  have E: "sftp_settling m E" "agent_finite k E" "callbacks_neutral E" "reads_file rem E"
    using assms(1,2) by (simp_all add: poll_terminating_def serves_def serves_file_def)
  have early: "post f (grows rem content p)" if "post f (\<lambda>_. data_ok rem content)" "seen p = []" for f :: "(poll_info option \<times> _) option"
    using that by (auto simp: post_def grows_def)
  note u = assms(4) [unfolded data_ok_early]
  show ?thesis
  proof (cases "poll_state p")
    case START
    with assms(4) show ?thesis by (auto simp: handle_stage_def data_ok_early seen_def intro!: early handleStart_data)
  next
    case CONNECTING
    with assms(4) show ?thesis by (auto simp: handle_stage_def data_ok_early seen_def intro!: early handleConnecting_data)
  next
    case HANDSHAKE
    with assms(3,4) E(3) show ?thesis by (auto simp: handle_stage_def data_ok_early seen_def intro!: early handleHandshake_data)
  next
    case AUTHLIST
    with assms(4) show ?thesis by (auto simp: handle_stage_def data_ok_early seen_def intro!: early handleAuthList_data)
  next
    case AUTH
    have "post (handleAuth E p) (data_kept p)"
      using handleAuth_returns [OF E(1-3)] assms(3) AUTH by (simp add: auth_ok_def)
    then have "post (handleAuth E p) (\<lambda>_. data_ok rem content)"
      by (rule post_mono) (use assms(4) AUTH in \<open>auto simp: data_ok_early intro: kept_ok\<close>)
    with AUTH show ?thesis by (auto simp: handle_stage_def seen_def intro!: early)
  next
    case SFTP_INIT
    with assms(4) show ?thesis by (auto simp: handle_stage_def data_ok_early seen_def intro!: early handleSftpInit_data)
  next
    case REALPATH
    with assms(4) show ?thesis by (auto simp: handle_stage_def data_ok_early seen_def intro!: early handleRealPath_data)
  next
    case STAT
    with assms(2,4) show ?thesis by (auto simp: handle_stage_def seen_def intro!: early handleStat_data)
  next
    case OPEN
    with assms(2,4) show ?thesis by (auto simp: handle_stage_def seen_def intro!: early handleOpen_data)
  next
    case READ
    with assms(4) show ?thesis by (simp add: handle_stage_def handleRead_data [OF E(4)])
  next
    case CLOSE
    with assms(4) show ?thesis by (simp add: handle_stage_def handleClose_data)
  qed (use running_not_ended [OF assms(3)] in \<open>simp_all add: ended_def\<close>)
qed

lemma continuePollIntern_grows:
  assumes "poll_terminating m k E" "serves rem E content" "running_ok E p" "data_ok rem content p"
  shows "post (continuePollIntern E p) (grows rem content p)"
  using assms(3,4)
proof (induction "poll_rank p" arbitrary: p rule: less_induct)
  case less
  note g = handle_stage_grows [OF assms(1,2) less(2,3)]
  have "post (continuePollIntern E t) (grows rem content p)" if h: "handle_stage E p = Some (None, t)" for t
  proof (cases "ended t")
    case True
    with post_D [OF g h] show ?thesis by (subst continuePollIntern.simps) simp
  next
    case False
    with post_D [OF g h] have "data_ok rem content t" "prefix (seen p) (seen t)" by (auto simp: grows_def ended_def)
    with less(1) stage_progress [OF assms(1) less(2) h False] show ?thesis by (blast intro: grows_trans)
  qed
  with g running_not_ended [OF less(2)] show ?case
    by (subst continuePollIntern.simps) (cases "handle_stage E p"; auto simp: post_def split: if_splits)
qed

lemma continuePoll_grows:
  assumes "poll_terminating m k E" "serves rem E content" "running_ok E p" "data_ok rem content p"
  shows "post (continuePoll E p) (grows rem content p)"
proof -
  obtain b w where c: "check_cancel E (world p) = (b, w)" by fastforce
  have "reads_file rem E" using assms(2) by (simp add: serves_def serves_file_def)
  then have "rem w = rem (world p)" using c unfolding reads_file_def waits_neutral_def by (metis snd_conv)
  then have "data_ok rem content (p\<lparr>world := w\<rparr>)" using assms(4) by (simp add: data_ok_world)
  then have "post (continuePollIntern E (p\<lparr>world := w\<rparr>)) (grows rem content (p\<lparr>world := w\<rparr>))"
    by (rule continuePollIntern_grows [OF assms(1,2) running_io [OF io_step_world assms(3)]])
  then have "post (continuePollIntern E (p\<lparr>world := w\<rparr>)) (grows rem content p)"
    by (rule grows_trans) (simp add: seen_def)
  moreover have "post (end_stage E True (raise True e (p\<lparr>world := w\<rparr>))) (grows rem content p)" for e
    by (rule fail_grows) (use running_not_ended [OF assms(3)] in \<open>simp add: ended_def\<close>)
  ultimately show ?thesis
    using c running_not_ended [OF assms(3)] by (auto simp: continuePoll_def qore_check_cancel_def call_ext_def)
qed

lemma poll_run_data:
  assumes "poll_run rem E p0 p" "running_ok E p0" "poll_terminating m k E" "serves rem E content" "data_ok rem content p0"
  shows "data_ok rem content p"
  using assms(1)
proof induction
  case run_start
  show ?case by (rule assms(5))
next
  case (run_continue p r t)
  have cb: "callbacks_neutral E" using assms(3) by (simp add: poll_terminating_def)
  show ?case
  proof (cases "ended p")
    case True
    with run_continue show ?thesis by (simp add: continuePoll_def)
  next
    case False
    with poll_run_ok [OF run_continue(1) assms(2) cb] have "running_ok E p" by (simp add: run_ok_def)
    from post_D [OF continuePoll_grows [OF assms(3,4) this run_continue(3)] run_continue(2)] show ?thesis by (simp add: grows_def)
  qed
next
  case (run_abort p t)
  show ?case
  proof (cases "poll_state p = DONE \<or> poll_state p = CLOSED")
    case True
    with run_abort show ?thesis by (auto simp: poll_abort_def)
  next
    case False
    with run_abort(2) have "closeIntern E True p = Some ((), t)" by (simp add: poll_abort_def)
    from post_D [OF closeIntern_frame this] False show ?thesis by (simp add: data_ok_def)
  qed
next
  case (run_world p w)
  then show ?case by (simp add: data_ok_world)
qed

lemma seen_prefix: "data_ok rem content p \<Longrightarrow> prefix (seen p) (content (target p))"
  by (auto simp: data_ok_def seen_def split: SftpPollState.splits)

lemma grows_fetch_step:
  assumes "grows rem content p r t" "\<not> ended p"
  shows "fetch_step (content (target t)) (abs_fetch p) (abs_fetch t)"
proof -
  have p: "abs_fetch p = Pending (seen p)" using assms(2) by (auto simp: abs_fetch_def seen_def ended_def split: SftpPollState.split)
  have d: "data_ok rem content t" using assms(1) by (simp add: grows_def)
  consider "poll_state t = CLOSED" | "poll_state t = DONE" | "\<not> ended t" by (auto simp: ended_def)
  then show ?thesis
  proof cases
    case 1
    then show ?thesis unfolding p by (simp add: abs_fetch_def fetch_fail)
  next
    case 2
    then have "seen t = content (target t)" using d by (simp add: data_ok_def seen_def)
    moreover have "prefix (seen p) (seen t)" using assms(1) 2 by (simp add: grows_def)
    ultimately have "fetch_step (content (target t)) (Pending (seen p)) (Fetched (content (target t)))"
      by (intro fetch_done) simp
    with 2 d show ?thesis unfolding p by (simp add: abs_fetch_def data_ok_def)
  next
    case 3
    then have "abs_fetch t = Pending (seen t)" by (auto simp: abs_fetch_def seen_def ended_def split: SftpPollState.split)
    with 3 assms(1) seen_prefix [OF d] show ?thesis
      unfolding p by (auto simp: grows_def ended_def intro: fetch_more)
  qed
qed

text \<open>
  C8 (termination). On an operation that was started on an idle client and driven in any
  way, \<open>continuePoll()\<close> returns when the library does not ask to wait forever while a
  connection is closed, the agent has finitely many identities and a read gives no more than
  was asked for. It gives something to wait for exactly when the operation goes on. Whenever a
  call makes it end without the data, there is an exception. Then \<open>abort()\<close> and the last
  dereference return too.
\<close>

theorem continuePoll_returns:
  assumes "client_idle c" "startPollGetFile path c = Inr p0" "poll_terminating m k E" "poll_run rem E p0 p"
  shows "\<exists>r t. continuePoll E p = Some (r, t) \<and> (r = None \<longleftrightarrow> ended t) \<and> (poll_state t = CLOSED \<longrightarrow> p = t \<or> xsink t \<noteq> [])
    \<and> returns (poll_abort E p) \<and> returns (poll_deref E p)"
proof -
  have E: "callbacks_neutral E" "sftp_settling m E" using assms(3) by (simp_all add: poll_terminating_def)
  have run: "run_ok E p0 p" by (rule poll_run_ok [OF assms(4) start_running(1) [OF assms(2,1)] E(1)])
  then have "running_ok E p \<or> ended p" by (simp add: run_ok_def split: if_splits)
  then obtain r t where c: "continuePoll E p = Some (r, t)" using continuePoll_halts [OF assms(3)] unfolding returns_def by blast
  have "(r = None \<longleftrightarrow> ended t) \<and> (poll_state t = CLOSED \<longrightarrow> p = t \<or> xsink t \<noteq> [])"
  proof (cases "ended p")
    case True
    with c show ?thesis by (simp add: continuePoll_def)
  next
    case False
    with run have "running_ok E p" by (simp add: run_ok_def)
    from post_D [OF continuePoll_post [OF this E(1)] c] show ?thesis by (auto simp: poll_result_def stage_post_def ended_def)
  qed
  moreover have "returns (poll_abort E p)" "returns (poll_deref E p)"
    using haltsD [OF halts_closeIntern [OF E(2)]] by (simp_all add: poll_abort_def poll_deref_def)
  ultimately show ?thesis using c by blast
qed

text \<open>
  C7 (refinement). The operation implements the abstract retrieval: each call of
  \<open>continuePoll()\<close> returns and is one step of it. The data that has arrived only grows along
  the remote file, a connection that is lost and made again included; the operation hands over
  data only when it is the exact content of the file that the given path names on the server;
  once it has ended, further calls change nothing.
\<close>

theorem poll_refines_fetch:
  assumes "client_idle c" "startPollGetFile path c = Inr p0" "poll_terminating m k E" "serves rem E content"
    "poll_run rem E p0 p"
  shows "\<exists>r t. continuePoll E p = Some (r, t) \<and> fetch_step (content (target t)) (abs_fetch p) (abs_fetch t)
    \<and> getOutput t \<in> {None, Some (content (absolute_filename (sftppath t) (Some (c_str path))))}"
proof -
  have cb: "callbacks_neutral E" using assms(3) by (simp add: poll_terminating_def)
  note s = start_running [OF assms(2,1)]
  have run: "run_ok E p0 p" by (rule poll_run_ok [OF assms(5) s(1) cb])
  have d0: "data_ok rem content p0" by (rule untouched_ok) (simp_all add: untouched_def data_part_def early_def s)
  have d: "data_ok rem content p" by (rule poll_run_data [OF assms(5) s(1) assms(3,4) d0])
  have "running_ok E p \<or> ended p" using run by (simp add: run_ok_def split: if_splits)
  then obtain r t where c: "continuePoll E p = Some (r, t)" using continuePoll_halts [OF assms(3)] unfolding returns_def by blast
  have cfg: "cfg t = cfg p0"
    using poll_run_ok [OF run_continue [OF assms(5) c] s(1) cb] by (simp add: run_ok_def)
  have step: "fetch_step (content (target t)) (abs_fetch p) (abs_fetch t) \<and> data_ok rem content t"
  proof (cases "ended p")
    case True
    with c have "t = p" by (simp add: continuePoll_def)
    with True d show ?thesis by (auto simp: ended_def abs_fetch_def data_ok_def intro: fetch_step.intros)
  next
    case False
    with run have "running_ok E p" by (simp add: run_ok_def)
    from post_D [OF continuePoll_grows [OF assms(3,4) this d] c] False show ?thesis
      using grows_fetch_step unfolding grows_def by blast
  qed
  have "poll_path t = c_str path" using cfg s(3) by (simp add: cfg_def)
  with c step show ?thesis by (auto simp: getOutput_def data_ok_def target_def)
qed

definition env_fetch :: "(tworld, unit) penv" where
  "env_fetch = env0\<lparr>
     sftp_open_read := (\<lambda>_ _ w. if pending w > 0 then (NullEagain, w) else (Got (), w\<lparr>log := [''abc'']\<rparr>)),
     sftp_read := (\<lambda>n w. if pending w > 0 then (RdEagain, w)
       else (RdData (take (min n 2) (concat (log w))), w\<lparr>log := [drop (min n 2) (concat (log w))]\<rparr>))\<rparr>"

lemma env_fetch_ok:
  "poll_terminating pending 1 env_fetch" "serves (\<lambda>w. concat (log w)) env_fetch (\<lambda>_. ''abc'')"
proof -
  have "settling pending env_fetch"
    using settling_env0 [where 's = "tworld poll"] by (simp add: settling_def env_fetch_def)
  moreover have "agent_finite 1 env_fetch"
    by (auto simp: agent_finite_def env_fetch_def env0_def split: option.splits)
  moreover have "callbacks_neutral env_fetch"
    by (simp add: callbacks_neutral_def env_fetch_def env0_def)
  ultimately show "poll_terminating pending 1 env_fetch"
    by (auto simp: poll_terminating_def sftp_settling_def bounded_reads_def quiet_def env_fetch_def env0_def pblocks_def
        blocks_def logged_def)
  show "serves (\<lambda>w. concat (log w)) env_fetch (\<lambda>_. ''abc'')"
    by (auto simp: serves_def serves_file_def reads_file_def waits_neutral_def env_fetch_def env0_def wait0_def attrs0_def)
qed

theorem continuePoll_returns_witness:
  "\<exists>r t. continuePoll env_fetch poll0 = Some (r, t) \<and> (r = None \<longleftrightarrow> ended t) \<and> returns (poll_abort env_fetch poll0)"
  using continuePoll_returns [OF example_idle example_start env_fetch_ok(1) run_start [of "\<lambda>_. ()"]] by blast

lemma example_fetch: "map_option (\<lambda>(r, t). (r, goalReached t)) (continuePoll env_fetch poll0) = Some (None, True)"
  by code_simp

theorem poll_refines_fetch_witness:
  "\<exists>t. continuePoll env_fetch poll0 = Some (None, t) \<and> fetch_step ''abc'' (Pending []) (abs_fetch t) \<and> getOutput t = Some ''abc''"
proof -
  from example_fetch obtain t where t: "continuePoll env_fetch poll0 = Some (None, t)" "goalReached t"
    by (auto split: prod.splits)
  have "abs_fetch poll0 = Pending []" by (simp add: abs_fetch_def poll0_def SftpPollOperationPriv_new_def client.defs poll.defs)
  with poll_refines_fetch [OF example_idle example_start env_fetch_ok run_start] t show ?thesis
    by (auto simp: goalReached_def getOutput_def)
qed

end
