(* ===== verification/Sftp_Poll_Verify.thy ===== *)
theory Sftp_Poll_Verify
  imports Sftp_Poll_Live
begin

text \<open>
  What the goal of the poll operation rests on. A run is taken apart into the stages that its
  calls of \<open>continuePoll()\<close> go through, so that the stage that verified the host key and the
  stages after it are parts of the same run: the result of the operation comes from a session
  that the client already had, or from the session whose key exchange was completed and whose
  host key was then verified.
\<close>

section \<open>The stages of a run\<close>

text \<open>
  One step: a stage that \<open>A\<close> allows, a check for cancellation, and what happens outside the
  handlers.
\<close>

inductive poll_step :: "(SftpPollState \<Rightarrow> bool) \<Rightarrow> ('w, 'm) penv \<Rightarrow> ('w, 'm) pst \<Rightarrow> ('w, 'm) pst \<Rightarrow> bool"
  for A :: "SftpPollState \<Rightarrow> bool" and E :: "('w, 'm) penv" where
  step_stage: "\<not> ended p \<Longrightarrow> A (poll_state p) \<Longrightarrow> handle_stage E p = Some (r, t) \<Longrightarrow> poll_step A E p t"
| step_check: "\<not> ended p \<Longrightarrow> qore_check_cancel E p = (False, t) \<Longrightarrow> poll_step A E p t"
| step_cancel: "\<not> ended p \<Longrightarrow> qore_check_cancel E p = (True, u) \<Longrightarrow> end_stage E True u = Some (r, t) \<Longrightarrow> poll_step A E p t"
| step_abort: "poll_abort E p = Some ((), t) \<Longrightarrow> poll_step A E p t"
| step_world: "poll_step A E p (p\<lparr>world := w\<rparr>)"

abbreviation poll_steps :: "(SftpPollState \<Rightarrow> bool) \<Rightarrow> ('w, 'm) penv \<Rightarrow> ('w, 'm) pst \<Rightarrow> ('w, 'm) pst \<Rightarrow> bool" where
  "poll_steps A E \<equiv> rtranclp (poll_step A E)"

definition any_stage :: "SftpPollState \<Rightarrow> bool" where
  "any_stage a \<longleftrightarrow> True"

definition later_stage :: "SftpPollState \<Rightarrow> bool" where
  "later_stage a \<longleftrightarrow> a \<notin> {START, CONNECTING, HANDSHAKE}"

lemma any_stage [intro!]: "any_stage a"
  by (simp add: any_stage_def)

lemma intern_steps:
  assumes "continuePollIntern E p = Some (r, t)"
  shows "poll_steps any_stage E p t"
proof -
  let ?P = "\<lambda>E p (y :: poll_info option \<times> ('a, 'b) pst). poll_steps any_stage E p (snd y)"
  have "?P E p (r, t)"
  proof (rule continuePollIntern.raw_induct [where P = ?P, OF _ assms], goal_cases)
    case (1 f E p y)
    have st: "poll_step any_stage E p q" if "\<not> ended p" "handle_stage E p = Some (rv, q)" for rv q
      using that by (auto intro: step_stage)
    from 1 show ?case
      by (cases y) (auto split: if_splits elim!: bind_SomeE dest!: st intro: converse_rtranclp_into_rtranclp)
  qed
  then show ?thesis by simp
qed

lemma continue_steps:
  assumes "continuePoll E p = Some (r, t)"
  shows "poll_steps any_stage E p t"
proof (cases "ended p")
  case True
  with assms show ?thesis by (simp add: continuePoll_def)
next
  case False
  obtain b u where c: "qore_check_cancel E p = (b, u)" by fastforce
  show ?thesis
  proof (cases b)
    case True
    with False c assms show ?thesis by (auto simp: continuePoll_def intro: step_cancel)
  next
    case nb: False
    then have "poll_step any_stage E p u" using False c by (auto intro: step_check)
    moreover have "poll_steps any_stage E u t" using nb False c assms by (auto simp: continuePoll_def intro: intern_steps)
    ultimately show ?thesis by (rule converse_rtranclp_into_rtranclp)
  qed
qed

lemma run_steps: "poll_run rem E p0 p \<Longrightarrow> poll_steps any_stage E p0 p"
  by (induction rule: poll_run.induct)
    (auto intro: rtranclp_trans continue_steps rtranclp.rtrancl_into_rtrancl step_abort step_world)

text \<open>Every state of the run satisfies the invariant of the machine, not only those between the calls.\<close>

lemma step_ok:
  assumes "poll_step A E p t" "run_ok E p0 p" "callbacks_neutral E"
  shows "run_ok E p0 t"
  using assms(1)
proof cases
  case (step_stage r)
  then have "running_ok E p" "cfg p = cfg p0" using assms(2) by (simp_all add: run_ok_def)
  with post_D [OF handle_stage_post [OF this(1) assms(3)] step_stage(3)] show ?thesis
    by (auto simp: run_ok_def stage_post_def)
next
  case step_check
  then have p: "running_ok E p" "cfg p = cfg p0" using assms(2) by (simp_all add: run_ok_def)
  have io: "io_step False p t" by (rule cancel_post(2) [OF p(1) step_check(2)]) simp
  from running_io [OF io p(1)] show ?thesis using p(2) cfg_io [OF io] running_not_ended by (auto simp: run_ok_def)
next
  case (step_cancel u r)
  then have p: "running_ok E p" "cfg p = cfg p0" using assms(2) by (simp_all add: run_ok_def)
  from post_D [OF cancel_post(1) [OF p(1) step_cancel(2)] step_cancel(3)] p(2) show ?thesis
    by (auto simp: run_ok_def stage_post_def)
next
  case step_abort
  show ?thesis
  proof (cases "ended p")
    case True
    with assms(2) step_abort show ?thesis by (auto simp: poll_abort_def ended_def)
  next
    case False
    with assms(2) have "running_ok E p" "cfg p = cfg p0" by (simp_all add: run_ok_def)
    with post_D [OF abort_post step_abort] show ?thesis by (auto simp: run_ok_def ended_def)
  qed
next
  case (step_world w)
  with assms(2) show ?thesis using running_io [OF io_step_world, of E p w] by (auto simp: run_ok_def ended_world)
qed

lemma steps_ok:
  assumes "poll_steps A E p0 p" "running_ok E p0" "callbacks_neutral E"
  shows "run_ok E p0 p"
  using assms(1)
proof induction
  case base
  then show ?case using assms(2) running_not_ended [OF assms(2)] by (simp add: run_ok_def)
next
  case (step q t)
  then show ?case using assms(3) by (blast intro: step_ok)
qed

section \<open>The session that the goal rests on\<close>

text \<open>
  The run of \<open>p\<close> went through \<open>START\<close> on a session that the client had, without having
  reconnected, and since then only through stages that follow the handshake.
\<close>

definition reused_run :: "('w, 'm) penv \<Rightarrow> ('w, 'm) pst \<Rightarrow> ('w, 'm) pst \<Rightarrow> bool" where
  "reused_run E p0 p \<longleftrightarrow> (\<exists>a t. poll_steps any_stage E p0 a \<and> poll_state a = START \<and> ssh_session a
     \<and> \<not> reconnect_attempted a \<and> handleStart E a = Some (None, t) \<and> poll_steps later_stage E t p)"

text \<open>
  The run of \<open>p\<close> went through \<open>HANDSHAKE\<close>: the key exchange on the session of that state
  succeeded and led to the state \<open>u\<close>, the host key was verified from \<open>u\<close> on, with the
  configuration that the operation was started with, and what followed the verification are
  only stages that follow the handshake, none of which creates a session.
\<close>

definition verified_run :: "('w, 'm) penv \<Rightarrow> ('w, 'm) pst \<Rightarrow> ('w, 'm) pst \<Rightarrow> bool" where
  "verified_run E p0 p \<longleftrightarrow> (\<exists>a u v. poll_steps any_stage E p0 a \<and> poll_state a = HANDSHAKE \<and> ssh_session a
     \<and> startupUnlocked E a = (Ret 0, u) \<and> verifyHostKeyUnlocked E (poll_timeout u) u = Some (0, v)
     \<and> cfg u = cfg p0 \<and> poll_steps later_stage E (v\<lparr>poll_state := AUTHLIST\<rparr>) p)"

lemma session_run_step:
  assumes "poll_step later_stage E p t"
  shows "reused_run E p0 p \<Longrightarrow> reused_run E p0 t" "verified_run E p0 p \<Longrightarrow> verified_run E p0 t"
  unfolding reused_run_def verified_run_def using assms by (meson rtranclp.rtrancl_into_rtrancl)+

lemma end_stage_closes: "end_stage E d p = Some (r, t) \<Longrightarrow> poll_state p \<noteq> DONE \<Longrightarrow> poll_state t = CLOSED"
  using post_D [OF end_stage_frame] by fastforce

lemma getPollInfo_stays:
  "getPollInfo E fd ev ex tm p = Some (r, t) \<Longrightarrow> poll_state p \<noteq> DONE \<Longrightarrow> poll_state t \<in> {poll_state p, CLOSED}"
  by (auto simp: getPollInfo_def Let_def raise_def split: if_splits dest!: end_stage_closes)

lemma getSessionPollInfo_stays:
  "getSessionPollInfo E p = Some (r, t) \<Longrightarrow> poll_state p \<noteq> DONE \<Longrightarrow> poll_state t \<in> {poll_state p, CLOSED}"
  by (auto simp: getSessionPollInfo_def split: prod.splits dest!: getPollInfo_stays)

text \<open>
  How the stages before the authentication end: on the way to it lie the handshake and the
  verification, in this order.
\<close>

lemma handleStart_leaves:
  assumes "poll_state p = START"
  shows "post (handleStart E p) (\<lambda>r t. poll_state t \<in> {CONNECTING, CLOSED} \<or> r = None \<and> ssh_session p)"
proof -
  define Q where "Q = (\<lambda>(r :: poll_info option) (t :: ('a, 'b) pst). poll_state t \<in> {CONNECTING, CLOSED} \<or> r = None \<and> ssh_session p)"
  have e: "post (end_stage E d q) Q" if "poll_state q \<noteq> DONE \<or> ssh_session p" for d q
    by (rule post_mono [OF end_stage_frame]) (use that in \<open>auto simp: Q_def\<close>)
  have s: "poll_state (startConnect E x q) = poll_state q" for x and q :: "('a, 'b) pst"
    by (simp add: startConnect_def Let_def call_ext_def raise_def split: prod.split sum.split)
  have "post (handleStart E p) Q"
  proof (cases "ssh_session p")
    case True
    then have "Q None t" for t by (simp add: Q_def)
    with True e show ?thesis by (simp add: handleStart_def Let_def split del: if_split split: prod.split) (simp split: if_split)
  next
    case False
    have "post (checkConnectPreconditionsUnlocked E p) (\<lambda>rc t. poll_state t = START)"
      by (rule post_mono [OF preconditions_post [OF False]])
        (use assms in \<open>auto split: if_splits simp: core_eq_poll [OF io_step_core]\<close>)
    then have "post (checkConnectPreconditionsUnlocked E p) (\<lambda>rc q. post (if rc \<noteq> 0 then end_stage E False q
               else
                 (let p = startConnect E (connect_target q) q
                  in if xsink p \<noteq> [] \<or> \<not> connect_state p
                     then end_stage E True (if xsink p = [] then raise True ''SSH2CLIENT-CONNECT-ERROR'' p else p)
                     else Some (None, p\<lparr>poll_state := CONNECTING\<rparr>))) Q)"
      by (rule post_mono) (simp add: e s Let_def raise_def Q_def [THEN fun_cong, THEN fun_cong])
    then show ?thesis using False by (simp add: handleStart_def)
  qed
  then show ?thesis by (simp add: Q_def)
qed

lemma handleConnecting_leaves:
  assumes "poll_state p = CONNECTING"
  shows "post (handleConnecting E p) (\<lambda>r t. poll_state t \<in> {CONNECTING, HANDSHAKE, CLOSED})"
proof -
  define Q where "Q = (\<lambda>(r :: poll_info option) (t :: ('a, 'b) pst). poll_state t \<in> {CONNECTING, HANDSHAKE, CLOSED})"
  have e: "post (end_stage E d q) Q" if "poll_state q \<noteq> DONE" for d q
    by (rule post_mono [OF end_stage_frame]) (use that in \<open>simp add: Q_def\<close>)
  have i: "post (getPollInfo E fd ev ex tm q) Q" if "poll_state q = CONNECTING" for fd ev ex tm q
    using that by (auto intro!: post_I simp: Q_def dest!: getPollInfo_stays)
  have c: "post (connected_socket E q) Q" if q: "poll_state q = CONNECTING" for q
  proof -
    obtain rc u where h: "holdSessionDescriptorUnlocked E q = (rc, u)" by fastforce
    obtain rc' v where f: "setFdNonBlocking E (getSocket u) True u = (rc', v)" by fastforce
    have u: "poll_state u = CONNECTING"
      using h q by (auto simp: holdSessionDescriptorUnlocked_def call_ext_def raise_def split: option.splits prod.splits if_splits)
    have v: "poll_state v = CONNECTING" using u core_eq_poll(4) [OF io_step_core [OF setFdNonBlocking_io [OF f]]] by simp
    have "post (prepareSessionUnlocked E v) (\<lambda>rc t. poll_state t = CONNECTING)"
      by (rule post_mono [OF prepareSession_post]) (use v in \<open>auto dest!: core_eq_poll(4)\<close>)
    then have "post (prepareSessionUnlocked E v) (\<lambda>rc t. post (if rc \<noteq> 0 then end_stage E False t
        else Some (None, t\<lparr>restore_session_blocking := True, poll_state := HANDSHAKE\<rparr>)) Q)"
      by (rule post_mono) (auto simp: e, simp add: Q_def)
    with u v h f e show ?thesis by (simp add: connected_socket_def raise_def)
  qed
  have "post (handleConnecting E p) Q"
    using assms by (auto simp: handleConnecting_def Let_def call_ext_def e i c raise_def split: prod.split sum.split)
  then show ?thesis by (simp add: Q_def)
qed

lemma handleHandshake_leaves:
  assumes "running_ok E p" "poll_state p = HANDSHAKE" "callbacks_neutral E"
  shows "post (handleHandshake E p) (\<lambda>r t. poll_state t \<in> {HANDSHAKE, CLOSED} \<or> (\<exists>u v. startupUnlocked E p = (Ret 0, u)
    \<and> verifyHostKeyUnlocked E (poll_timeout u) u = Some (0, v) \<and> t = v\<lparr>poll_state := AUTHLIST\<rparr>))"
proof -
  obtain rc q where s: "startupUnlocked E p = (rc, q)" by fastforce
  define Q where "Q = (\<lambda>(r :: poll_info option) t. poll_state t \<in> {HANDSHAKE, CLOSED} \<or> (\<exists>v. rc = Ret 0
    \<and> verifyHostKeyUnlocked E (poll_timeout q) q = Some (0, v) \<and> t = v\<lparr>poll_state := AUTHLIST\<rparr>))"
  have io: "io_step False p q" by (rule startup_io [OF s])
  have st: "poll_state q = HANDSHAKE" using assms(2) core_eq_poll(4) [OF io_step_core [OF io]] by simp
  have "running_ok E q" by (rule running_io [OF io assms(1)])
  then have q: "\<not> nh_live q" "xsink q = []"
    using st conn_inv_nh [of q] by (simp_all add: running_ok_def stage_ok_def login_ok_def)
  have e: "post (end_stage E d u) Q" if "poll_state u \<noteq> DONE" for d u
    by (rule post_mono [OF end_stage_frame]) (use that in \<open>simp add: Q_def\<close>)
  have i: "post (getSessionPollInfo E q) Q"
    using st by (auto intro!: post_I simp: Q_def dest!: getSessionPollInfo_stays)
  have v: "post (if r \<noteq> 0 then end_stage E False t else Some (None, t\<lparr>poll_state := AUTHLIST\<rparr>)) Q"
    if "verifyHostKeyUnlocked E (poll_timeout q) q = Some (r, t)" "rc = Ret 0" for r t
  proof -
    have "verify_outcome q r t" by (rule post_D [OF verifyHostKey_post [OF q(1) assms(3) q(2)] that(1)])
    then have "poll_state t = HANDSHAKE" using st by (auto simp: verify_outcome_def dest!: core_eq_poll(4))
    then have "post (end_stage E False t) Q" by (simp add: e)
    moreover have "r = 0 \<Longrightarrow> Q None (t\<lparr>poll_state := AUTHLIST\<rparr>)" using that by (simp add: Q_def)
    ultimately show ?thesis by simp
  qed
  have w: "post (verifyHostKeyUnlocked E (poll_timeout q) q) (\<lambda>r t.
      post (if r \<noteq> 0 then end_stage E False t else Some (None, t\<lparr>poll_state := AUTHLIST\<rparr>)) Q)" if "rc = Ret 0"
    by (rule post_I) (rule v [OF _ that])
  have "post (end_stage E True (raise True x q)) Q" for x using st by (intro e) (simp add: raise_def)
  with i w have "post (handleHandshake E p) Q" by (simp add: handleHandshake_def s)
  then show ?thesis by (rule post_mono) (use s in \<open>auto simp: Q_def\<close>)
qed

text \<open>Once the operation is past the handshake, it is past it in one of the two ways.\<close>

definition past_handshake :: "('w, 'm) penv \<Rightarrow> ('w, 'm) pst \<Rightarrow> ('w, 'm) pst \<Rightarrow> bool" where
  "past_handshake E p0 p \<longleftrightarrow> (poll_state p \<notin> {START, CONNECTING, HANDSHAKE, CLOSED} \<longrightarrow> reused_run E p0 p \<or> verified_run E p0 p)"

lemma stage_past_handshake:
  assumes "poll_steps any_stage E p0 p" "run_ok E p0 p" "callbacks_neutral E" "past_handshake E p0 p"
    and "\<not> ended p" "handle_stage E p = Some (r, t)"
  shows "past_handshake E p0 t"
proof -
  have p: "running_ok E p" "cfg p = cfg p0" using assms(2,5) by (simp_all add: run_ok_def)
  consider "poll_state p = START" | "poll_state p = CONNECTING" | "poll_state p = HANDSHAKE" | "later_stage (poll_state p)"
    by (auto simp: later_stage_def)
  then show ?thesis
  proof cases
    case 1
    then have h: "handleStart E p = Some (r, t)" using assms(6) by (simp add: handle_stage_def)
    have "ssh_session p \<Longrightarrow> \<not> reconnect_attempted p" using p(1) 1 by (auto simp: running_ok_def stage_ok_def)
    with post_D [OF handleStart_leaves [OF 1] h] assms(1) 1 h show ?thesis
      unfolding past_handshake_def reused_run_def by blast
  next
    case 2
    then have "handleConnecting E p = Some (r, t)" using assms(6) by (simp add: handle_stage_def)
    from post_D [OF handleConnecting_leaves [OF 2] this] show ?thesis by (auto simp: past_handshake_def)
  next
    case 3
    then have h: "handleHandshake E p = Some (r, t)" using assms(6) by (simp add: handle_stage_def)
    have s: "ssh_session p" using p(1) 3 by (simp add: running_ok_def stage_ok_def login_ok_def)
    have "cfg u = cfg p0" if "startupUnlocked E p = (rc, u)" for rc u using cfg_io [OF startup_io [OF that]] p(2) by simp
    with post_D [OF handleHandshake_leaves [OF p(1) 3 assms(3)] h] assms(1) 3 s show ?thesis
      unfolding past_handshake_def verified_run_def by blast
  next
    case 4
    then have "poll_step later_stage E p t" using assms(5,6) by (auto intro: step_stage)
    from session_run_step [OF this, of p0] 4 assms(4,5) show ?thesis
      by (auto simp: past_handshake_def later_stage_def ended_def)
  qed
qed

lemma steps_past_handshake:
  assumes "poll_steps any_stage E p0 p" "running_ok E p0" "poll_state p0 = START" "callbacks_neutral E"
  shows "past_handshake E p0 p"
  using assms(1)
proof induction
  case base
  then show ?case using assms(3) by (simp add: past_handshake_def)
next
  case (step p t)
  have ok: "run_ok E p0 p" by (rule steps_ok [OF step(1) assms(2,4)])
  have on: "past_handshake E p0 t" if "poll_step later_stage E p t" "poll_state t = poll_state p \<or> poll_state t = CLOSED"
    using session_run_step [OF that(1), of p0] that(2) step(3) by (auto simp: past_handshake_def)
  from step(2) show ?case
  proof cases
    case (step_stage r)
    then show ?thesis using stage_past_handshake [OF step(1) ok assms(4) step(3)] by blast
  next
    case step_check
    then have "running_ok E p" using ok by (simp add: run_ok_def)
    then have "io_step False p t" by (rule cancel_post(2) [OF _ step_check(2)]) simp
    with step_check show ?thesis by (intro on poll_step.step_check) (simp_all add: core_eq_poll [OF io_step_core])
  next
    case (step_cancel u r)
    have "poll_state u = poll_state p"
      using check_cancel_io(2) [OF step_cancel(2)] core_eq_poll(4) [OF io_step_core] by blast
    with step_cancel have "poll_state t = CLOSED" by (auto simp: ended_def intro: end_stage_closes)
    with step_cancel show ?thesis by (intro on poll_step.step_cancel) simp_all
  next
    case step_abort
    then have "poll_state t = poll_state p \<or> poll_state t = CLOSED"
      using post_D [OF closeIntern_frame] by (fastforce simp: poll_abort_def split: if_splits)
    with step_abort show ?thesis by (intro on poll_step.step_abort)
  next
    case (step_world w)
    then have "poll_step later_stage E p t" by (simp add: poll_step.step_world)
    then show ?thesis by (rule on) (simp add: step_world)
  qed
qed

text \<open>
  C6 (invariant). Whatever the order in which the program calls \<open>continuePoll()\<close> and
  \<open>abort()\<close> on an operation started on an idle client, and whatever happens outside between
  the calls: while the operation runs, the invariant of its stage holds, and it has the client
  reserved and has raised no exception. Once it has ended, it holds nothing any more (no
  remote handle, agent, connection attempt or reservation), the client is consistent, and a
  session that is left is back in blocking mode: the next operation can be started on it. The
  goal is reached only without an exception, and only by a run that started on a session of
  the client, or by one that went through a completed key exchange and then, from the state
  this left and under the configuration of the start, through a verification of the host key
  that succeeded, with nothing after it that could have created another session.
\<close>

theorem poll_operation_invariant:
  assumes "client_idle c" "startPollGetFile path c = Inr p0" "callbacks_neutral E" "poll_run rem E p0 p"
  shows "(if ended p then ended_ok p \<and> client_idle ((client.truncate p)\<lparr>xsink := []\<rparr>) else running_ok E p)
    \<and> settings p = settings c \<and> (goalReached p \<longrightarrow> xsink p = [] \<and> (reused_run E p0 p \<or> verified_run E p0 p))"
proof -
  note p0 = start_running [OF assms(2,1)]
  have "run_ok E p0 p" by (rule poll_run_ok [OF assms(4) p0(1) assms(3)])
  moreover have "past_handshake E p0 p" by (rule steps_past_handshake [OF run_steps [OF assms(4)] p0(1,5) assms(3)])
  ultimately show ?thesis
    using p0(2) ended_idle [of p] by (auto simp: run_ok_def past_handshake_def cfg_def goalReached_def ended_def)
qed

theorem poll_operation_invariant_witness:
  "\<exists>t. continuePoll penv0 poll0 = Some (None, t) \<and> getOutput t = Some ''abc'' \<and> ended_ok t
     \<and> (reused_run penv0 poll0 t \<or> verified_run penv0 poll0 t)"
proof -
  from example_run obtain t where t: "continuePoll penv0 poll0 = Some (None, t)" "getOutput t = Some ''abc''"
    by (auto split: prod.splits)
  have d: "goalReached t" using t(2) by (simp add: getOutput_def goalReached_def split: if_splits)
  have "poll_run (\<lambda>_. ()) penv0 poll0 t" by (rule run_continue [OF run_start t(1)])
  from poll_operation_invariant [OF example_idle example_start example_neutral this] t d show ?thesis
    by (auto simp: goalReached_def ended_def)
qed

end
