(* ===== verification/Sftp_Poll_Drop.thy ===== *)
theory Sftp_Poll_Drop
  imports Sftp_Poll_Fetch Sftp_Poll_Verify
begin

text \<open>
  What the poll operation does not protect: a session that is still being established when the
  operation is destroyed, the remote handle when the connection breaks during a read, and the
  client itself against other operations.
\<close>

section \<open>Operations that are dropped, and the reservation\<close>

text \<open>
  C36 (safety). An operation that is destroyed while it establishes the connection (during the
  handshake, before or during the authentication) releases the client and its own resources,
  but leaves the session and the socket to the client, without any exception: the client has a
  session that is not authenticated, and during the handshake one whose host key was never
  checked, and it is free for the next operation, which takes the session as established.
\<close>

theorem poll_drop_keeps_login_session:
  assumes "client_idle c" "startPollGetFile path c = Inr p0" "callbacks_neutral E" "poll_run rem E p0 p"
    "poll_state p \<in> {HANDSHAKE, AUTHLIST, AUTH}"
  shows "\<exists>t. poll_deref E p = Some ((), t) \<and> ended_ok t \<and> ssh_session t \<and> sock t = sock p \<and> xsink t = []
    \<and> sshauthenticatedwith t = None"
proof -
  have "running_ok E p"
    using poll_run_ok [OF assms(4) start_running(1) [OF assms(2,1)] assms(3)] assms(5) by (auto simp: run_ok_def ended_def)
  then have p: "closable False p" "login_ok p" "xsink p = []"
    using running_closable(2) [of p E] assms(5) by (auto simp: running_ok_def stage_ok_def)
  then have "\<not> sftp_handle p" "ssh_session p" "sshauthenticatedwith p = None" by (simp_all add: login_ok_def)
  with closeIntern_no_handle [OF p(1) _ _ p(3), of E] p(3) show ?thesis
    by (auto simp: poll_deref_def closed_from_def)
qed

definition poll_waiting :: "tworld poll" where
  "poll_waiting = poll0\<lparr>world := \<lparr>pending = 1, log = []\<rparr>\<rparr>"

lemma example_handshake:
  "map_option (\<lambda>(r, t). (r \<noteq> None, poll_state t)) (continuePoll penv0 poll_waiting) = Some (True, HANDSHAKE)"
  by code_simp

theorem poll_drop_keeps_login_session_witness:
  "\<exists>p t. (\<exists>r. continuePoll penv0 poll_waiting = Some (r, p)) \<and> poll_state p = HANDSHAKE
     \<and> poll_deref penv0 p = Some ((), t) \<and> ssh_session t \<and> sshauthenticatedwith t = None \<and> xsink t = []"
proof -
  from example_handshake obtain r p where p: "continuePoll penv0 poll_waiting = Some (r, p)" "poll_state p = HANDSHAKE"
    by (auto split: prod.splits)
  have "poll_run (\<lambda>_. ()) penv0 poll0 poll_waiting" unfolding poll_waiting_def by (rule run_world [OF run_start]) simp
  then have "poll_run (\<lambda>_. ()) penv0 poll0 p" using p(1) by (rule run_continue)
  from poll_drop_keeps_login_session [OF example_idle example_start example_neutral this] p show ?thesis by auto
qed

lemma closeIntern_misuse:
  assumes "sftp_handle p" "\<not> sftp_session p" "poll_agent p = None"
  shows "post (closeIntern E d p) (\<lambda>_ t. handle_misused t)"
proof -
  have k: "handle_misused t = handle_misused s" if "io_step x s t" for x and s t :: "('a, 'b) poll_scheme"
    using core_eq_poll(24) [OF io_step_core [OF that]] .
  let ?q = "p\<lparr>poll_candidates := None, connect_state := False\<rparr>"
  have h: "post (close_handle E ?q) (\<lambda>_ t. handle_misused t)"
    using assms(1,2) unfolding close_handle_def
    by (auto intro!: post_mono [OF retry_in_disconnect_post] dest!: k simp: use_handle_def)
  have e: "post (drop_connection E b u) (\<lambda>_ t. handle_misused t = handle_misused u)" for b u
    by (rule post_mono [OF drop_connection_post]) (auto split: if_splits dest!: k simp: closeTransportUnlocked_def)
  show ?thesis
    unfolding closeIntern_def agent_reset_again [OF assms(3)] post_bind
    by (rule post_mono [OF h], simp only: prod.case post_bind post_Some, rule post_mono [OF e]) simp
qed

text \<open>
  C37 (error). When a read fails and the server has closed the connection (the socket is
  readable at once), the error report shuts down the SFTP session, and the cleanup of the
  operation then closes the remote file through a handle of the session that is gone.
\<close>

theorem poll_read_error_uses_closed_session:
  assumes "sftp_settling m E" "running_ok E p" "poll_state p = READ" "bytes_read p < file_size p"
    "sftp_read E (unat (file_size p - bytes_read p)) (world p) = (RdErr e, w)" "0 < fst (async_io_wait E 0 True False w)"
  shows "\<exists>t. handleRead E p = Some (None, t) \<and> poll_state t = CLOSED \<and> handle_misused t"
proof -
  define q where "q = p\<lparr>handle_misused := handle_misused p \<or> \<not> sftp_session p, world := w\<rparr>"
  have r: "handleRead E p = session_error E False q"
    using assms(4,5) by (subst handleRead.simps) (simp add: call_ext_def use_handle_def q_def)
  have p: "is_sftp p" "sftp_handle p" "poll_agent p = None" "poll_state p = READ"
    using assms(2,3) by (simp_all add: running_ok_def stage_ok_def session_ok_def poll_base_def)
  obtain rc w' where c: "async_io_wait E 0 True False w = (rc, w')" "rc > 0" using assms(6) by (metis prod.collapse)
  let ?s = "(raise True ''SSH2-ERROR'' q)\<lparr>world := w'\<rparr>"
  have e: "sftp_doSessionErrUnlocked E q = disconnectUnlocked E True 10 None True ?s"
    using c by (simp add: sftp_doSessionErrUnlocked_def call_ext_def q_def raise_def)
  have "post (disconnectUnlocked E True 10 None True ?s) (\<lambda>_ u. post (end_stage E False u) (\<lambda>r t. r = None \<and> poll_state t = CLOSED \<and> handle_misused t))"
  proof (rule post_mono [OF disconnectUnlocked_post])
    fix n :: int and u
    assume "n = 0 \<and> io_step True (disc_state ?s) u"
    then have cu: "core u = core (disc_state ?s)" using io_step_core by blast
    have u: "sftp_handle u" "\<not> sftp_session u" "poll_agent u = None" "poll_state u = READ"
      using p by (simp_all add: core_eq_sel [OF cu] core_eq_poll [OF cu] q_def raise_def, simp add: disc_state_def q_def raise_def)
    show "post (end_stage E False u) (\<lambda>r t. r = None \<and> poll_state t = CLOSED \<and> handle_misused t)"
      unfolding end_stage_def post_bind
      by (rule post_mono [OF post_conj [OF closeIntern_misuse [OF u(1-3)] closeIntern_frame]]) (simp add: u(4))
  qed
  then have "post (handleRead E p) (\<lambda>r t. r = None \<and> poll_state t = CLOSED \<and> handle_misused t)"
    by (simp add: r session_error_def e)
  moreover have "returns (handleRead E p)" unfolding r by (rule haltsD [OF halts_session_error [OF assms(1)]])
  ultimately show ?thesis by (auto simp: returns_def post_def)
qed

definition poll_reading :: "tworld poll" where
  "poll_reading = poll0\<lparr>ssh_session := True, sock := Some 5, session_fd_hold := True, sftp_session := True,
     sshauthenticatedwith := Some ''password'', restore_session_blocking := True, sftp_handle := True,
     poll_state := READ, reused_session := True, abs_path := ''/f'', file_size := 3, world := \<lparr>pending = 1, log = []\<rparr>\<rparr>"

definition env_cut :: "(tworld, unit) penv" where
  "env_cut = env0\<lparr>sftp_read := (\<lambda>_ w. (RdErr (-1), w))\<rparr>"

theorem poll_read_error_uses_closed_session_witness:
  "\<exists>t. handleRead env_cut poll_reading = Some (None, t) \<and> poll_state t = CLOSED \<and> handle_misused t"
proof (rule poll_read_error_uses_closed_session)
  have "settling pending env_cut" using settling_env0 [where 's = "tworld poll"] by (simp add: settling_def env_cut_def)
  then show "sftp_settling pending env_cut"
    by (auto simp: sftp_settling_def quiet_def env_cut_def env0_def pblocks_def blocks_def logged_def)
  note defs = poll_reading_def poll0_def SftpPollOperationPriv_new_def poll_client_def client0_def client.defs poll.defs
  show "running_ok env_cut poll_reading"
    by (simp add: defs running_ok_def poll_base_def stage_ok_def session_ok_def conn_inv_def adopted_def)
  show "poll_state poll_reading = READ" "bytes_read poll_reading < file_size poll_reading" by (simp_all add: defs)
  show "sftp_read env_cut (unat (file_size poll_reading - bytes_read poll_reading)) (world poll_reading)
      = (RdErr (-1), world poll_reading)" by (simp add: env_cut_def)
  show "0 < fst (async_io_wait env_cut 0 True False (world poll_reading))"
    by (simp add: env_cut_def env0_def wait0_def defs)
qed

text \<open>A server that answers the requests at once, and grants them.\<close>

definition grants_at_once :: "('w, 's) env \<Rightarrow> bool" where
  "grants_at_once E \<longleftrightarrow> (\<forall>path w. \<exists>w'. sftp_opendir E path w = (Got (), w'))
     \<and> (\<forall>w. \<exists>w'. sftp_close_handle E w = (Ret 0, w')) \<and> (\<forall>req w. \<exists>w'. sftp_request E req w = (Ret 0, w'))"

lemma granted_close:
  assumes "grants_at_once E"
  obtains w where "qsftp_tryClose E True err tmo s = Some (0, s\<lparr>world := w\<rparr>)"
proof -
  obtain w where "sftp_close_handle E (world s) = (Ret 0, w)" using assms unfolding grants_at_once_def by metis
  then have "retry_loop is_eagain (call_ext (sftp_close_handle E)) g s = Some (Some (Ret 0), s\<lparr>world := w\<rparr>)" for g
    by (intro retry_loop_done) (simp_all add: call_ext_def)
  then have "qsftp_tryClose E True err tmo s = Some (0, s\<lparr>world := w\<rparr>)"
    by (simp add: qsftp_tryClose_def qsftp_closeIntern_def)
  then show thesis by (rule that)
qed

lemma granted_alive:
  assumes "grants_at_once E" "sftp_session s"
  obtains w where "sftpConnectedUnlocked E s = Some (True, s\<lparr>world := w\<rparr>)"
proof -
  let ?path = "if sftppath s = [] then ''/'' else sftppath s"
  obtain w where w: "sftp_opendir E ?path (world s) = (Got (), w)" using assms(1) unfolding grants_at_once_def by metis
  obtain w' where "qsftp_tryClose E True ''SFTPCLIENT-ERROR'' 100 (s\<lparr>xsink := [], world := w\<rparr>)
      = Some (0, s\<lparr>xsink := [], world := w'\<rparr>)"
    by (rule granted_close [OF assms(1), of "''SFTPCLIENT-ERROR''" 100 "s\<lparr>xsink := [], world := w\<rparr>"]) simp
  with assms(2) w have "sftpConnectedUnlocked E s = Some (True, s\<lparr>world := w'\<rparr>)"
    by (cases "sftppath s = []") (simp_all add: sftpConnectedUnlocked_def sftpIsAliveUnlocked_def Let_def call_ext_def)
  then show thesis by (rule that)
qed

lemma granted_request:
  assumes "grants_at_once E" "ssh_session s" "sftp_session s"
  shows "\<exists>w. connected_or E tmo r (\<lambda>s. with_blocking_helper (sftp_simple E err tmo (req (sftppath s))) s) s
      = Some (0, s\<lparr>session_blocking := True, world := w\<rparr>)"
proof -
  obtain w where w: "sftpConnectedUnlocked E s = Some (True, s\<lparr>world := w\<rparr>)" by (rule granted_alive [OF assms(1,3)])
  let ?s = "BlockingHelper_ctor (s\<lparr>world := w\<rparr>)"
  obtain w' where q: "sftp_request E (req (sftppath s)) w = (Ret 0, w')" using assms(1) unfolding grants_at_once_def by metis
  have "retry_loop is_eagain (call_ext (sftp_request E (req (sftppath s)))) g ?s = Some (Some (Ret 0), ?s\<lparr>world := w'\<rparr>)" for g
    by (intro retry_loop_done) (simp_all add: call_ext_def BlockingHelper_ctor_def setBlockingUnlocked_def q)
  then have "with_blocking_helper (sftp_simple E err tmo (req (sftppath s))) (s\<lparr>world := w\<rparr>)
      = Some (0, s\<lparr>session_blocking := True, world := w'\<rparr>)"
    using assms(2)
    by (simp add: with_blocking_helper_def sftp_simple_def BlockingHelper_ctor_def BlockingHelper_dtor_def setBlockingUnlocked_def)
  with w show ?thesis by (auto simp: connected_or_def)
qed

text \<open>
  C38 (safety). The reservation of the client does not keep the other SFTP operations away:
  in whatever stage a poll operation with an SFTP session is, \<open>mkdir()\<close>, \<open>rmdir()\<close>,
  \<open>rename()\<close> and \<open>removeFile()\<close> on the same client go through when the server grants the
  request, without an exception, and they leave the session of the running operation in
  blocking mode.
\<close>

theorem sftp_ignores_reservation:
  assumes "running_ok E p" "sftp_session p" "grants_at_once E" "name \<noteq> []"
    and "f \<in> {sftpMkdir E name mode tmo, sftpRmdir E name tmo, sftpRename E name dst tmo, sftpUnlink E name tmo}"
  shows "\<exists>w. f p = Some (0, p\<lparr>session_blocking := True, world := w\<rparr>) \<and> poll_op_in_progress p"
proof -
  have s: "ssh_session p" "poll_op_in_progress p"
    using assms(1,2) by (auto simp: running_ok_def poll_base_def stage_ok_def session_ok_def login_ok_def conn_inv_def
        closeTransportUnlocked_def split: SftpPollState.splits)
  note g = granted_request [OF assms(3) s(1) assms(2)]
  from assms(5) consider "f = sftpMkdir E name mode tmo" | "f = sftpRmdir E name tmo"
    | "f = sftpRename E name dst tmo" | "f = sftpUnlink E name tmo" by blast
  then show ?thesis
  proof cases
    case 1
    with g [where req = "\<lambda>q. ReqMkdir (absolute_filename q (Some name)) mode"] s(2) assms(4) show ?thesis by (simp add: sftpMkdir_def)
  next
    case 2
    with g [where req = "\<lambda>q. ReqRmdir (absolute_filename q (Some name))"] s(2) assms(4) show ?thesis by (simp add: sftpRmdir_def)
  next
    case 3
    with g [where req = "\<lambda>q. ReqRename (absolute_filename q (Some name)) (absolute_filename q (Some dst))"] s(2)
    show ?thesis by (simp add: sftpRename_def)
  next
    case 4
    with g [where req = "\<lambda>q. ReqUnlink (absolute_filename q (Some name))"] s(2) show ?thesis by (simp add: sftpUnlink_def)
  qed
qed

definition env_prompt :: "(tworld, unit) penv" where
  "env_prompt = env0\<lparr>sftp_opendir := (\<lambda>_ w. (Got (), w)), sftp_close_handle := (\<lambda>w. (Ret 0, w)), sftp_request := (\<lambda>_ w. (Ret 0, w))\<rparr>"

theorem sftp_ignores_reservation_witness:
  "(\<exists>w. sftpMkdir env_prompt ''d'' 493 100 poll_reading = Some (0, poll_reading\<lparr>session_blocking := True, world := w\<rparr>))
     \<and> poll_op_in_progress poll_reading \<and> \<not> session_blocking poll_reading"
proof -
  note defs = poll_reading_def poll0_def SftpPollOperationPriv_new_def poll_client_def client0_def client.defs poll.defs
  have "running_ok env_prompt poll_reading" "sftp_session poll_reading" "\<not> session_blocking poll_reading"
    by (simp_all add: defs running_ok_def poll_base_def stage_ok_def session_ok_def conn_inv_def adopted_def)
  moreover have "grants_at_once env_prompt" by (simp add: grants_at_once_def env_prompt_def)
  ultimately show ?thesis
    using sftp_ignores_reservation [of env_prompt poll_reading "''d''" "sftpMkdir env_prompt ''d'' 493 100" 493 100] by auto
qed

end
