(* ===== verification/Ssh2_Info.thy ===== *)
theory Ssh2_Info
  imports Sftp_Directory "HOL-Library.AList"
begin

text \<open>
  What the objects tell about themselves: the getters of the settings, the hashes that
  describe the connection, the host key, the status of files and the end of a remote process,
  the queries that need a session of their own (\<open>src/src/SSH2Client.h\<close>,
  \<open>src/src/SSH2Client.cpp\<close>, \<open>src/src/SFTPClient.cpp\<close>, \<open>src/src/SSH2Channel.cpp\<close>), and the
  declarations of these hashes (\<open>src/src/QC_\<close>\<dots>\<open>.qpp\<close>).
\<close>

section \<open>Getters\<close>

definition getHostLocked :: "('w, 'm) cst \<Rightarrow> string" where "getHostLocked s = sshhost s"

definition getPort :: "('w, 'm) cst \<Rightarrow> 32 word" where "getPort s = sshport s"

definition getUserLocked :: "('w, 'm) cst \<Rightarrow> string" where "getUserLocked s = sshuser s"

definition getPasswordLocked :: "('w, 'm) cst \<Rightarrow> string" where "getPasswordLocked s = sshpass s"

definition getKeyPrivLocked :: "('w, 'm) cst \<Rightarrow> string" where "getKeyPrivLocked s = sshkeys_priv s"

definition getKeyPubLocked :: "('w, 'm) cst \<Rightarrow> string" where "getKeyPubLocked s = sshkeys_pub s"

definition getAuthenticatedWithLocked :: "('w, 'm) cst \<Rightarrow> string" where
  "getAuthenticatedWithLocked s = (case sshauthenticatedwith s of None \<Rightarrow> [] | Some a \<Rightarrow> a)"

definition getKnownHostsFileLocked :: "('w, 'm) cst \<Rightarrow> string" where
  "getKnownHostsFileLocked s = known_hosts_file s"

definition getVerifyHostKey :: "('w, 'm) cst \<Rightarrow> bool" where "getVerifyHostKey s = verify_host_key s"

definition getHostKeyPolicy :: "('w, 'm) cst \<Rightarrow> int" where "getHostKeyPolicy s = host_key_policy s"

text \<open>The two objects are returned with a reference of the caller's own.\<close>

definition getClientIdentityProvider :: "('w, 'm) cenv \<Rightarrow> ('w, 'm) cst \<Rightarrow> nat option \<times> ('w, 'm) cst" where
  "getClientIdentityProvider E s = (client_identity_provider s, ref_object E (client_identity_provider s) s)"

definition getHostKeyStore :: "('w, 'm) cenv \<Rightarrow> ('w, 'm) cst \<Rightarrow> nat option \<times> ('w, 'm) cst" where
  "getHostKeyStore E s = (host_key_store s, ref_object E (host_key_store s) s)"

definition getClientAuthOrder :: "('w, 'm) cst \<Rightarrow> int" where "getClientAuthOrder s = client_auth_order s"

definition getClientIdentityFallbackPolicy :: "('w, 'm) cst \<Rightarrow> int" where
  "getClientIdentityFallbackPolicy s = client_identity_fallback_policy s"

definition getUseAgent :: "('w, 'm) cst \<Rightarrow> bool" where "getUseAgent s = use_agent s"

definition getKeepalive :: "('w, 'm) cst \<Rightarrow> int" where "getKeepalive s = keepalive_interval s"

definition sshConnected :: "('w, 'm) cst \<Rightarrow> int" where
  "sshConnected s = (if sshConnectedUnlocked s then 1 else 0)"

definition fingerprint :: "('w, 'm) cenv \<Rightarrow> ('w, 'm) cst \<Rightarrow> string option" where
  "fingerprint E s = fingerprintUnlocked E s"

definition getBannerLocked :: "('w, 'm) cenv \<Rightarrow> ('w, 'm) cst \<Rightarrow> string option" where
  "getBannerLocked E s =
     (if \<not> sshConnectedUnlocked s then (if ssh_banner s = [] then None else Some (ssh_banner s))
      else map_option c_str (session_banner_get E (world s)))"

section \<open>Declared hashes\<close>

text \<open>
  The declarations, member by member, and the writing of members; \<open>setKeyValue()\<close> replaces the
  value of a key that is there already.
\<close>

definition Ssh2ConnectionInfo :: hashdecl where
  "Ssh2ConnectionInfo =
     [(''ssh2host'', TString), (''ssh2port'', TInt), (''ssh2user'', TString),
      (''keyfile_priv'', TString), (''keyfile_pub'', TString), (''fingerprint'', TOpt TString),
      (''authenticated'', TOpt TString), (''connected'', TBool), (''methods'', THash TString)]"

definition SftpConnectionInfo :: hashdecl where
  "SftpConnectionInfo =
     [(''ssh2host'', TString), (''ssh2port'', TInt), (''ssh2user'', TString),
      (''keyfile_priv'', TString), (''keyfile_pub'', TString), (''fingerprint'', TOpt TString),
      (''authenticated'', TOpt TString), (''connected'', TBool), (''methods'', THash TString),
      (''path'', TOpt TString)]"

definition Ssh2HostKeyInfo :: hashdecl where
  "Ssh2HostKeyInfo =
     [(''hash_md5'', TString), (''hash_sha1'', TOpt TString), (''hash_sha256'', TOpt TString),
      (''key_type'', TString), (''key_data'', TBinary)]"

definition Ssh2StatInfo :: hashdecl where
  "Ssh2StatInfo =
     [(''mode'', TInt), (''permissions'', TString), (''size'', TInt), (''atime'', TDate),
      (''mtime'', TDate), (''uid'', TInt), (''gid'', TInt)]"

definition SftpFileInfo :: hashdecl where
  "SftpFileInfo =
     [(''name'', TString), (''size'', TInt), (''uid'', TInt), (''gid'', TInt), (''mode'', TInt),
      (''atime'', TDate), (''mtime'', TDate), (''type'', TString), (''perm'', TString)]"

definition SftpDirInfo :: hashdecl where
  "SftpDirInfo =
     [(''path'', TString), (''directories'', TList TString), (''files'', TList TString),
      (''links'', TList TString)]"

definition SftpStatVfsInfo :: hashdecl where
  "SftpStatVfsInfo =
     map (\<lambda>k. (k, TInt)) [''f_bsize'', ''f_frsize'', ''f_blocks'', ''f_bfree'', ''f_bavail'', ''f_files'',
       ''f_ffree'', ''f_favail'', ''f_fsid'', ''f_flag'', ''f_namemax'']"

definition Ssh2ExitSignalInfo :: hashdecl where
  "Ssh2ExitSignalInfo =
     [(''signal'', TOpt TString), (''errmsg'', TOpt TString), (''langtag'', TOpt TString)]"

definition set_keys :: "(string \<times> qvalue) list \<Rightarrow> (string \<times> qvalue) list \<Rightarrow> (string \<times> qvalue) list" where
  "set_keys kvs h = fold (\<lambda>(k, v). AList.update k v) kvs h"

definition opt_value :: "string option \<Rightarrow> qvalue" where
  "opt_value p = (case p of None \<Rightarrow> QNothing | Some v \<Rightarrow> QString v)"

section \<open>Information about the connection\<close>

text \<open>
  The methods in the order of the code; a method that the version of libssh2 does not define is
  left out, and so is one for which the library has no value.
\<close>

definition info_methods :: "(string \<times> ssh_method) list" where
  "info_methods = method_table @ [(''LANG_CS'', METHOD_LANG_CS), (''LANG_SC'', METHOD_LANG_SC)]"

definition methods_hash :: "('w, 'm) cenv \<Rightarrow> ('w, 'm) cst \<Rightarrow> (string \<times> qvalue) list" where
  "methods_hash E s =
     set_keys [(k, QString (c_str v)). (k, m) \<leftarrow> info_methods, method_defined E m,
                 v \<leftarrow> (case session_methods E m (world s) of None \<Rightarrow> [] | Some v \<Rightarrow> [v])] []"

definition sshInfoIntern ::
  "('w, 'm) cenv \<Rightarrow> hashdecl \<Rightarrow> ('w, 'm) cst \<Rightarrow> (string \<times> qvalue) list" where
  "sshInfoIntern E d s =
     set_keys
       ([(''ssh2host'', QString (c_str (sshhost s))),
         (''ssh2port'', QInt (uint (getPort s))),
         (''ssh2user'', QString (c_str (sshuser s))),
         (''keyfile_priv'', QString (c_str (sshkeys_priv s))),
         (''keyfile_pub'', QString (c_str (sshkeys_pub s))),
         (''fingerprint'', opt_value (fingerprintUnlocked E s)),
         (''authenticated'', opt_value (sshauthenticatedwith s)),
         (''connected'', QBool (sshConnectedUnlocked s))]
        @ (if sshConnectedUnlocked s then [(''methods'', QHash (methods_hash E s))] else []))
       (new_hash E d)"

definition sshInfo :: "('w, 'm) cenv \<Rightarrow> hashdecl \<Rightarrow> ('w, 'm) cst \<Rightarrow> (string \<times> qvalue) list" where
  "sshInfo E d s = sshInfoIntern E d s"

definition sftpInfo :: "('w, 'm) cenv \<Rightarrow> ('w, 'm) cst \<Rightarrow> (string \<times> qvalue) list" where
  "sftpInfo E s =
     set_keys [(''path'', if sftppath s = [] then QNothing else QString (sftppath s))]
       (sshInfoIntern E SftpConnectionInfo s)"

section \<open>The status of files\<close>

text \<open>\<open>struct stat\<close>, as far as the module reads it; sizes and times are signed.\<close>

record stat_buf =
  st_mode :: mode
  st_size :: "64 word"
  st_uid :: "32 word"
  st_gid :: "32 word"
  st_atime :: "64 word"
  st_mtime :: "64 word"

definition map_ssh2_sbuf_to_hash :: "(string \<times> qvalue) list \<Rightarrow> stat_buf \<Rightarrow> (string \<times> qvalue) list" where
  "map_ssh2_sbuf_to_hash h sbuf =
     set_keys
       [(''mode'', QInt (uint (st_mode sbuf))),
        (''permissions'', QString (mode2str (st_mode sbuf))),
        (''size'', QInt (sint (st_size sbuf))),
        (''uid'', QInt (uint (st_uid sbuf))),
        (''gid'', QInt (uint (st_gid sbuf))),
        (''atime'', QDate (sint (st_atime sbuf))),
        (''mtime'', QDate (sint (st_mtime sbuf)))] h"

definition LIBSSH2_SFTP_ATTR_SIZE :: "64 word" where "LIBSSH2_SFTP_ATTR_SIZE = 1"

definition LIBSSH2_SFTP_ATTR_ACMODTIME :: "64 word" where "LIBSSH2_SFTP_ATTR_ACMODTIME = 8"

definition attr2hash :: "('w, 'm) cenv \<Rightarrow> attrs \<Rightarrow> (string \<times> qvalue) list" where
  "attr2hash E a =
     (let has = (\<lambda>f. att_flags a AND f \<noteq> 0)
      in set_keys
        ((if has LIBSSH2_SFTP_ATTR_SIZE then [(''size'', QInt (sint (att_filesize a)))] else [])
         @ (if has LIBSSH2_SFTP_ATTR_ACMODTIME
            then [(''atime'', QDate (sint (att_atime a))), (''mtime'', QDate (sint (att_mtime a)))] else [])
         @ (if has LIBSSH2_SFTP_ATTR_UIDGID
            then [(''uid'', QInt (sint (att_uid a))), (''gid'', QInt (sint (att_gid a)))] else [])
         @ (if has LIBSSH2_SFTP_ATTR_PERMISSIONS
            then [(''mode'', QInt (sint (att_permissions a))),
                  (''permissions'', QString (mode2str (ucast (att_permissions a))))] else []))
        (new_hash E Ssh2StatInfo))"

text \<open>The hashes of \<open>sftpList()\<close>, \<open>sftpListFull()\<close> and \<open>sftpStatvfs()\<close>.\<close>

definition dir_info_hash :: "('w, 'm) cenv \<Rightarrow> dir_info \<Rightarrow> (string \<times> qvalue) list" where
  "dir_info_hash E d =
     set_keys
       [(''path'', QString (c_str (dir_path d))),
        (''directories'', QList (map QString (dir_directories d))),
        (''files'', QList (map QString (dir_files d))),
        (''links'', QList (map QString (dir_links d)))] (new_hash E SftpDirInfo)"

definition file_info_hash :: "('w, 'm) cenv \<Rightarrow> file_info \<Rightarrow> (string \<times> qvalue) list" where
  "file_info_hash E f =
     set_keys
       ((''name'', QString (fi_name f)) #
        (case fi_attrs f of
           None \<Rightarrow> []
         | Some (a, type, perm) \<Rightarrow>
             [(''size'', QInt (sint (att_filesize a))),
              (''atime'', QDate (sint (att_atime a))),
              (''mtime'', QDate (sint (att_mtime a))),
              (''uid'', QInt (sint (att_uid a))),
              (''gid'', QInt (sint (att_gid a))),
              (''mode'', QInt (sint (att_permissions a))),
              (''type'', QString type),
              (''perm'', QString perm)])) (new_hash E SftpFileInfo)"

definition statvfs_hash :: "('w, 'm) cenv \<Rightarrow> int list \<Rightarrow> (string \<times> qvalue) list" where
  "statvfs_hash E st =
     set_keys (zip (map fst SftpStatVfsInfo) (map QInt st)) (new_hash E SftpStatVfsInfo)"

section \<open>Queries of the library\<close>

text \<open>
  \<open>getExitSignal()\<close>: a string is reported when its pointer is not null and its length not zero,
  and freed when the pointer is not null.
\<close>

definition signal_key :: "string \<Rightarrow> string option \<Rightarrow> (string \<times> qvalue) list" where
  "signal_key k p = (case p of None \<Rightarrow> [] | Some v \<Rightarrow> if v = [] then [] else [(k, QString v)])"

definition free_string :: "('w, 'm) cenv \<Rightarrow> string option \<Rightarrow> ('w, 'm) cst \<Rightarrow> ('w, 'm) cst" where
  "free_string E p s = (case p of None \<Rightarrow> s | Some v \<Rightarrow> run_ext (lib_free E False (PtrString v)) s)"

definition getExitSignal ::
  "('w, 'm) cenv \<Rightarrow> nat \<Rightarrow> ('w, 'm) cst \<Rightarrow> (string \<times> qvalue) list option \<times> ('w, 'm) cst" where
  "getExitSignal E c s =
     (case check_open c s of (rc, s) \<Rightarrow>
        if rc \<noteq> 0 then (None, s)
        else case call_ext (channel_exit_signal E c) s of ((rc, exitsignal, errmsg, langtag), s) \<Rightarrow>
          if rc \<noteq> 0 then (None, doSessionErrUnlocked s)
          else
            (Some (set_keys (signal_key ''signal'' exitsignal @ signal_key ''errmsg'' errmsg
                     @ signal_key ''langtag'' langtag) (new_hash E Ssh2ExitSignalInfo)),
             free_string E langtag (free_string E errmsg (free_string E exitsignal s))))"

text \<open>
  \<open>getSupportedAlgorithms()\<close>: without a connection a temporary session is created and asked.
  The library gives the names with their positive number, or a code that is not positive.
\<close>

definition free_temp :: "('w, 'm) cenv \<Rightarrow> bool \<Rightarrow> ('w, 'm) cst \<Rightarrow> ('w, 'm) cst" where
  "free_temp E temp s = (if temp then run_ext (temp_session_free E) s else s)"

definition getSupportedAlgorithms ::
  "('w, 'm) cenv \<Rightarrow> int \<Rightarrow> ('w, 'm) cst \<Rightarrow> qvalue option \<times> ('w, 'm) cst" where
  "getSupportedAlgorithms E method_type s =
     (if \<not> have_supported_algs E then (None, raise True ''MISSING-FEATURE-ERROR'' s)
      else
        (let temp = (\<not> sshConnectedUnlocked s);
             (ok, s) = (if temp then call_ext (temp_session_init E) s else (True, s))
         in if \<not> ok then (None, raise True ''SSH2-ERROR'' s)
            else case call_ext (supported_algs E temp method_type) s of (r, s) \<Rightarrow>
              (case r of
                 Inr (a # algs) \<Rightarrow>
                   (Some (QList (map (\<lambda>n. QString (c_str n)) (a # algs))),
                    free_temp E temp (run_ext (lib_free E temp (PtrAlgs (a # algs))) s))
               | _ \<Rightarrow> (None, raise True ''SSH2-ERROR'' (free_temp E temp s)))))"

definition setTraceLevelLocked :: "('w, 'm) cenv \<Rightarrow> int \<Rightarrow> ('w, 'm) cst \<Rightarrow> int \<times> ('w, 'm) cst" where
  "setTraceLevelLocked E bitmask s =
     (if \<not> have_trace E then (-1, raise True ''MISSING-FEATURE-ERROR'' s)
      else if \<not> sshConnectedUnlocked s then (-1, raise True ''SSH2CLIENT-NOT-CONNECTED'' s)
      else (0, run_ext (session_trace E bitmask) s))"

section \<open>Conformance to the declarations\<close>

fun has_type :: "qtype \<Rightarrow> qvalue \<Rightarrow> bool" where
  "has_type TString v = (case v of QString _ \<Rightarrow> True | _ \<Rightarrow> False)"
| "has_type TInt v = (case v of QInt _ \<Rightarrow> True | _ \<Rightarrow> False)"
| "has_type TBool v = (case v of QBool _ \<Rightarrow> True | _ \<Rightarrow> False)"
| "has_type TBinary v = (case v of QBinary _ \<Rightarrow> True | _ \<Rightarrow> False)"
| "has_type TDate v = (case v of QDate _ \<Rightarrow> True | _ \<Rightarrow> False)"
| "has_type (THash t) v = (case v of QHash h \<Rightarrow> list_all (\<lambda>(k, x). has_type t x) h | _ \<Rightarrow> False)"
| "has_type (TList t) v = (case v of QList l \<Rightarrow> list_all (has_type t) l | _ \<Rightarrow> False)"
| "has_type (TOpt t) v = (v = QNothing \<or> has_type t v)"

text \<open>
  A hash conforms to its declaration when every key it has is a declared member, once, with a
  value of the member's type; it is complete when it has every member that is not optional.
\<close>

definition typed_key :: "hashdecl \<Rightarrow> string \<times> qvalue \<Rightarrow> bool" where
  "typed_key d kv = (case map_of d (fst kv) of None \<Rightarrow> False | Some t \<Rightarrow> has_type t (snd kv))"

definition conforms :: "hashdecl \<Rightarrow> (string \<times> qvalue) list \<Rightarrow> bool" where
  "conforms d h \<longleftrightarrow> list_all (typed_key d) h \<and> distinct (map fst h)"

definition is_optional :: "qtype \<Rightarrow> bool" where
  "is_optional t = (case t of TOpt _ \<Rightarrow> True | _ \<Rightarrow> False)"

definition complete :: "hashdecl \<Rightarrow> (string \<times> qvalue) list \<Rightarrow> bool" where
  "complete d h = list_all (\<lambda>(k, t). is_optional t \<or> k \<in> fst ` set h) d"

lemma set_keys_simps [simp]:
  "set_keys [] h = h" "set_keys (kv # kvs) h = set_keys kvs (AList.update (fst kv) (snd kv) h)"
  by (simp_all add: set_keys_def case_prod_unfold)

lemma set_keys_dom: "fst ` set (set_keys kvs h) = fst ` set kvs \<union> fst ` set h"
  by (induction kvs arbitrary: h) (auto simp: dom_update)

lemma set_keys_lookup: "map_of (set_keys kvs h) = map_of h ++ map_of (rev kvs)"
  by (induction kvs arbitrary: h) (auto simp: update_conv' fun_eq_iff map_add_def split: option.splits)

lemma set_keys_subset: "set (set_keys kvs h) \<subseteq> set kvs \<union> set h"
proof (induction kvs arbitrary: h)
  case (Cons kv kvs)
  have "set (AList.update (fst kv) (snd kv) h) \<subseteq> insert kv (set h)" by (induction h) auto
  with Cons [of "AList.update (fst kv) (snd kv) h"] show ?case by auto
qed simp

lemma conforms_set_keys:
  assumes "conforms d h" "list_all (typed_key d) kvs"
  shows "conforms d (set_keys kvs h)"
proof -
  have "distinct (map fst h) \<Longrightarrow> distinct (map fst (set_keys kvs h))"
    by (induction kvs arbitrary: h) (simp_all add: distinct_update)
  with assms set_keys_subset [of kvs h] show ?thesis by (auto simp: conforms_def list_all_iff)
qed

lemma complete_set_keys:
  "list_all (\<lambda>(k, t). is_optional t \<or> k \<in> fst ` set kvs) d \<Longrightarrow> complete d (set_keys kvs h)"
  by (auto simp: complete_def set_keys_dom list_all_iff)

lemma has_type_opt_value [simp]: "has_type (TOpt TString) (opt_value p)"
  by (simp add: opt_value_def split: option.split)

lemma methods_hash_typed: "has_type (THash TString) (QHash (methods_hash E s))"
  using set_keys_subset [of _ "[]"] by (fastforce simp: methods_hash_def list_all_iff split: option.splits)

lemmas decl_defs = Ssh2ConnectionInfo_def SftpConnectionInfo_def Ssh2HostKeyInfo_def Ssh2StatInfo_def
  SftpFileInfo_def SftpDirInfo_def SftpStatVfsInfo_def Ssh2ExitSignalInfo_def

lemma info_members:
  assumes "d = Ssh2ConnectionInfo \<or> d = SftpConnectionInfo"
  shows "map_of d ''ssh2host'' = Some TString" "map_of d ''ssh2port'' = Some TInt"
    "map_of d ''ssh2user'' = Some TString" "map_of d ''keyfile_priv'' = Some TString"
    "map_of d ''keyfile_pub'' = Some TString" "map_of d ''fingerprint'' = Some (TOpt TString)"
    "map_of d ''authenticated'' = Some (TOpt TString)" "map_of d ''connected'' = Some TBool"
    "map_of d ''methods'' = Some (THash TString)"
  by (rule disjE [OF assms]; simp add: decl_defs)+

lemma sshInfo_typed:
  assumes "conforms d (new_hash E d)" "d = Ssh2ConnectionInfo \<or> d = SftpConnectionInfo"
  shows "conforms d (sshInfoIntern E d s)"
    "sshConnectedUnlocked s \<Longrightarrow> complete d (sshInfoIntern E d s)"
proof -
  show "conforms d (sshInfoIntern E d s)"
    unfolding sshInfoIntern_def
    by (rule conforms_set_keys [OF assms(1)])
      (simp add: typed_key_def info_members [OF assms(2)] methods_hash_typed has_type_opt_value
        del: has_type.simps(6,8))
  show "complete d (sshInfoIntern E d s)" if "sshConnectedUnlocked s"
    unfolding sshInfoIntern_def using that
    by (intro complete_set_keys, rule_tac disjE [OF assms(2)]) (simp_all add: decl_defs is_optional_def)
qed

lemma complete_more: "complete d h \<Longrightarrow> complete d (set_keys kvs h)"
  unfolding complete_def set_keys_dom list_all_iff by fast

lemma sftpInfo_typed:
  assumes "conforms SftpConnectionInfo (new_hash E SftpConnectionInfo)"
  shows "conforms SftpConnectionInfo (sftpInfo E s)"
    "sshConnectedUnlocked s \<Longrightarrow> complete SftpConnectionInfo (sftpInfo E s)"
proof -
  show "conforms SftpConnectionInfo (sftpInfo E s)"
    unfolding sftpInfo_def
    by (rule conforms_set_keys [OF sshInfo_typed(1) [OF assms]]) (simp_all add: typed_key_def decl_defs)
  show "complete SftpConnectionInfo (sftpInfo E s)" if "sshConnectedUnlocked s"
    unfolding sftpInfo_def by (rule complete_more, rule sshInfo_typed(2) [OF assms]) (simp_all add: that)
qed

lemma stat_hashes_typed:
  assumes "conforms Ssh2StatInfo (new_hash E Ssh2StatInfo)"
  shows "conforms Ssh2StatInfo (attr2hash E a)"
    "conforms Ssh2StatInfo (map_ssh2_sbuf_to_hash (new_hash E Ssh2StatInfo) b)"
    "complete Ssh2StatInfo (map_ssh2_sbuf_to_hash (new_hash E Ssh2StatInfo) b)"
  unfolding attr2hash_def map_ssh2_sbuf_to_hash_def Let_def using assms
  by (intro conforms_set_keys complete_set_keys; simp add: typed_key_def decl_defs)+

lemma list_hashes_typed:
  assumes "conforms SftpDirInfo (new_hash E SftpDirInfo)" "conforms SftpFileInfo (new_hash E SftpFileInfo)"
    "conforms SftpStatVfsInfo (new_hash E SftpStatVfsInfo)"
  shows "conforms SftpDirInfo (dir_info_hash E d)" "complete SftpDirInfo (dir_info_hash E d)"
    "conforms SftpFileInfo (file_info_hash E f)" "conforms SftpStatVfsInfo (statvfs_hash E st)"
    "length st = 11 \<Longrightarrow> complete SftpStatVfsInfo (statvfs_hash E st)"
proof -
  show "conforms SftpDirInfo (dir_info_hash E d)" "complete SftpDirInfo (dir_info_hash E d)"
    unfolding dir_info_hash_def using assms(1)
    by (intro conforms_set_keys complete_set_keys; simp add: typed_key_def decl_defs list_all_iff)+
  show "conforms SftpFileInfo (file_info_hash E f)"
    unfolding file_info_hash_def using assms(2)
    by (intro conforms_set_keys) (simp_all add: typed_key_def decl_defs split: option.split)
  have "map_of SftpStatVfsInfo k = Some TInt" if "k \<in> set (map fst SftpStatVfsInfo)" for k
    using that by (auto simp: decl_defs)
  then have "typed_key SftpStatVfsInfo (k, v)" if "(k, v) \<in> set (zip (map fst SftpStatVfsInfo) (map QInt st))" for k v
    using set_zip_leftD [OF that] set_zip_rightD [OF that] by (auto simp: typed_key_def)
  then show "conforms SftpStatVfsInfo (statvfs_hash E st)"
    unfolding statvfs_hash_def using assms(3) by (intro conforms_set_keys) (auto simp: list_all_iff)
  show "complete SftpStatVfsInfo (statvfs_hash E st)" if "length st = 11"
  proof -
    have "fst ` set (zip (map fst SftpStatVfsInfo) (map QInt st)) = set (map fst SftpStatVfsInfo)"
      using that by (simp flip: set_map add: decl_defs)
    then show ?thesis unfolding statvfs_hash_def
      by (intro complete_set_keys) (auto simp: list_all_iff intro: rev_image_eqI)
  qed
qed

lemma hostkey_typed:
  assumes "conforms Ssh2HostKeyInfo h0" "getHostKeyLocked E s = (Some h, t)"
  shows "conforms Ssh2HostKeyInfo (set_keys h h0)"
  using assms by (intro conforms_set_keys)
    (auto simp: getHostKeyLocked_def typed_key_def decl_defs Let_def split: if_splits option.splits)

lemma exit_signal_typed:
  assumes "conforms Ssh2ExitSignalInfo (new_hash E Ssh2ExitSignalInfo)" "getExitSignal E c s = (Some h, t)"
  shows "conforms Ssh2ExitSignalInfo h"
proof -
  have "\<exists>a b l. h = set_keys (signal_key ''signal'' a @ signal_key ''errmsg'' b @ signal_key ''langtag'' l)
      (new_hash E Ssh2ExitSignalInfo)"
    using assms(2) by (auto simp: getExitSignal_def split: prod.splits if_splits)
  then show ?thesis
    using assms(1) by (auto intro!: conforms_set_keys simp: signal_key_def typed_key_def decl_defs split: option.split)
qed

section \<open>Reading back\<close>

text \<open>What a setter stored is what the getter returns, when no session is active.\<close>

lemma getters_read_back:
  assumes "\<not> sshSessionActiveUnlocked s"
  shows "getUserLocked (snd (setUser u s)) = u"
    "getPasswordLocked (snd (setPassword p s)) = p"
    "getKnownHostsFileLocked (snd (setKnownHostsFile (Some f) s)) = f"
    "getVerifyHostKey (snd (setVerifyHostKey v s)) = v"
    "fst (getClientIdentityProvider E (snd (setClientIdentityProvider E ob s))) = ob"
    "fst (getHostKeyStore E (snd (setHostKeyStore E ob s))) = ob"
    "getUseAgent (snd (setUseAgent v s)) = v"
    "getKeepalive (snd (setKeepalive n s)) = n"
    "b \<noteq> [] \<Longrightarrow> getBannerLocked E (snd (setBanner (Some b) s)) = Some b"
  using assms by (simp_all add: setter_defs reference_defs setUser_def getUserLocked_def setPassword_def
      getPasswordLocked_def setKnownHostsFile_def getKnownHostsFileLocked_def setVerifyHostKey_def
      getVerifyHostKey_def setClientIdentityProvider_def getClientIdentityProvider_def setHostKeyStore_def
      getHostKeyStore_def setUseAgent_def getUseAgent_def setKeepalive_def getKeepalive_def setBanner_def
      getBannerLocked_def sshConnectedUnlocked_def split: option.split)

section \<open>The queries as operations on a session\<close>

text \<open>A query changes nothing of the client.\<close>

lemma free_core [simp]: "core (free_string E p s) = core s" "core (free_temp E b s) = core s"
  by (simp_all add: free_string_def free_temp_def split: option.split)

lemma exit_signal_core: "core (snd (getExitSignal E c s)) = core s"
  by (auto simp: getExitSignal_def check_open_def call_ext_eq_pair doSessionErrUnlocked_def split: prod.splits)

lemma algorithms_core: "core (snd (getSupportedAlgorithms E mt s)) = core s"
  by (auto simp: getSupportedAlgorithms_def call_ext_eq_pair Let_def split: sum.splits list.splits)

lemma trace_core: "core (snd (setTraceLevelLocked E n s)) = core s"
  by (simp add: setTraceLevelLocked_def)

lemma host_key_core: "core (snd (getHostKeyLocked E s)) = core s"
  by (simp add: getHostKeyLocked_def Let_def split: option.split)

lemma keeps_core: "(\<And>s. core (snd (f s)) = core s) \<Longrightarrow> keeps (\<lambda>s. Some (f s))"
  by (rule keepsI) (metis kept_core option.inject snd_conv)

interpretation exit_signal: session_op "\<lambda>s. Some (getExitSignal E c s)" for E c
  by unfold_locales (rule keeps_core, rule exit_signal_core)

interpretation algorithms: session_op "\<lambda>s. Some (getSupportedAlgorithms E mt s)" for E mt
  by unfold_locales (rule keeps_core, rule algorithms_core)

interpretation trace_level: session_op "\<lambda>s. Some (setTraceLevelLocked E n s)" for E n
  by unfold_locales (rule keeps_core, rule trace_core)

interpretation host_key: session_op "\<lambda>s. Some (getHostKeyLocked E s)" for E
  by unfold_locales (rule keeps_core, rule host_key_core)

section \<open>Memory of the library\<close>

text \<open>
  What the queries rely on to free what they allocate: \<open>live\<close> counts the temporary sessions and
  the blocks that libssh2 has handed out. Creating a session and a list of names adds one,
  reporting a signal adds the strings whose pointers are set, and a release takes one away.
\<close>

definition set_ptr :: "'a option \<Rightarrow> int" where
  "set_ptr p = (if p = None then 0 else 1)"

definition counts_memory :: "('w \<Rightarrow> int) \<Rightarrow> ('w, 's) env \<Rightarrow> bool" where
  "counts_memory live E \<longleftrightarrow>
     (\<forall>w. live (snd (temp_session_init E w)) = live w + (if fst (temp_session_init E w) then 1 else 0))
     \<and> (\<forall>w. live (temp_session_free E w) = live w - 1)
     \<and> (\<forall>temp m w. live (snd (supported_algs E temp m w)) =
          live w + (case fst (supported_algs E temp m w) of Inr (_ # _) \<Rightarrow> 1 | _ \<Rightarrow> 0))
     \<and> (\<forall>temp p w. live (lib_free E temp p w) = live w - 1)
     \<and> (\<forall>c w. live (snd (channel_exit_signal E c w)) =
          live w + (case fst (channel_exit_signal E c w) of (rc, a, b, l) \<Rightarrow>
            if rc = 0 then set_ptr a + set_ptr b + set_ptr l else 0))"

lemma algorithms_memory:
  assumes "counts_memory live E"
  shows "live (world (snd (getSupportedAlgorithms E mt s))) = live (world s)"
  using assms
  by (auto simp: counts_memory_def getSupportedAlgorithms_def call_ext_eq_pair free_temp_def raise_def
      run_ext_def Let_def split: sum.splits list.splits)

lemma exit_signal_memory:
  assumes "counts_memory live E"
  shows "live (world (snd (getExitSignal E c s))) = live (world s)"
proof -
  have f: "live (world (free_string E p t)) = live (world t) - set_ptr p" for p t
    using assms by (simp add: counts_memory_def free_string_def set_ptr_def run_ext_def split: option.split)
  obtain rc a b l where q: "fst (channel_exit_signal E c (world s)) = (rc, a, b, l)" by (metis prod.exhaust)
  have "live (snd (channel_exit_signal E c (world s))) =
      live (world s) + (if rc = 0 then set_ptr a + set_ptr b + set_ptr l else 0)"
    using assms q by (simp add: counts_memory_def)
  then show ?thesis
    by (simp add: getExitSignal_def check_open_def call_ext_eq_pair q doSessionErrUnlocked_def raise_def f)
qed

section \<open>Properties\<close>

text \<open>
  C39 (type). Every hash the module returns conforms to its declaration, if the empty hash that
  Qore creates for it does: each key is a declared member, set once, with a value of the
  member's type, and NOTHING only for an optional member. The description of an established
  connection, the status of a file received with SCP, a directory listing and the statistics of
  a file system have every member that is not optional.
\<close>

theorem info_hashes_typed:
  assumes "\<forall>d. conforms d (new_hash E d)"
  shows "conforms Ssh2ConnectionInfo (sshInfo E Ssh2ConnectionInfo s) \<and> conforms SftpConnectionInfo (sftpInfo E s)
    \<and> (sshConnectedUnlocked s \<longrightarrow> complete Ssh2ConnectionInfo (sshInfo E Ssh2ConnectionInfo s)
         \<and> complete SftpConnectionInfo (sftpInfo E s))
    \<and> (\<forall>h t. getHostKeyLocked E s = (Some h, t) \<longrightarrow>
         conforms Ssh2HostKeyInfo (set_keys h (new_hash E Ssh2HostKeyInfo)))
    \<and> (\<forall>h t. getExitSignal E c s = (Some h, t) \<longrightarrow> conforms Ssh2ExitSignalInfo h)
    \<and> conforms Ssh2StatInfo (attr2hash E a)
    \<and> conforms Ssh2StatInfo (map_ssh2_sbuf_to_hash (new_hash E Ssh2StatInfo) b)
    \<and> complete Ssh2StatInfo (map_ssh2_sbuf_to_hash (new_hash E Ssh2StatInfo) b)
    \<and> conforms SftpDirInfo (dir_info_hash E (make_dir_info E p es))
    \<and> complete SftpDirInfo (dir_info_hash E (make_dir_info E p es))
    \<and> conforms SftpFileInfo (file_info_hash E (make_file_info e))
    \<and> conforms SftpStatVfsInfo (statvfs_hash E st)
    \<and> (length st = 11 \<longrightarrow> complete SftpStatVfsInfo (statvfs_hash E st))"
  unfolding sshInfo_def
  using assms hostkey_typed [of "new_hash E Ssh2HostKeyInfo" E s] exit_signal_typed [of E c s]
  by (intro conjI impI allI sshInfo_typed sftpInfo_typed stat_hashes_typed list_hashes_typed) blast+

theorem info_hashes_typed_witness:
  "sshConnectedUnlocked sftp_up \<and> complete SftpConnectionInfo (sftpInfo tenv sftp_up)
   \<and> hash_get (sftpInfo tenv sftp_up) ''path'' = QString ''/home/joe''
   \<and> hash_get (attr2hash tenv attrs0) ''permissions'' = QString ''-rw-r--r--''
   \<and> conforms Ssh2StatInfo (attr2hash tenv attrs0)"
proof -
  have "\<forall>d. conforms d (new_hash tenv d)" by (simp add: conforms_def env0_def)
  moreover have "sshConnectedUnlocked sftp_up" by (simp add: sshConnectedUnlocked_def example_defs)
  moreover have "hash_get (sftpInfo tenv sftp_up) ''path'' = QString ''/home/joe''" by code_simp
  moreover have "hash_get (attr2hash tenv attrs0) ''permissions'' = QString ''-rw-r--r--''" by code_simp
  ultimately show ?thesis using info_hashes_typed [of tenv sftp_up 0 attrs0] by blast
qed

text \<open>
  A client whose socket the I/O controller has closed is not connected any more, but its
  description still names the authentication of the session that is waiting to be freed.
\<close>

lemma info_after_closeIo:
  "hash_get (sshInfo tenv Ssh2ConnectionInfo (closeIo client_up)) ''connected'' = QBool False
   \<and> hash_get (sshInfo tenv Ssh2ConnectionInfo (closeIo client_up)) ''authenticated'' = QString ''password''"
  by code_simp

end
