(* ===== verification/Ssh2_Module.thy ===== *)
theory Ssh2_Module
  imports Ssh2_Info
begin

text \<open>
  Loading and unloading the module (\<open>src/src/ssh2-module.cpp\<close>): the required classes of the
  \<open>sshutil\<close> module, the version of libssh2, the host key defaults, the fork handler, the tables
  of error codes, and the names that the namespace \<open>Qore::SSH2\<close> gets. The state is that of the
  file's static variables.
\<close>

section \<open>State and environment\<close>

datatype ns_item =
    NsHashDecl string hashdecl
  | NsEnum string
  | NsClass string
  | NsConstant string qvalue

record module_state =
  ssh2_defaults :: hk_defaults
  QC_ABSTRACTSSHCLIENTIDENTITYPROVIDER :: "nat option"
  QC_ABSTRACTSSHHOSTKEYSTORE :: "nat option"
  qore_libssh2_version :: "string option"
  ssh2_defaults_fork_reg :: "nat option"
  ssh2_emap :: "(int \<times> string) list"
  sftp_emap :: "(int \<times> string \<times> string) list"
  ssh2ns :: "ns_item list"
  init_xsink :: "string list"

text \<open>
  The code outside: \<open>dlsym_accessor\<close> is \<open>None\<close> when the symbol is not found, and otherwise what the
  accessor returns when it is called; \<open>lib_const\<close> gives the value of a constant of libssh2, \<open>None\<close>
  for one that the version at hand does not define.
\<close>

record module_env =
  dlsym_accessor :: "string \<Rightarrow> nat option option"
  libssh2_version :: "string option"
  getenv_verify :: "string option"
  getenv_policy :: "string option"
  getenv_known_hosts :: "string option"
  register_fork_handler :: "nat option"
  lib_const :: "string \<Rightarrow> int option"
  have_forward_listen :: bool
  have_libssh2_trace :: bool
  oom_exn :: string

definition module_unloaded :: module_state where
  "module_unloaded = \<lparr>ssh2_defaults = ssh2_defaults_init, QC_ABSTRACTSSHCLIENTIDENTITYPROVIDER = None,
     QC_ABSTRACTSSHHOSTKEYSTORE = None, qore_libssh2_version = None, ssh2_defaults_fork_reg = None,
     ssh2_emap = [], sftp_emap = [], ssh2ns = [], init_xsink = []\<rparr>"

definition init_raise :: "string \<Rightarrow> module_state \<Rightarrow> module_state" where
  "init_raise code m = m\<lparr>init_xsink := init_xsink m @ [code]\<rparr>"

section \<open>The tables of error codes\<close>

text \<open>\<open>std::map::insert\<close> keeps the value of a key that is there already.\<close>

definition map_insert :: "'k \<Rightarrow> 'v \<Rightarrow> ('k \<times> 'v) list \<Rightarrow> ('k \<times> 'v) list" where
  "map_insert k v l = (case map_of l k of None \<Rightarrow> l @ [(k, v)] | Some _ \<Rightarrow> l)"

definition ssh2_error_names :: "string list" where
  "ssh2_error_names =
     [''LIBSSH2_ERROR_SOCKET_NONE'', ''LIBSSH2_ERROR_BANNER_RECV'',
      ''LIBSSH2_ERROR_BANNER_SEND'', ''LIBSSH2_ERROR_INVALID_MAC'',
      ''LIBSSH2_ERROR_KEX_FAILURE'', ''LIBSSH2_ERROR_ALLOC'', ''LIBSSH2_ERROR_SOCKET_SEND'',
      ''LIBSSH2_ERROR_KEY_EXCHANGE_FAILURE'', ''LIBSSH2_ERROR_TIMEOUT'',
      ''LIBSSH2_ERROR_HOSTKEY_INIT'', ''LIBSSH2_ERROR_HOSTKEY_SIGN'',
      ''LIBSSH2_ERROR_DECRYPT'', ''LIBSSH2_ERROR_SOCKET_DISCONNECT'', ''LIBSSH2_ERROR_PROTO'',
      ''LIBSSH2_ERROR_PASSWORD_EXPIRED'', ''LIBSSH2_ERROR_FILE'',
      ''LIBSSH2_ERROR_METHOD_NONE'', ''LIBSSH2_ERROR_AUTHENTICATION_FAILED'',
      ''LIBSSH2_ERROR_PUBLICKEY_UNRECOGNIZED'', ''LIBSSH2_ERROR_PUBLICKEY_UNVERIFIED'',
      ''LIBSSH2_ERROR_CHANNEL_OUTOFORDER'', ''LIBSSH2_ERROR_CHANNEL_FAILURE'',
      ''LIBSSH2_ERROR_CHANNEL_REQUEST_DENIED'', ''LIBSSH2_ERROR_CHANNEL_UNKNOWN'',
      ''LIBSSH2_ERROR_CHANNEL_WINDOW_EXCEEDED'', ''LIBSSH2_ERROR_CHANNEL_PACKET_EXCEEDED'',
      ''LIBSSH2_ERROR_CHANNEL_CLOSED'', ''LIBSSH2_ERROR_CHANNEL_EOF_SENT'',
      ''LIBSSH2_ERROR_SCP_PROTOCOL'', ''LIBSSH2_ERROR_ZLIB'', ''LIBSSH2_ERROR_SOCKET_TIMEOUT'',
      ''LIBSSH2_ERROR_SFTP_PROTOCOL'', ''LIBSSH2_ERROR_REQUEST_DENIED'',
      ''LIBSSH2_ERROR_METHOD_NOT_SUPPORTED'', ''LIBSSH2_ERROR_INVAL'',
      ''LIBSSH2_ERROR_INVALID_POLL_TYPE'', ''LIBSSH2_ERROR_PUBLICKEY_PROTOCOL'',
      ''LIBSSH2_ERROR_EAGAIN'', ''LIBSSH2_ERROR_BUFFER_TOO_SMALL'', ''LIBSSH2_ERROR_BAD_USE'',
      ''LIBSSH2_ERROR_COMPRESS'', ''LIBSSH2_ERROR_OUT_OF_BOUNDARY'',
      ''LIBSSH2_ERROR_AGENT_PROTOCOL'', ''LIBSSH2_ERROR_SOCKET_RECV'',
      ''LIBSSH2_ERROR_ENCRYPT'', ''LIBSSH2_ERROR_BAD_SOCKET'', ''LIBSSH2_ERROR_KNOWN_HOSTS'',
      ''LIBSSH2_ERROR_BANNER_NONE'']"

text \<open>The names of the constant, the first one that is defined counts; the name and the text that are shown.\<close>

definition sftp_errors :: "(string list \<times> string \<times> string) list" where
  "sftp_errors =
     [([''LIBSSH2_FX_OK''], ''LIBSSH2_FX_OK'', ''success''),
      ([''LIBSSH2_FX_EOF''], ''LIBSSH2_FX_EOF'', ''EOF: end of file''),
      ([''LIBSSH2_FX_NO_SUCH_FILE''], ''LIBSSH2_FX_NO_SUCH_FILE'', ''file does not exist''),
      ([''LIBSSH2_FX_PERMISSION_DENIED''], ''LIBSSH2_FX_PERMISSION_DENIED'', ''permission denied''),
      ([''LIBSSH2_FX_FAILURE''], ''LIBSSH2_FX_FAILURE'', ''command failed''),
      ([''LIBSSH2_FX_BAD_MESSAGE''], ''LIBSSH2_FX_BAD_MESSAGE'', ''bad message''),
      ([''LIBSSH2_FX_NO_CONNECTION''], ''LIBSSH2_FX_NO_CONNECTION'', ''no connection''),
      ([''LIBSSH2_FX_CONNECTION_LOST''], ''LIBSSH2_FX_CONNECTION_LOST'', ''connection lost''),
      ([''LIBSSH2_FX_OP_UNSUPPORTED''], ''LIBSSH2_FX_OP_UNSUPPORTED'', ''sshd sftp server does not support this operation''),
      ([''LIBSSH2_FX_INVALID_HANDLE''], ''LIBSSH2_FX_INVALID_HANDLE'', ''invalid handle''),
      ([''LIBSSH2_FX_NO_SUCH_PATH''], ''LIBSSH2_FX_NO_SUCH_PATH'', ''path does not exist''),
      ([''LIBSSH2_FX_FILE_ALREADY_EXISTS''], ''LIBSSH2_FX_FILE_ALREADY_EXISTS'', ''file already exists''),
      ([''LIBSSH2_FX_WRITE_PROTECT''], ''LIBSSH2_FX_WRITE_PROTECT'', ''write protected''),
      ([''LIBSSH2_FX_NO_MEDIA''], ''LIBSSH2_FX_NO_MEDIA'', ''no media''),
      ([''LIBSSH2_FX_NO_SPACE_ON_FILESYSTEM''], ''LIBSSH2_FX_NO_SPACE_ON_FILESYSTEM'', ''filesystem full''),
      ([''LIBSSH2_FX_QUOTA_EXCEEDED''], ''LIBSSH2_FX_QUOTA_EXCEEDED'', ''quota exceeded''),
      ([''LIBSSH2_FX_UNKNOWN_PRINCIPAL'', ''LIBSSH2_FX_UNKNOWN_PRINCIPLE''], ''LIBSSH2_FX_UNKNOWN_PRINCIPAL'', ''unknown principal''),
      ([''LIBSSH2_FX_LOCK_CONFLICT'', ''LIBSSH2_FX_LOCK_CONFlICT''], ''LIBSSH2_FX_LOCK_CONFLICT'', ''lock conflict''),
      ([''LIBSSH2_FX_DIR_NOT_EMPTY''], ''LIBSSH2_FX_DIR_NOT_EMPTY'', ''directory not empty''),
      ([''LIBSSH2_FX_NOT_A_DIRECTORY''], ''LIBSSH2_FX_NOT_A_DIRECTORY'', ''not a directory''),
      ([''LIBSSH2_FX_INVALID_FILENAME''], ''LIBSSH2_FX_INVALID_FILENAME'', ''invalid filename''),
      ([''LIBSSH2_FX_LINK_LOOP''], ''LIBSSH2_FX_LINK_LOOP'', ''link loop'')]"

fun first_const :: "module_env \<Rightarrow> string list \<Rightarrow> int option" where
  "first_const M [] = None"
| "first_const M (n # ns) = (case lib_const M n of None \<Rightarrow> first_const M ns | Some k \<Rightarrow> Some k)"

definition insert_all :: "('n \<Rightarrow> int option) \<Rightarrow> ('n \<Rightarrow> 'v) \<Rightarrow> 'n list \<Rightarrow> (int \<times> 'v) list \<Rightarrow> (int \<times> 'v) list" where
  "insert_all code val ns l =
     fold (\<lambda>n l. case code n of None \<Rightarrow> l | Some k \<Rightarrow> map_insert k (val n) l) ns l"

definition load_tables :: "module_env \<Rightarrow> module_state \<Rightarrow> module_state" where
  "load_tables M m =
     m\<lparr>ssh2_emap := insert_all (lib_const M) (\<lambda>n. n) ssh2_error_names (ssh2_emap m),
       sftp_emap := insert_all (\<lambda>e. first_const M (fst e)) snd sftp_errors (sftp_emap m)\<rparr>"

text \<open>
  The text of an SFTP error (\<open>SFTPClient::doSessionErrUnlocked()\<close>); the status code is an
  \<open>unsigned long\<close> and looked up as an \<open>int\<close>. \<open>msg\<close> is the message of the session.
\<close>

definition sftp_error_text :: "module_env \<Rightarrow> module_state \<Rightarrow> string \<Rightarrow> int \<Rightarrow> 64 word \<Rightarrow> string \<Rightarrow> string" where
  "sftp_error_text M m desc err serr msg =
     (if lib_const M ''LIBSSH2_ERROR_SFTP_PROTOCOL'' = Some err then
        desc @ '': sftp error code '' @ dec_nat (unat serr)
        @ (case map_of (sftp_emap m) (sint (ucast serr :: 32 word)) of
             Some (e, d) \<Rightarrow> '' ('' @ e @ ''): '' @ d
           | None \<Rightarrow> '': unknown sftp error code'')
      else desc @ '': ssh2 error '' @ dec_int err @ '': '' @ msg)"

section \<open>Initialisation\<close>

text \<open>The exception, if any, and the new value of the variable for the class.\<close>

definition ssh2_resolve_sshutil_class :: "module_env \<Rightarrow> string \<Rightarrow> nat option \<Rightarrow> string option \<times> nat option" where
  "ssh2_resolve_sshutil_class M accessor target =
     (case dlsym_accessor M accessor of
        None \<Rightarrow> (Some ''MODULE-INIT-ERROR'', target)
      | Some None \<Rightarrow> (Some ''MODULE-INIT-ERROR'', None)
      | Some (Some c) \<Rightarrow> (None, Some c))"

definition module_hashdecls :: "ns_item list" where
  "module_hashdecls =
     [NsHashDecl ''SftpFileInfo'' SftpFileInfo, NsHashDecl ''SftpDirInfo'' SftpDirInfo,
      NsHashDecl ''SftpConnectionInfo'' SftpConnectionInfo, NsHashDecl ''Ssh2ConnectionInfo'' Ssh2ConnectionInfo,
      NsHashDecl ''Ssh2StatInfo'' Ssh2StatInfo, NsHashDecl ''SftpStatVfsInfo'' SftpStatVfsInfo,
      NsHashDecl ''Ssh2ExitSignalInfo'' Ssh2ExitSignalInfo, NsHashDecl ''Ssh2HostKeyInfo'' Ssh2HostKeyInfo]"

definition module_classes :: "module_env \<Rightarrow> ns_item list" where
  "module_classes M =
     [NsClass ''SSH2Base'', NsClass ''SSH2Channel'']
     @ (if have_forward_listen M then [NsClass ''SSH2Listener''] else [])
     @ [NsClass ''SSH2Client'', NsClass ''SftpPollOperation'', NsClass ''SFTPClient'']"

definition trace_names :: "string list" where
  "trace_names = [''TRANS'', ''KEX'', ''AUTH'', ''CONN'', ''SCP'', ''SFTP'', ''ERROR'', ''PUBLICKEY'', ''SOCKET'']"

definition policy_constants :: "string \<Rightarrow> ns_item list" where
  "policy_constants version =
     [NsConstant ''Version'' (QString (c_str version)),
      NsConstant ''SSH2_HOSTKEY_REJECT'' (QInt SSH2_HOSTKEY_REJECT),
      NsConstant ''SSH2_HOSTKEY_TOFU'' (QInt SSH2_HOSTKEY_TOFU),
      NsConstant ''SSH2_HOSTKEY_TOFU_SESSION'' (QInt SSH2_HOSTKEY_TOFU_SESSION),
      NsConstant ''SSH2_CLIENT_AUTH_EXPLICIT_FIRST'' (QInt SSH2_CLIENT_AUTH_EXPLICIT_FIRST),
      NsConstant ''SSH2_CLIENT_AUTH_PROVIDER_FIRST'' (QInt SSH2_CLIENT_AUTH_PROVIDER_FIRST),
      NsConstant ''SSH2_CLIENT_ID_FALLBACK_DISABLED'' (QInt SSH2_CLIENT_ID_FALLBACK_DISABLED),
      NsConstant ''SSH2_CLIENT_ID_FALLBACK_AGENT'' (QInt SSH2_CLIENT_ID_FALLBACK_AGENT),
      NsConstant ''SSH2_CLIENT_ID_FALLBACK_DEFAULT_KEYS'' (QInt SSH2_CLIENT_ID_FALLBACK_DEFAULT_KEYS),
      NsConstant ''SSH2_CLIENT_ID_FALLBACK_AGENT_AND_DEFAULT_KEYS''
        (QInt SSH2_CLIENT_ID_FALLBACK_AGENT_AND_DEFAULT_KEYS)]"

definition trace_name :: "string \<Rightarrow> string" where
  "trace_name n = ''SSH2_TRACE_'' @ n"

definition trace_constants :: "module_env \<Rightarrow> ns_item list" where
  "trace_constants M =
     (if have_libssh2_trace M
      then List.map_filter (\<lambda>n. map_option (\<lambda>k. NsConstant (trace_name n) (QInt k))
             (lib_const M (''LIBSSH2_TRACE_'' @ n))) trace_names
      else [])"

definition register_names :: "module_env \<Rightarrow> string \<Rightarrow> module_state \<Rightarrow> module_state" where
  "register_names M version m =
     m\<lparr>ssh2ns := ssh2ns m @ module_hashdecls
         @ [NsEnum ''Ssh2HostKeyPolicy'', NsEnum ''Ssh2ClientAuthOrder'', NsEnum ''Ssh2ClientIdentityFallbackPolicy'']
         @ module_classes M @ policy_constants version @ trace_constants M\<rparr>"

definition init_library :: "module_env \<Rightarrow> module_state \<Rightarrow> module_state" where
  "init_library M m =
     (let m = m\<lparr>qore_libssh2_version := libssh2_version M\<rparr>
      in case libssh2_version M of
           None \<Rightarrow> init_raise ''MODULE-INIT-ERROR'' m
         | Some version \<Rightarrow>
             (let m = m\<lparr>ssh2_defaults := ssh2_init_host_key_defaults (getenv_verify M)
                          (getenv_policy M) (getenv_known_hosts M) (ssh2_defaults m),
                        ssh2_defaults_fork_reg := register_fork_handler M\<rparr>
              in if register_fork_handler M = None then init_raise (oom_exn M) m
                 else register_names M version (load_tables M m)))"

definition ssh2_module_init :: "module_env \<Rightarrow> module_state \<Rightarrow> module_state" where
  "ssh2_module_init M m =
     (case ssh2_resolve_sshutil_class M ''sshutil_get_abstract_ssh_client_identity_provider_class''
             (QC_ABSTRACTSSHCLIENTIDENTITYPROVIDER m) of (e, c) \<Rightarrow>
        (let m = m\<lparr>QC_ABSTRACTSSHCLIENTIDENTITYPROVIDER := c\<rparr>
         in case e of
              Some code \<Rightarrow> init_raise code m
            | None \<Rightarrow>
                (case ssh2_resolve_sshutil_class M ''sshutil_get_abstract_ssh_host_key_store_class''
                        (QC_ABSTRACTSSHHOSTKEYSTORE m) of (e, c) \<Rightarrow>
                   (let m = m\<lparr>QC_ABSTRACTSSHHOSTKEYSTORE := c\<rparr>
                    in case e of Some code \<Rightarrow> init_raise code m | None \<Rightarrow> init_library M m))))"

text \<open>
  For each program: the calls of \<open>libssh2_init()\<close> so far, and the namespaces that were added to
  Qore's namespace.
\<close>

definition ssh2_module_ns_init ::
  "module_env \<Rightarrow> module_state \<Rightarrow> int list \<times> ns_item list list \<Rightarrow> int list \<times> ns_item list list" where
  "ssh2_module_ns_init M m =
     (\<lambda>(calls, qns). (case lib_const M ''LIBSSH2_INIT_NO_CRYPTO'' of
                      None \<Rightarrow> calls | Some flag \<Rightarrow> calls @ [flag],
                    qns @ [ssh2ns m]))"

definition ssh2_module_delete :: "module_state \<Rightarrow> module_state" where
  "ssh2_module_delete m = m\<lparr>ssh2_defaults_fork_reg := None\<rparr>"

section \<open>Lemmas\<close>

lemma map_insert_lookup:
  "map_of (map_insert k v l) j = (if j = k \<and> map_of l k = None then Some v else map_of l j)"
  by (auto simp: map_insert_def map_add_def split: option.split)

text \<open>
  A table holds, for exactly the codes that one of the names has, the value of the first such
  name.
\<close>

definition table_of :: "('n \<Rightarrow> int option) \<Rightarrow> ('n \<Rightarrow> 'v) \<Rightarrow> 'n list \<Rightarrow> (int \<times> 'v) list \<Rightarrow> bool" where
  "table_of code val ns l \<longleftrightarrow> (\<forall>k. map_of l k = map_option val (find (\<lambda>n. code n = Some k) ns))"

lemma insert_all_lookup:
  "map_of (insert_all code val ns l) k =
     (case map_of l k of Some v \<Rightarrow> Some v | None \<Rightarrow> map_option val (find (\<lambda>n. code n = Some k) ns))"
  by (induction ns arbitrary: l)
    (auto simp: insert_all_def map_insert_lookup split: option.splits)

lemma insert_all_table: "table_of code val ns (insert_all code val ns [])"
  by (simp add: table_of_def insert_all_lookup)

section \<open>Properties\<close>

fun ns_name :: "ns_item \<Rightarrow> string" where
  "ns_name (NsHashDecl n d) = n"
| "ns_name (NsEnum n) = n"
| "ns_name (NsClass n) = n"
| "ns_name (NsConstant n v) = n"

definition precedes :: "'a \<Rightarrow> 'a \<Rightarrow> 'a list \<Rightarrow> bool" where
  "precedes x y l \<longleftrightarrow> (\<exists>a b. l = a @ b \<and> x \<in> set a \<and> y \<in> set b)"

lemma map_filter_distinct:
  assumes "\<And>x y. f x = Some y \<Longrightarrow> g y = h x" "distinct (map h xs)"
  shows "distinct (map g (List.map_filter f xs)) \<and> set (map g (List.map_filter f xs)) \<subseteq> h ` set xs"
  using assms(2) by (induction xs) (auto simp: List.map_filter_simps assms(1) split: option.split)

definition static_names :: "module_env \<Rightarrow> string \<Rightarrow> ns_item list" where
  "static_names M version = module_hashdecls
     @ [NsEnum ''Ssh2HostKeyPolicy'', NsEnum ''Ssh2ClientAuthOrder'', NsEnum ''Ssh2ClientIdentityFallbackPolicy'']
     @ module_classes M @ policy_constants version"

definition registered :: "module_env \<Rightarrow> string \<Rightarrow> ns_item list" where
  "registered M version = static_names M version @ trace_constants M"

lemma register_names_eq: "register_names M version m = m\<lparr>ssh2ns := ssh2ns m @ registered M version\<rparr>"
  by (simp add: register_names_def registered_def static_names_def)

lemma static_names_ok:
  "distinct (map ns_name (static_names M version))"
  "\<forall>i \<in> set (static_names M version). take 11 (ns_name i) \<noteq> ''SSH2_TRACE_''"
  by (simp_all add: static_names_def module_hashdecls_def module_classes_def policy_constants_def)

lemma trace_constants_ok:
  "distinct (map ns_name (trace_constants M)) \<and> set (map ns_name (trace_constants M)) \<subseteq> trace_name ` set trace_names"
proof -
  have "distinct (map trace_name trace_names)" by (simp add: trace_names_def trace_name_def)
  from map_filter_distinct [OF _ this, of "\<lambda>n. map_option (\<lambda>k. NsConstant (trace_name n) (QInt k))
      (lib_const M (''LIBSSH2_TRACE_'' @ n))" ns_name]
  have "distinct (map ns_name (trace_constants M)) \<and> set (map ns_name (trace_constants M)) \<subseteq> trace_name ` set trace_names"
    if "have_libssh2_trace M"
    unfolding trace_constants_def if_P [OF that] by fastforce
  then show ?thesis by (cases "have_libssh2_trace M") (simp_all add: trace_constants_def)
qed

lemma registered_distinct: "distinct (map ns_name (registered M version))"
proof -
  have "take 11 (trace_name n) = ''SSH2_TRACE_''" for n by (simp add: trace_name_def)
  with static_names_ok(2) [of M version]
  have "i \<in> set (static_names M version) \<Longrightarrow> ns_name i \<notin> trace_name ` set trace_names" for i by (metis imageE)
  then have "ns_name ` set (static_names M version) \<inter> trace_name ` set trace_names = {}" by blast
  with static_names_ok(1) [of M version] trace_constants_ok [of M] show ?thesis
    unfolding registered_def by (simp add: disjoint_iff subset_iff) blast
qed

lemma trace_no_class: "NsClass c \<notin> set (trace_constants M)"
  by (auto simp: trace_constants_def List.map_filter_def)

lemma listener_before_client:
  "precedes (NsClass ''SSH2Listener'') (NsClass ''SSH2Client'') (registered M version) = have_forward_listen M"
proof
  assume "precedes (NsClass ''SSH2Listener'') (NsClass ''SSH2Client'') (registered M version)"
  then have "NsClass ''SSH2Listener'' \<in> set (registered M version)" by (auto simp: precedes_def)
  then show "have_forward_listen M"
    by (auto simp: registered_def static_names_def module_hashdecls_def module_classes_def
        policy_constants_def trace_no_class split: if_splits)
next
  assume "have_forward_listen M"
  then show "precedes (NsClass ''SSH2Listener'') (NsClass ''SSH2Client'') (registered M version)"
    unfolding precedes_def
    by (intro exI [of _ "module_hashdecls @ [NsEnum ''Ssh2HostKeyPolicy'', NsEnum ''Ssh2ClientAuthOrder'',
          NsEnum ''Ssh2ClientIdentityFallbackPolicy'', NsClass ''SSH2Base'', NsClass ''SSH2Channel'', NsClass ''SSH2Listener'']"]
        exI [of _ "[NsClass ''SSH2Client'', NsClass ''SftpPollOperation'', NsClass ''SFTPClient'']
          @ policy_constants version @ trace_constants M"])
      (simp add: registered_def static_names_def module_classes_def)
qed

lemma poll_before_sftp:
  "precedes (NsClass ''SftpPollOperation'') (NsClass ''SFTPClient'') (registered M version)"
  unfolding precedes_def
  by (intro exI [of _ "module_hashdecls @ [NsEnum ''Ssh2HostKeyPolicy'', NsEnum ''Ssh2ClientAuthOrder'',
        NsEnum ''Ssh2ClientIdentityFallbackPolicy''] @ butlast (module_classes M)"]
      exI [of _ "NsClass ''SFTPClient'' # policy_constants version @ trace_constants M"])
    (simp add: registered_def static_names_def module_classes_def)

text \<open>The items of each kind that a namespace has, in the order in which they were added.\<close>

definition ns_hashdecls :: "ns_item list \<Rightarrow> (string \<times> hashdecl) list" where
  "ns_hashdecls = List.map_filter (\<lambda>i. case i of NsHashDecl n d \<Rightarrow> Some (n, d) | _ \<Rightarrow> None)"

definition ns_enums :: "ns_item list \<Rightarrow> string list" where
  "ns_enums = List.map_filter (\<lambda>i. case i of NsEnum n \<Rightarrow> Some n | _ \<Rightarrow> None)"

definition ns_classes :: "ns_item list \<Rightarrow> string list" where
  "ns_classes = List.map_filter (\<lambda>i. case i of NsClass n \<Rightarrow> Some n | _ \<Rightarrow> None)"

definition ns_constants :: "ns_item list \<Rightarrow> (string \<times> qvalue) list" where
  "ns_constants = List.map_filter (\<lambda>i. case i of NsConstant n v \<Rightarrow> Some (n, v) | _ \<Rightarrow> None)"

text \<open>The namespace that the module is to have.\<close>

definition namespace_complete :: "module_env \<Rightarrow> string \<Rightarrow> ns_item list \<Rightarrow> bool" where
  "namespace_complete M version ns \<longleftrightarrow>
     ns_hashdecls ns = [(''SftpFileInfo'', SftpFileInfo), (''SftpDirInfo'', SftpDirInfo),
       (''SftpConnectionInfo'', SftpConnectionInfo), (''Ssh2ConnectionInfo'', Ssh2ConnectionInfo),
       (''Ssh2StatInfo'', Ssh2StatInfo), (''SftpStatVfsInfo'', SftpStatVfsInfo),
       (''Ssh2ExitSignalInfo'', Ssh2ExitSignalInfo), (''Ssh2HostKeyInfo'', Ssh2HostKeyInfo)]
     \<and> ns_enums ns = [''Ssh2HostKeyPolicy'', ''Ssh2ClientAuthOrder'', ''Ssh2ClientIdentityFallbackPolicy'']
     \<and> ns_classes ns = [''SSH2Base'', ''SSH2Channel''] @ (if have_forward_listen M then [''SSH2Listener''] else [])
         @ [''SSH2Client'', ''SftpPollOperation'', ''SFTPClient'']
     \<and> ns_constants ns = [(''Version'', QString (c_str version)), (''SSH2_HOSTKEY_REJECT'', QInt 0),
           (''SSH2_HOSTKEY_TOFU'', QInt 1), (''SSH2_HOSTKEY_TOFU_SESSION'', QInt 2),
           (''SSH2_CLIENT_AUTH_EXPLICIT_FIRST'', QInt 0), (''SSH2_CLIENT_AUTH_PROVIDER_FIRST'', QInt 1),
           (''SSH2_CLIENT_ID_FALLBACK_DISABLED'', QInt 0), (''SSH2_CLIENT_ID_FALLBACK_AGENT'', QInt 1),
           (''SSH2_CLIENT_ID_FALLBACK_DEFAULT_KEYS'', QInt 2), (''SSH2_CLIENT_ID_FALLBACK_AGENT_AND_DEFAULT_KEYS'', QInt 3)]
         @ (if have_libssh2_trace M
            then List.map_filter (\<lambda>n. map_option (\<lambda>k. (''SSH2_TRACE_'' @ n, QInt k)) (lib_const M (''LIBSSH2_TRACE_'' @ n)))
              [''TRANS'', ''KEX'', ''AUTH'', ''CONN'', ''SCP'', ''SFTP'', ''ERROR'', ''PUBLICKEY'', ''SOCKET'']
            else [])"

lemma map_filter_append: "List.map_filter f (xs @ ys) = List.map_filter f xs @ List.map_filter f ys"
  by (simp add: List.map_filter_def)

lemmas ns_kinds = ns_hashdecls_def ns_enums_def ns_classes_def ns_constants_def

lemma constants_kinds:
  fixes f :: "string \<Rightarrow> int option"
  defines "cs \<equiv> \<lambda>ns. List.map_filter (\<lambda>n. map_option (\<lambda>k. NsConstant (trace_name n) (QInt k)) (f n)) ns"
  shows "ns_hashdecls (cs ns) = []" "ns_enums (cs ns) = []" "ns_classes (cs ns) = []"
    "ns_constants (cs ns) = List.map_filter (\<lambda>n. map_option (\<lambda>k. (trace_name n, QInt k)) (f n)) ns"
  unfolding cs_def by (induction ns) (auto simp: ns_kinds List.map_filter_simps split: option.split)

lemma trace_kinds:
  "ns_hashdecls (trace_constants M) = []" "ns_enums (trace_constants M) = []" "ns_classes (trace_constants M) = []"
  "ns_constants (trace_constants M) = (if have_libssh2_trace M
     then List.map_filter (\<lambda>n. map_option (\<lambda>k. (trace_name n, QInt k)) (lib_const M (''LIBSSH2_TRACE_'' @ n))) trace_names
     else [])"
  unfolding trace_constants_def using constants_kinds [of "\<lambda>n. lib_const M (''LIBSSH2_TRACE_'' @ n)" trace_names]
  by (simp_all split: if_split) (simp_all add: ns_kinds List.map_filter_simps)

lemma ns_kinds_append:
  "ns_hashdecls (xs @ ys) = ns_hashdecls xs @ ns_hashdecls ys" "ns_enums (xs @ ys) = ns_enums xs @ ns_enums ys"
  "ns_classes (xs @ ys) = ns_classes xs @ ns_classes ys" "ns_constants (xs @ ys) = ns_constants xs @ ns_constants ys"
  by (simp_all add: ns_kinds map_filter_append)

lemma registered_complete: "namespace_complete M version (registered M version)"
proof -
  note parts = static_names_def module_hashdecls_def module_classes_def policy_constants_def
    SSH2_HOSTKEY_REJECT_def SSH2_HOSTKEY_TOFU_def SSH2_HOSTKEY_TOFU_SESSION_def SSH2_CLIENT_AUTH_EXPLICIT_FIRST_def
    SSH2_CLIENT_AUTH_PROVIDER_FIRST_def SSH2_CLIENT_ID_FALLBACK_DISABLED_def SSH2_CLIENT_ID_FALLBACK_AGENT_def
    SSH2_CLIENT_ID_FALLBACK_DEFAULT_KEYS_def SSH2_CLIENT_ID_FALLBACK_AGENT_AND_DEFAULT_KEYS_def
  show ?thesis
    unfolding namespace_complete_def registered_def ns_kinds_append trace_kinds trace_names_def trace_name_def
    by (cases "have_forward_listen M") (simp_all add: parts ns_kinds_append ns_kinds List.map_filter_simps)
qed

lemma init_library_outcome:
  assumes "init_xsink m = []" "ssh2ns m = []" "ssh2_emap m = []" "sftp_emap m = []"
    "ssh2_defaults_fork_reg m = None" "ssh2_defaults m = ssh2_defaults_init"
  shows "(\<exists>version n. libssh2_version M = Some version \<and> register_fork_handler M = Some n
       \<and> init_library M m = m\<lparr>qore_libssh2_version := Some version,
           ssh2_defaults := ssh2_init_host_key_defaults (getenv_verify M) (getenv_policy M)
             (getenv_known_hosts M) ssh2_defaults_init,
           ssh2_defaults_fork_reg := Some n,
           ssh2_emap := insert_all (lib_const M) (\<lambda>n. n) ssh2_error_names [],
           sftp_emap := insert_all (\<lambda>e. first_const M (fst e)) snd sftp_errors [],
           ssh2ns := registered M version\<rparr>)
     \<or> ((libssh2_version M = None \<or> register_fork_handler M = None) \<and> length (init_xsink (init_library M m)) = 1
       \<and> ssh2ns (init_library M m) = [] \<and> ssh2_emap (init_library M m) = [] \<and> sftp_emap (init_library M m) = []
       \<and> ssh2_defaults_fork_reg (init_library M m) = None)"
  using assms by (cases "libssh2_version M"; cases "register_fork_handler M")
    (simp_all add: init_library_def init_raise_def load_tables_def register_names_eq)

abbreviation identity_accessor :: string where
  "identity_accessor \<equiv> ''sshutil_get_abstract_ssh_client_identity_provider_class''"

abbreviation store_accessor :: string where
  "store_accessor \<equiv> ''sshutil_get_abstract_ssh_host_key_store_class''"

text \<open>
  What a successful initialisation leaves: the classes, the version and the fork handler that the
  environment gave, the host key defaults of its variables, the whole namespace, and the tables.
\<close>

definition module_ready :: "module_env \<Rightarrow> module_state \<Rightarrow> bool" where
  "module_ready M t \<longleftrightarrow>
     QC_ABSTRACTSSHCLIENTIDENTITYPROVIDER t \<noteq> None
     \<and> dlsym_accessor M identity_accessor = Some (QC_ABSTRACTSSHCLIENTIDENTITYPROVIDER t)
     \<and> QC_ABSTRACTSSHHOSTKEYSTORE t \<noteq> None \<and> dlsym_accessor M store_accessor = Some (QC_ABSTRACTSSHHOSTKEYSTORE t)
     \<and> ssh2_defaults_fork_reg t \<noteq> None \<and> ssh2_defaults_fork_reg t = register_fork_handler M
     \<and> ssh2_defaults t = ssh2_init_host_key_defaults (getenv_verify M) (getenv_policy M) (getenv_known_hosts M) ssh2_defaults_init
     \<and> defaults_reachable (ssh2_defaults t)
     \<and> (\<exists>version. libssh2_version M = Some version \<and> qore_libssh2_version t = Some version
          \<and> namespace_complete M version (ssh2ns t))
     \<and> distinct (map ns_name (ssh2ns t))
     \<and> precedes (NsClass ''SSH2Listener'') (NsClass ''SSH2Client'') (ssh2ns t) = have_forward_listen M
     \<and> precedes (NsClass ''SftpPollOperation'') (NsClass ''SFTPClient'') (ssh2ns t)
     \<and> table_of (lib_const M) (\<lambda>n. n) ssh2_error_names (ssh2_emap t)
     \<and> table_of (\<lambda>e. first_const M (fst e)) snd sftp_errors (sftp_emap t)"

lemma module_readyI:
  assumes "t = m\<lparr>qore_libssh2_version := Some version,
      ssh2_defaults := ssh2_init_host_key_defaults (getenv_verify M) (getenv_policy M) (getenv_known_hosts M) ssh2_defaults_init,
      ssh2_defaults_fork_reg := Some n,
      ssh2_emap := insert_all (lib_const M) (\<lambda>n. n) ssh2_error_names [],
      sftp_emap := insert_all (\<lambda>e. first_const M (fst e)) snd sftp_errors [], ssh2ns := registered M version\<rparr>"
    "libssh2_version M = Some version" "register_fork_handler M = Some n"
    "dlsym_accessor M identity_accessor = Some (QC_ABSTRACTSSHCLIENTIDENTITYPROVIDER m)" "QC_ABSTRACTSSHCLIENTIDENTITYPROVIDER m \<noteq> None"
    "dlsym_accessor M store_accessor = Some (QC_ABSTRACTSSHHOSTKEYSTORE m)" "QC_ABSTRACTSSHHOSTKEYSTORE m \<noteq> None"
  shows "module_ready M t"
  using assms(2-) unfolding module_ready_def assms(1)
  by (simp add: registered_distinct registered_complete listener_before_client poll_before_sftp insert_all_table
      defaults_reachable.loaded)

text \<open>Nothing is left registered by an initialisation that failed.\<close>

definition module_absent :: "module_state \<Rightarrow> bool" where
  "module_absent t \<longleftrightarrow> length (init_xsink t) = 1 \<and> ssh2ns t = [] \<and> ssh2_emap t = [] \<and> sftp_emap t = []
     \<and> ssh2_defaults_fork_reg t = None"

text \<open>
  C21 (error). Loading the module succeeds exactly when both classes of \<open>sshutil\<close> are found, the
  version of libssh2 is recent enough and the fork handler is registered. Then no exception is
  raised and everything is in place: the two classes and the version that were found, the
  host key defaults that the environment variables give, a namespace with exactly the eight
  hash declarations, three enumerations, five or six classes, ten constants with their values and the trace
  constants that libssh2 defines, in which every name occurs once and the classes come after
  those they refer to, and tables that give for every error code the first name that has it.
  Otherwise exactly one exception is raised, no name and no error code is registered and no
  fork handler is left. Unloading releases the fork handler.
\<close>

theorem module_init_outcome:
  "(if (\<exists>c. dlsym_accessor M identity_accessor = Some (Some c)) \<and> (\<exists>c. dlsym_accessor M store_accessor = Some (Some c))
       \<and> libssh2_version M \<noteq> None \<and> register_fork_handler M \<noteq> None
    then init_xsink (ssh2_module_init M module_unloaded) = [] \<and> module_ready M (ssh2_module_init M module_unloaded)
    else module_absent (ssh2_module_init M module_unloaded))
   \<and> ssh2_defaults_fork_reg (ssh2_module_delete (ssh2_module_init M module_unloaded)) = None"
proof -
  let ?t = "ssh2_module_init M module_unloaded"
  have early: "module_absent ?t" if "\<nexists>c. dlsym_accessor M identity_accessor = Some (Some c)"
    using that by (auto simp: ssh2_module_init_def ssh2_resolve_sshutil_class_def module_unloaded_def
        init_raise_def module_absent_def split: option.splits)
  have store: "module_absent ?t" if "\<nexists>c. dlsym_accessor M store_accessor = Some (Some c)"
    using that by (auto simp: ssh2_module_init_def ssh2_resolve_sshutil_class_def module_unloaded_def
        init_raise_def module_absent_def split: option.splits)
  have rest: "?t = init_library M (module_unloaded\<lparr>QC_ABSTRACTSSHCLIENTIDENTITYPROVIDER := Some c,
      QC_ABSTRACTSSHHOSTKEYSTORE := Some d\<rparr>)"
    if "dlsym_accessor M identity_accessor = Some (Some c)" "dlsym_accessor M store_accessor = Some (Some d)" for c d
    using that by (simp add: ssh2_module_init_def ssh2_resolve_sshutil_class_def)
  have lib: "if libssh2_version M \<noteq> None \<and> register_fork_handler M \<noteq> None
      then init_xsink ?t = [] \<and> module_ready M ?t else module_absent ?t"
    if cd: "dlsym_accessor M identity_accessor = Some (Some c)" "dlsym_accessor M store_accessor = Some (Some d)" for c d
  proof -
    let ?m = "module_unloaded\<lparr>QC_ABSTRACTSSHCLIENTIDENTITYPROVIDER := Some c, QC_ABSTRACTSSHHOSTKEYSTORE := Some d\<rparr>"
    have m: "init_xsink ?m = []" "ssh2ns ?m = []" "ssh2_emap ?m = []" "sftp_emap ?m = []"
      "ssh2_defaults_fork_reg ?m = None" "ssh2_defaults ?m = ssh2_defaults_init" by (simp_all add: module_unloaded_def)
    from init_library_outcome [OF m, of M] show ?thesis
    proof (elim disjE exE conjE, goal_cases)
      case (1 version n)
      have "module_ready M ?t"
        by (rule module_readyI [OF rest [OF cd, unfolded 1(3)] 1(1,2)]) (simp_all add: cd)
      with 1 rest [OF cd] m(1) show ?case by simp
    qed (simp_all add: rest [OF cd] module_absent_def)
  qed
  have "if (\<exists>c. dlsym_accessor M identity_accessor = Some (Some c)) \<and> (\<exists>c. dlsym_accessor M store_accessor = Some (Some c))
       \<and> libssh2_version M \<noteq> None \<and> register_fork_handler M \<noteq> None
      then init_xsink ?t = [] \<and> module_ready M ?t else module_absent ?t"
    using early store lib by metis
  then show ?thesis by (simp add: ssh2_module_delete_def)
qed

text \<open>
  The text of an SFTP error is that of the first known name of its code. The lookup takes the low
  32 bits of the status code, so a code beyond them is described as another one.
\<close>

lemma sftp_error_text_known:
  assumes "module_ready M m" "lib_const M ''LIBSSH2_ERROR_SFTP_PROTOCOL'' = Some err"
    "find (\<lambda>e. first_const M (fst e) = Some (sint (ucast serr :: 32 word))) sftp_errors = Some (cs, name, descr)"
  shows "sftp_error_text M m desc err serr msg =
     desc @ '': sftp error code '' @ dec_nat (unat serr) @ '' ('' @ name @ ''): '' @ descr"
  using assms by (simp add: sftp_error_text_def module_ready_def table_of_def)

text \<open>Every program that loads the module gets the names of its initialisation.\<close>

lemma ns_init_names:
  "ssh2_module_ns_init M m (calls, qns) = (calls', qns') \<Longrightarrow> last qns' = ssh2ns m \<and> butlast qns' = qns"
  by (auto simp: ssh2_module_ns_init_def)

end
