(* ===== verification/Ssh2_Bindings.thy ===== *)
theory Ssh2_Bindings
  imports Ssh2_Info
begin

text \<open>
  The methods of the Qore classes that do more than pass their arguments on
  (\<open>src/src/QC_SSH2Base.qpp\<close>, \<open>QC_SSH2Client.qpp\<close>, \<open>QC_SFTPClient.qpp\<close>, \<open>QC_SSH2Channel.qpp\<close>):
  the constructors, the defaults, and the checks of arguments. Qore's integers have 64 bits and
  are narrowed to the \<open>int\<close> of the C++ operations.
\<close>

section \<open>Integers\<close>

definition to_int32 :: "int \<Rightarrow> int" where
  "to_int32 v = sint (word_of_int v :: 32 word)"

section \<open>Constructors and destructors\<close>

text \<open>
  The URL is parsed by Qore; its protocol is a further part. The port is converted to \<open>int\<close> and
  then to the unsigned 32-bit number of the constructor.
\<close>

definition SSH2Client_constructor ::
  "('w, unit) cenv \<Rightarrow> hk_defaults \<Rightarrow> string option \<Rightarrow> qore_url \<Rightarrow> int \<Rightarrow> 'w \<Rightarrow> string + 'w client" where
  "SSH2Client_constructor E d protocol qurl port w =
     (if url_host qurl = None then Inl ''SSH2CLIENT-PARAMETER-ERROR''
      else case protocol of
        Some p \<Rightarrow> if \<not> strcaseeq ''ssh'' (c_str p) \<and> \<not> strcaseeq ''ssh2'' (c_str p) then Inl ''SSH2CLIENT-PARAMETER-ERROR''
                  else Inr (SSH2Client_new_url E d False qurl (word_of_int (to_int32 port)) w)
      | None \<Rightarrow> Inr (SSH2Client_new_url E d False qurl (word_of_int (to_int32 port)) w))"

definition SFTPClient_constructor ::
  "('w, unit) cenv \<Rightarrow> hk_defaults \<Rightarrow> string option \<Rightarrow> qore_url \<Rightarrow> int \<Rightarrow> 'w \<Rightarrow> string + 'w client" where
  "SFTPClient_constructor E d protocol qurl port w =
     (if url_host qurl = None then Inl ''SFTPCLIENT-PARAMETER-ERROR''
      else case protocol of
        Some p \<Rightarrow> if \<not> strcaseeq ''sftp'' (c_str p) then Inl ''SFTPCLIENT-PARAMETER-ERROR''
                  else Inr (SSH2Client_new_url E d True qurl (word_of_int (to_int32 port)) w)
      | None \<Rightarrow> Inr (SSH2Client_new_url E d True qurl (word_of_int (to_int32 port)) w))"

text \<open>
  The destructor of the Qore object, the same for both classes: the private data is released, and
  destroyed when no channel, listener or poll operation refers to it any more.
\<close>

definition object_destructor ::
  "('w, 'm) cenv \<Rightarrow> bool \<Rightarrow> ('w, 'm) cst \<Rightarrow> (unit \<times> ('w, 'm) cst) option" where
  "object_destructor E last_ref s =
     do { (_, s) \<leftarrow> disconnect E True DEFAULT_TIMEOUT_MS False s;
          if last_ref then client_destructor E s else Some ((), s) }"

section \<open>Defaults\<close>

definition setDefaultHostKeyPolicy :: "int \<Rightarrow> hk_defaults \<Rightarrow> string option \<times> hk_defaults" where
  "setDefaultHostKeyPolicy policy d =
     (case ssh2_set_default_host_key_policy (to_int32 policy) d of (rc, d) \<Rightarrow>
        (if rc \<noteq> 0 then Some ''SSH2-HOSTKEY-POLICY-ERROR'' else None, d))"

definition setDefaultKnownHostsFile :: "string option \<Rightarrow> hk_defaults \<Rightarrow> hk_defaults" where
  "setDefaultKnownHostsFile path d =
     (case path of
        None \<Rightarrow> ssh2_set_default_known_hosts SSH2_KH_DEFAULT_AUTO None d
      | Some p \<Rightarrow> if p = [] then ssh2_set_default_known_hosts SSH2_KH_DEFAULT_DISABLED None d
                  else ssh2_set_default_known_hosts SSH2_KH_DEFAULT_EXPLICIT (Some (c_str p)) d)"

definition getDefaultKnownHostsFile :: "hk_defaults \<Rightarrow> string option" where
  "getDefaultKnownHostsFile d =
     (case ssh2_get_default_known_hosts [] d of (mode, path) \<Rightarrow>
        if mode = SSH2_KH_DEFAULT_DISABLED then Some []
        else if mode = SSH2_KH_DEFAULT_EXPLICIT then Some (c_str path) else None)"

section \<open>Operations of a client\<close>

definition SFTPClient_chmod ::
  "('w, 'm) cenv \<Rightarrow> string \<Rightarrow> int \<Rightarrow> int \<Rightarrow> ('w, 'm) cst \<Rightarrow> (unit \<times> ('w, 'm) cst) option" where
  "SFTPClient_chmod E path mode tmo s =
     (if mode \<noteq> mode AND uint SFTP_UGOMASK then Some ((), raise True ''SFTPCLIENT-PARAMETER-ERROR'' s)
      else do { (_, s) \<leftarrow> sftpChmod E (c_str path) (to_int32 mode) (to_int32 tmo) s; Some ((), s) })"

definition SSH2Base_setUser :: "string \<Rightarrow> ('w, 'm) cst \<Rightarrow> ('w, 'm) cst" where
  "SSH2Base_setUser user s =
     (case setUser (c_str user) s of (rc, s) \<Rightarrow> if rc \<noteq> 0 then raise True ''SSH2-CONNECTED'' s else s)"

definition SSH2Base_setPassword :: "string \<Rightarrow> ('w, 'm) cst \<Rightarrow> ('w, 'm) cst" where
  "SSH2Base_setPassword password s =
     (case setPassword (c_str password) s of (rc, s) \<Rightarrow> if rc \<noteq> 0 then raise True ''SSH2-CONNECTED'' s else s)"

text \<open>The numbers of the methods are constants of libssh2.\<close>

definition SSH2Base_setMethodPreference ::
  "(ssh_method \<Rightarrow> int) \<Rightarrow> string \<Rightarrow> string \<Rightarrow> ('w, 'm) cst \<Rightarrow> int \<times> ('w, 'm) cst" where
  "SSH2Base_setMethodPreference num method_type prefs s =
     (case method_type_from_string (c_str method_type) of
        Inl e \<Rightarrow> (-1, raise True e s)
      | Inr mt \<Rightarrow> setMethodPreference (num mt) (c_str prefs) s)"

definition SSH2Base_getSupportedAlgorithms ::
  "('w, 'm) cenv \<Rightarrow> (ssh_method \<Rightarrow> int) \<Rightarrow> string \<Rightarrow> ('w, 'm) cst \<Rightarrow> qvalue option \<times> ('w, 'm) cst" where
  "SSH2Base_getSupportedAlgorithms E num method_type s =
     (case method_type_from_string (c_str method_type) of
        Inl e \<Rightarrow> (None, raise True e s)
      | Inr mt \<Rightarrow> getSupportedAlgorithms E (num mt) s)"

definition SSH2Client_openDirectTcpipChannel ::
  "('w, 'm) cenv \<Rightarrow> string \<Rightarrow> int \<Rightarrow> string \<Rightarrow> int \<Rightarrow> int \<Rightarrow> ('w, 'm) cst \<Rightarrow> (nat option \<times> ('w, 'm) cst) option" where
  "SSH2Client_openDirectTcpipChannel E host port shost sport tmo s =
     (if port = 0 then Some (None, raise True ''SSH2CLIENT-OPENDIRECTTCPIPCHANNEL-ERROR'' s)
      else if sport = 0 then Some (None, raise True ''SSH2CLIENT-OPENDIRECTTCPIPCHANNEL-ERROR'' s)
      else openDirectTcpipChannel E (c_str host) (to_int32 port) (c_str shost) (to_int32 sport) (to_int32 tmo) s)"

text \<open>\<open>scpPut()\<close> with a channel and with a stream; a time that is not given is 0.\<close>

definition epoch_or_0 :: "int option \<Rightarrow> int" where
  "epoch_or_0 t = (case t of None \<Rightarrow> 0 | Some e \<Rightarrow> e)"

definition SSH2Client_scpPut ::
  "('w, 'm) cenv \<Rightarrow> string \<Rightarrow> int \<Rightarrow> int \<Rightarrow> int option \<Rightarrow> int option \<Rightarrow> int \<Rightarrow> ('w, 'm) cst \<Rightarrow>
   (nat option \<times> ('w, 'm) cst) option" where
  "SSH2Client_scpPut E path fsize mode mtime atime tmo s =
     (if fsize \<le> 0 then Some (None, raise True ''SSH2CLIENT-SCPPUT-ERROR'' s)
      else scpPutChannel E (c_str path) (nat fsize) (to_int32 mode) (epoch_or_0 mtime) (epoch_or_0 atime)
             (to_int32 tmo) s)"

definition SSH2Client_scpPut_stream ::
  "('w, 'm) cenv \<Rightarrow> string \<Rightarrow> int \<Rightarrow> int \<Rightarrow> int option \<Rightarrow> int option \<Rightarrow> int \<Rightarrow> ('w, 'm) cst \<Rightarrow>
   (unit \<times> ('w, 'm) cst) option" where
  "SSH2Client_scpPut_stream E path fsize mode mtime atime tmo s =
     (if fsize \<le> 0 then Some ((), raise True ''SSH2CLIENT-SCPPUT-ERROR'' s)
      else scpPut E (c_str path) (nat fsize) (to_int32 mode) (epoch_or_0 mtime) (epoch_or_0 atime)
             (to_int32 tmo) s)"

section \<open>Operations of a channel\<close>

definition SSH2Channel_requestPty ::
  "('w, 'm) cenv \<Rightarrow> nat \<Rightarrow> string \<Rightarrow> string \<Rightarrow> int \<Rightarrow> int \<Rightarrow> int \<Rightarrow> int \<Rightarrow> int \<Rightarrow> ('w, 'm) cst \<Rightarrow>
   (unit \<times> ('w, 'm) cst) option" where
  "SSH2Channel_requestPty E c terminal modes width height width_px height_px tmo s =
     (if width < 0 \<or> height < 0 \<or> width_px < 0 \<or> height_px < 0
      then Some ((), raise True ''SSH2CHANNEL-REQUESTPTY-ERROR'' s)
      else do { (_, s) \<leftarrow> requestPty E c terminal modes (to_int32 width) (to_int32 height) (to_int32 width_px)
                  (to_int32 height_px) (to_int32 tmo) s;
                Some ((), s) })"

definition SSH2Channel_requestPtySize ::
  "('w, 'm) cenv \<Rightarrow> nat \<Rightarrow> int \<Rightarrow> int \<Rightarrow> int \<Rightarrow> int \<Rightarrow> int \<Rightarrow> ('w, 'm) cst \<Rightarrow> (unit \<times> ('w, 'm) cst) option" where
  "SSH2Channel_requestPtySize E c width height width_px height_px tmo s =
     (if width < 0 \<or> height < 0 then Some ((), raise True ''SSH2CHANNEL-REQUESTPTYSIZE-ERROR'' s)
      else do { (_, s) \<leftarrow> requestPtySize E c (to_int32 width) (to_int32 height) (to_int32 width_px)
                  (to_int32 height_px) (to_int32 tmo) s;
                Some ((), s) })"

definition SSH2Channel_read ::
  "('w, 'm) cenv \<Rightarrow> nat \<Rightarrow> int \<Rightarrow> int \<Rightarrow> ('w, 'm) cst \<Rightarrow> (string option \<times> ('w, 'm) cst) option" where
  "SSH2Channel_read E c stream tmo s =
     (if stream < 0 then Some (None, raise True ''SSH2CHANNEL-READ-ERROR'' s)
      else channel_read_all E c (to_int32 stream) (to_int32 tmo) s)"

definition SSH2Channel_readBinary ::
  "('w, 'm) cenv \<Rightarrow> nat \<Rightarrow> int \<Rightarrow> int \<Rightarrow> ('w, 'm) cst \<Rightarrow> (string option \<times> ('w, 'm) cst) option" where
  "SSH2Channel_readBinary E c stream tmo s =
     (if stream < 0 then Some (None, raise True ''SSH2CHANNEL-READBINARY-ERROR'' s)
      else channel_read_all_binary E c (to_int32 stream) (to_int32 tmo) s)"

definition SSH2Channel_readBlock ::
  "('w, 'm) cenv \<Rightarrow> nat \<Rightarrow> int \<Rightarrow> int \<Rightarrow> int \<Rightarrow> ('w, 'm) cst \<Rightarrow> (string option \<times> ('w, 'm) cst) option" where
  "SSH2Channel_readBlock E c blocksize stream tmo s =
     (if blocksize \<le> 0 then Some (None, raise True ''SSH2CHANNEL-READBLOCK-ERROR'' s)
      else if stream < 0 then Some (None, raise True ''SSH2CHANNEL-READBLOCK-ERROR'' s)
      else channel_read_size E c (word_of_int blocksize) (to_int32 stream) (to_int32 tmo) s)"

definition SSH2Channel_readBinaryBlock ::
  "('w, 'm) cenv \<Rightarrow> nat \<Rightarrow> int \<Rightarrow> int \<Rightarrow> int \<Rightarrow> ('w, 'm) cst \<Rightarrow> (string option \<times> ('w, 'm) cst) option" where
  "SSH2Channel_readBinaryBlock E c blocksize stream tmo s =
     (if blocksize \<le> 0 then Some (None, raise True ''SSH2CHANNEL-READBINARYBLOCK-ERROR'' s)
      else if stream < 0 then Some (None, raise True ''SSH2CHANNEL-READBINARYBLOCK-ERROR'' s)
      else channel_read_size_binary E c (word_of_int blocksize) (to_int32 stream) (to_int32 tmo) s)"

text \<open>
  \<open>data\<close> holds the bytes of a binary value, or of a string in the encoding of the channel; \<open>Inl\<close>
  is the exception that the conversion raised.
\<close>

definition SSH2Channel_write ::
  "('w, 'm) cenv \<Rightarrow> nat \<Rightarrow> string + string \<Rightarrow> int \<Rightarrow> int \<Rightarrow> ('w, 'm) cst \<Rightarrow> (unit \<times> ('w, 'm) cst) option" where
  "SSH2Channel_write E c data stream tmo s =
     (case data of
        Inl e \<Rightarrow> Some ((), raise True e s)
      | Inr buf \<Rightarrow>
          if buf = [] then Some ((), s)
          else if stream < 0 then Some ((), raise True ''SSH2CHANNEL-WRITE-ERROR'' s)
          else do { (_, s) \<leftarrow> channel_write_all E c buf (to_int32 stream) (to_int32 tmo) s; Some ((), s) })"

section \<open>Properties\<close>

lemma to_int32_id: "- (2 ^ 31) \<le> v \<Longrightarrow> v < 2 ^ 31 \<Longrightarrow> to_int32 v = v"
  by (simp add: to_int32_def sint_sbintrunc' signed_take_bit_int_eq_self)

lemma mode_in_mask: "mode = mode AND uint SFTP_UGOMASK \<longleftrightarrow> 0 \<le> mode \<and> mode < 512"
proof -
  have "uint SFTP_UGOMASK = mask 9" by (simp add: SFTP_UGOMASK_def mask_eq_exp_minus_1)
  then have "mode AND uint SFTP_UGOMASK = take_bit 9 mode" by (simp add: take_bit_eq_mask)
  then show ?thesis using take_bit_int_eq_self_iff [of 9 mode] by auto
qed

text \<open>The defaults of known hosts that are set are the ones that are read back.\<close>

lemma default_known_hosts_read_back:
  "getDefaultKnownHostsFile (setDefaultKnownHostsFile path d) = map_option c_str path"
  by (cases path) (auto simp: getDefaultKnownHostsFile_def setDefaultKnownHostsFile_def
      ssh2_get_default_known_hosts_def ssh2_set_default_known_hosts_def kh_consts c_str_def)

text \<open>The value that is left of a 64-bit argument as an \<open>int\<close>: the same modulo \<open>2^32\<close>, and in its range.\<close>

definition narrowed :: "int \<Rightarrow> int \<Rightarrow> bool" where
  "narrowed v i \<longleftrightarrow> - (2 ^ 31) \<le> i \<and> i < 2 ^ 31 \<and> v mod 2 ^ 32 = i mod 2 ^ 32"

lemma narrowed_to_int32: "narrowed v (to_int32 v)"
proof -
  have "uint (word_of_int (to_int32 v) :: 32 word) = uint (word_of_int v :: 32 word)" by (simp add: to_int32_def)
  then have "v mod 2 ^ 32 = to_int32 v mod 2 ^ 32" by (simp add: uint_word_of_int)
  moreover have "- (2 ^ 31) \<le> to_int32 v" "to_int32 v < 2 ^ 31"
    using sint_ge [of "word_of_int v :: 32 word"] sint_lt [of "word_of_int v :: 32 word"] by (simp_all add: to_int32_def)
  ultimately show ?thesis by (simp add: narrowed_def)
qed

lemma chmod_mode_bits:
  assumes "0 \<le> mode" "mode < 512"
  shows "p = chmod_newmode SFTP_UGOMASK perms (word_of_int mode)
    \<longleftrightarrow> (\<forall>n. bit p n = (if n < 9 then bit mode n else bit perms n))"
proof -
  have e: "SFTP_UGOMASK = mask 9" by (simp add: SFTP_UGOMASK_def mask_eq_exp_minus_1)
  have "bit SFTP_UGOMASK n \<longleftrightarrow> n < 9" for n unfolding e by (auto simp: bit_mask_iff)
  then have "bit (chmod_newmode SFTP_UGOMASK perms (word_of_int mode)) n = (if n < 9 then bit mode n else bit perms n)" for n
    by (simp add: chmod_newmode_bits bit_word_of_int_iff)
  then show ?thesis using bit_eqI [of p "chmod_newmode SFTP_UGOMASK perms (word_of_int mode)"] by metis
qed

text \<open>What \<open>chmod()\<close> does over a session that is alive when the server answers both requests.\<close>

lemma chmod_granted:
  assumes "sftpConnectedUnlocked E s = Some (True, u)" "ssh_session u" "file \<noteq> []" "0 \<le> mode" "mode < 512"
    and "sftp_stat E (absolute_filename (sftppath u) (Some file)) (world u) = ((Ret rs, a), w)" "0 \<le> rs" "has_permissions a"
    and "\<forall>n. bit p n = (if n < 9 then bit mode n else bit (att_permissions a) n)"
    and "sftp_request E (ReqSetstat (absolute_filename (sftppath u) (Some file)) (a\<lparr>att_permissions := p\<rparr>)) w = (Ret rc, w')" "0 \<le> rc"
  shows "sftpChmod E file mode tmo s = Some (rc, u\<lparr>session_blocking := True, world := w'\<rparr>)"
proof -
  let ?f = "absolute_filename (sftppath u) (Some file)" and ?u = "BlockingHelper_ctor u"
  have p: "chmod_newmode SFTP_UGOMASK (att_permissions a) (word_of_int mode) = p"
    using chmod_mode_bits [OF assms(4,5)] assms(9) by metis
  have "retry_loop is_stat_eagain (call_ext (sftp_stat E ?f)) g ?u = Some (Some (Ret rs, a), ?u\<lparr>world := w\<rparr>)" for g
    by (rule retry_loop_done) (simp_all add: call_ext_def BlockingHelper_ctor_def setBlockingUnlocked_def assms(6) is_stat_eagain_def)
  moreover have "retry_loop is_eagain (call_ext (sftp_request E (ReqSetstat ?f (a\<lparr>att_permissions := p\<rparr>)))) g (?u\<lparr>world := w\<rparr>)
      = Some (Some (Ret rc), ?u\<lparr>world := w'\<rparr>)" for g
    by (rule retry_loop_done) (simp_all add: call_ext_def assms(10))
  ultimately have "chmod_set E ?f mode tmo ?u = Some (rc, ?u\<lparr>world := w'\<rparr>)"
    using assms(7,8,11) by (simp add: chmod_set_def stat_loop_def has_permissions_def p)
  then have "with_blocking_helper (chmod_set E ?f mode tmo) u = Some (rc, u\<lparr>session_blocking := True, world := w'\<rparr>)"
    using assms(2) by (simp add: with_blocking_helper_def BlockingHelper_ctor_def BlockingHelper_dtor_def setBlockingUnlocked_def)
  then show ?thesis using assms(1,3) by (simp add: sftpChmod_def connected_or_def)
qed

text \<open>
  C26 (bounds). The checks of integer arguments. \<open>chmod()\<close> refuses with an exception every mode
  that is not from 0 to octal 777, without a request. For the others, when the session is alive,
  the server gives the attributes of the file and takes the new ones, the request that is sent
  is the one with these attributes in which the nine permission bits are those of the argument
  and the other bits those that the file had. \<open>requestPty()\<close> raises when one of the four
  dimensions is negative; otherwise all four are passed on as what is left of them as an \<open>int\<close>:
  a value of \<open>2^31\<close> or more is not refused. The same holds for the default host key policy: it
  is what is left as an \<open>int\<close> that is checked and stored.
\<close>

theorem binding_arguments:
  "(\<not> (0 \<le> mode \<and> mode < 512) \<longrightarrow>
      SFTPClient_chmod E path mode tmo s = Some ((), raise True ''SFTPCLIENT-PARAMETER-ERROR'' s))
   \<and> (0 \<le> mode \<and> mode < 512 \<and> c_str path \<noteq> [] \<and> sftpConnectedUnlocked E s = Some (True, u) \<and> ssh_session u
        \<and> sftp_stat E (absolute_filename (sftppath u) (Some (c_str path))) (world u) = ((Ret rs, a), w) \<and> 0 \<le> rs \<and> has_permissions a
        \<and> (\<forall>n. bit p n = (if n < 9 then bit mode n else bit (att_permissions a) n))
        \<and> sftp_request E (ReqSetstat (absolute_filename (sftppath u) (Some (c_str path))) (a\<lparr>att_permissions := p\<rparr>)) w = (Ret rc, w')
        \<and> 0 \<le> rc \<longrightarrow>
      SFTPClient_chmod E path mode tmo s = Some ((), u\<lparr>session_blocking := True, world := w'\<rparr>))
   \<and> (if width < 0 \<or> height < 0 \<or> width_px < 0 \<or> height_px < 0
      then SSH2Channel_requestPty E c term modes width height width_px height_px tmo s =
             Some ((), raise True ''SSH2CHANNEL-REQUESTPTY-ERROR'' s)
      else \<exists>iw ih ix iy it. narrowed width iw \<and> narrowed height ih \<and> narrowed width_px ix \<and> narrowed height_px iy \<and> narrowed tmo it
        \<and> SSH2Channel_requestPty E c term modes width height width_px height_px tmo s =
             do { (_, s) \<leftarrow> requestPty E c term modes iw ih ix iy it s; Some ((), s) })
   \<and> (\<exists>i. narrowed policy i \<and> setDefaultHostKeyPolicy policy d =
        (if i \<in> {SSH2_HOSTKEY_REJECT, SSH2_HOSTKEY_TOFU, SSH2_HOSTKEY_TOFU_SESSION} then (None, d\<lparr>def_policy := i\<rparr>)
         else (Some ''SSH2-HOSTKEY-POLICY-ERROR'', d)))"
proof (intro conjI impI, goal_cases)
  case 1
  then show ?case using mode_in_mask [of mode] by (auto simp: SFTPClient_chmod_def)
next
  case 2
  then have "sftpChmod E (c_str path) (to_int32 mode) (to_int32 tmo) s = Some (rc, u\<lparr>session_blocking := True, world := w'\<rparr>)"
    using chmod_granted [of E s u "c_str path" mode rs a w p rc w'] to_int32_id [of mode] by simp
  with 2 mode_in_mask [of mode] show ?case by (simp add: SFTPClient_chmod_def)
next
  case 3
  have "SSH2Channel_requestPty E c term modes width height width_px height_px tmo s =
       do { (_, s) \<leftarrow> requestPty E c term modes (to_int32 width) (to_int32 height) (to_int32 width_px) (to_int32 height_px)
              (to_int32 tmo) s; Some ((), s) }" if "\<not> (width < 0 \<or> height < 0 \<or> width_px < 0 \<or> height_px < 0)"
    using that by (simp add: SSH2Channel_requestPty_def)
  then show ?case using narrowed_to_int32 by (simp add: SSH2Channel_requestPty_def) blast
next
  case 4
  have "setDefaultHostKeyPolicy policy d =
      (if to_int32 policy \<in> {SSH2_HOSTKEY_REJECT, SSH2_HOSTKEY_TOFU, SSH2_HOSTKEY_TOFU_SESSION}
       then (None, d\<lparr>def_policy := to_int32 policy\<rparr>) else (Some ''SSH2-HOSTKEY-POLICY-ERROR'', d))"
    by (auto simp: setDefaultHostKeyPolicy_def ssh2_set_default_host_key_policy_def)
  with narrowed_to_int32 show ?case by blast
qed

definition env_chmod :: "(tworld, tworld client) env" where
  "env_chmod = env0\<lparr>sftp_opendir := (\<lambda>_ w. (Got (), w)), sftp_close_handle := (\<lambda>w. (Ret 0, w)),
     sftp_stat := (\<lambda>_ w. ((Ret 0, attrs0), w)),
     sftp_request := (\<lambda>req w. (case req of ReqSetstat f a \<Rightarrow>
       if f = ''/f'' \<and> a = attrs0\<lparr>att_permissions := 0x81ED\<rparr> then (Ret 0, w\<lparr>log := [''rwxr-xr-x'']\<rparr>) else (Ret (-1), w) | _ \<Rightarrow> (Ret (-1), w)))\<rparr>"

text \<open>A file with the permissions \<open>rw-r--r--\<close> gets \<open>rwxr-xr-x\<close>.\<close>

theorem binding_arguments_witness:
  "SFTPClient_chmod env_chmod ''/f'' 493 100 sftp_up = Some ((), sftp_up\<lparr>session_blocking := True,
     world := (world sftp_up)\<lparr>log := [''rwxr-xr-x'']\<rparr>\<rparr>)"
proof -
  let ?w = "(world sftp_up)\<lparr>log := [''rwxr-xr-x'']\<rparr>"
  have c: "c_str ''/f'' = ''/f''" "absolute_filename (sftppath sftp_up) (Some ''/f'') = ''/f''" by code_simp+
  have "retry_loop is_eagain (call_ext (sftp_close_handle env_chmod)) g t = Some (Some (Ret 0), t)" for g and t :: "tworld client"
    by (rule retry_loop_done) (simp_all add: env_chmod_def call_ext_def)
  then have close: "qsftp_tryClose env_chmod True e tm t = Some (0, t)" for e tm and t :: "tworld client"
    by (simp add: qsftp_tryClose_def qsftp_closeIntern_def)
  have "call_ext (sftp_opendir env_chmod d) t = (Got (), t)" for d and t :: "tworld client"
    by (simp add: env_chmod_def call_ext_def)
  moreover have up: "sftp_session sftp_up" "xsink sftp_up = []" by (simp_all add: example_defs)
  moreover have "sftp_up\<lparr>xsink := []\<rparr> = sftp_up" using up(2) by simp
  ultimately have alive: "sftpConnectedUnlocked env_chmod sftp_up = Some (True, sftp_up)"
    by (simp add: sftpConnectedUnlocked_def sftpIsAliveUnlocked_def close del: client.surjective)
  have "(0x81ED :: 64 word) = chmod_newmode SFTP_UGOMASK (att_permissions attrs0) (word_of_int 493)"
    by (simp add: chmod_newmode_def SFTP_UGOMASK_def attrs0_def)
  then have bits: "\<forall>n. bit (0x81ED :: 64 word) n = (if n < 9 then bit (493 :: int) n else bit (att_permissions attrs0) n)"
    using chmod_mode_bits [of 493 "0x81ED"] by simp
  have "sftp_stat env_chmod ''/f'' (world sftp_up) = ((Ret 0, attrs0), world sftp_up)"
    "sftp_request env_chmod (ReqSetstat ''/f'' (attrs0\<lparr>att_permissions := 0x81ED\<rparr>)) (world sftp_up) = (Ret 0, ?w)"
    by (simp_all add: env_chmod_def)
  moreover have "ssh_session sftp_up" "has_permissions attrs0"
    by (simp_all add: example_defs has_permissions_def LIBSSH2_SFTP_ATTR_PERMISSIONS_def)
  ultimately show ?thesis
    using binding_arguments [of 493 env_chmod "''/f''" 100 sftp_up sftp_up 0 attrs0 "world sftp_up" "0x81ED" 0 ?w] alive bits c
    by simp
qed

text \<open>
  A constructor raises exactly when the URL has no host or names another protocol; otherwise the
  new client has no session, and its port is the argument, the one of the URL, or 22.
\<close>

lemma constructor_outcome:
  "SFTPClient_constructor E d protocol qurl port w =
     (if url_host qurl = None \<or> (\<exists>p. protocol = Some p \<and> \<not> strcaseeq ''sftp'' (c_str p))
      then Inl ''SFTPCLIENT-PARAMETER-ERROR''
      else Inr (SSH2Client_new_url E d True qurl (word_of_int port) w))"
  by (auto simp: SFTPClient_constructor_def to_int32_def split: option.split)

text \<open>
  Deleting a client object ends its session, unless a poll operation or a connection attempt is
  in progress: then \<open>disconnect()\<close> refuses without an exception, and the session stays until the
  last reference is released.
\<close>

lemma delete_during_poll_keeps_session:
  "poll_op_in_progress s \<Longrightarrow> object_destructor E False s = Some ((), s)"
  by (simp add: object_destructor_def disconnect_def checkPollOpUnlocked_def raise_def)

lemma delete_ends_session:
  assumes "conn_inv s" "settling m E" "\<not> poll_op_in_progress s" "\<not> connect_in_progress s"
  shows "\<exists>t. object_destructor E last_ref s = Some ((), t) \<and> is_disconnected t"
proof -
  obtain t where t: "disconnect E True DEFAULT_TIMEOUT_MS False s = Some (0, t)" "is_disconnected t" "conn_inv t"
    using disconnect_total [OF assms] by blast
  with client_destructor_total [OF t(3) assms(2)] show ?thesis by (auto simp: object_destructor_def)
qed

end
