(* ===== verification/Spec2Isabelle.thy ===== *)
theory Spec2Isabelle
  imports Sftp_Poll_Drop Ssh2_Info Ssh2_Module Ssh2_Bindings
begin

text \<open>
  A verification of the Qore \<open>ssh2\<close> module: the C++ classes under \<open>src/src/\<close> that give Qore
  programs SSH sessions, channels, port forwarding, SCP and SFTP on top of libssh2.

  \<^bold>\<open>The program.\<close> An \<open>SSH2Client\<close> owns a socket, a libssh2 session and the registries of the
  channels (\<open>SSH2Channel\<close>) and listeners (\<open>SSH2Listener\<close>) opened from it. \<open>connect()\<close> opens
  the socket, makes the handshake, verifies the host key against the known-hosts file or a
  host-key store written in Qore, and authenticates by a plan of attempts (keys in files or in
  memory, the agent, client identity providers written in Qore, password,
  keyboard-interactive). An \<open>SFTPClient\<close> is an \<open>SSH2Client\<close> with an SFTP session, and connects
  implicitly. Channels, listeners and SFTP handles depend on the session: whoever disconnects
  closes them first. A poll operation (\<open>SftpPollOperation\<close>) retrieves a file without
  blocking: it reserves the client and goes through the stages of the connection and of the
  transfer as a state machine that the caller drives. All other calls to libssh2 are non-blocking and repeated after a wait for the
  socket; a wait that times out raises an exception and disconnects. One lock protects a
  client, so the operations are atomic, except that Qore callbacks and streams run with the
  lock released.

  \<^bold>\<open>The model.\<close> Every operation is a function from the state to \<open>Some (result, state)\<close>, or
  \<open>None\<close> when the code does not return. The state (\<open>Ssh2_Env\<close>) is the record \<open>client\<close> of the
  fields of the C++ object, with the open channels and listeners, the exceptions raised so far
  (\<open>xsink\<close>), a history variable for handles that outlive their session, and the outside world. Everything
  the module does not define itself (libssh2, Qore's sockets, files, sandbox and callbacks, the
  operating system, the build options) is the record \<open>env\<close> of functions on the world, about
  which nothing is assumed; a theorem that relies on documented behaviour names it
  (\<open>settling\<close>: a library that does not ask to wait for ever; \<open>callbacks_neutral\<close>: Qore code
  that does not call back into the same client; \<open>checkp_documented\<close>: a known-hosts check that
  gives one of its documented results; \<open>bounded_reads\<close>, \<open>reads_file\<close>, \<open>writes_file\<close>, \<open>serves_dir\<close>,
  \<open>writes_counted\<close>, \<open>reads_counted\<close>: a library that counts its bytes and whose errors come to
  an end; \<open>agent_finite\<close>).
  Exceptions are their codes; debug output and statistics are left out.

  \<^item> \<open>Ssh2_Prelude\<close>: outcomes (\<open>post\<close>, \<open>returns\<close>), the loop \<open>retry_loop\<close> that every wait for
    the network is an instance of, with its invariant and termination rules, libssh2's results.
  \<^item> \<open>Ssh2_Util\<close>: file modes, host names, fingerprints, file names (\<open>SSH2Client.cpp\<close>,
    \<open>SFTPClient.cpp\<close>, \<open>SFTPClient.h\<close>).
  \<^item> \<open>Ssh2_Defaults\<close>: the process-global host-key defaults and their environment variables
    (\<open>ssh2-module.cpp\<close>).
  \<^item> \<open>Ssh2_Env\<close>, \<open>Ssh2_Example\<close>: the state, the environment, and a concrete environment for the
    witnesses.
  \<^item> \<open>Ssh2_Client\<close>: waiting, disconnecting, the registries (\<open>SSH2Client.cpp\<close>,
    \<open>SSH2Client.h\<close>, \<open>SFTPClient::doShutdown\<close>); the connection invariant \<open>conn_inv\<close>, and that
    \<open>disconnect()\<close> and the destructors return and release everything.
  \<^item> \<open>Ssh2_Config\<close>: constructors, discovery of keys, every setter, sandbox checks. The locale of
    setters carries what all of them promise: no setting changes while a session exists or is
    being established, and no policy while \<open>connect()\<close> runs.
  \<^item> \<open>Ssh2_HostKey\<close>: known-hosts files, host-key stores, \<open>verifyHostKeyUnlocked()\<close>; verification
    fails closed.
  \<^item> \<open>Ssh2_Auth\<close>: \<open>buildAuthPlanUnlocked()\<close>, the attempts, the agent, the providers.
  \<^item> \<open>Ssh2_Connect\<close>: \<open>sshConnect()\<close>; its outcomes, that it returns, and that success implies a
    verified host key.
  \<^item> \<open>Ssh2_Channel\<close>, \<open>Ssh2_Transfer\<close>: \<open>SSH2Channel.cpp\<close>, \<open>SSH2Listener.cpp\<close>, SCP. The locale
    \<open>session_op\<close> is the contract of an operation on a session (invariant and configuration are
    kept), interpreted on every one of them; the transfer lemmas say which bytes go through.
  \<^item> \<open>Sftp_Client\<close>, \<open>Sftp_Transfer\<close>, \<open>Sftp_Directory\<close>: \<open>SFTPClient.cpp\<close>. The locale \<open>sftp_op\<close>
    is the contract of an SFTP operation, interpreted on every one of them; the results and
    exceptions agree, files arrive and leave exactly, directory lists are complete.
  \<^item> \<open>Sftp_Poll\<close>: \<open>SftpPollOperation.cpp\<close>. The members of the operation extend the record of
    the client; one function per stage handler, \<open>continuePollIntern\<close> is the loop over them.
  \<^item> \<open>Sftp_Poll_Inv\<close>, \<open>Sftp_Poll_Auth\<close>: the invariant of each stage, that every handler keeps
    it, and that closing the operation releases everything it holds. \<open>Sftp_Poll_Run\<close>: the same
    along every run, a step relation of the calls on the operation and of what happens outside.
    \<open>Sftp_Poll_Live\<close>: the locale \<open>poll_stage\<close> is the contract of a handler (it keeps the
    invariant, returns, and moves the machine forward), interpreted on the eleven handlers;
    so \<open>continuePoll()\<close> returns. \<open>Sftp_Poll_Verify\<close>: the stages of a run one by one; the goal
    is reached only on a session of the client or on one that went through the key exchange and
    then the verification of the host key. \<open>Sftp_Poll_Fetch\<close>: the machine refines an abstract retrieval.
    \<open>Sftp_Poll_Drop\<close>: what a destroyed operation leaves behind, and the limits of the
    reservation.
  \<^item> \<open>Ssh2_Info\<close>: the getters, the hashes that \<open>info()\<close>, \<open>getHostKey()\<close>, \<open>getExitSignal()\<close>,
    \<open>stat()\<close>, \<open>list()\<close> and \<open>statvfs()\<close> return, and their declarations in the \<open>.qpp\<close> files; each
    hash conforms to its declaration, and the queries free what libssh2 allocates for them.
  \<^item> \<open>Ssh2_Module\<close>: loading and unloading the module (\<open>ssh2-module.cpp\<close>): the classes required
    from the \<open>sshutil\<close> module, the tables of error codes, the names that the namespace
    \<open>Qore::SSH2\<close> gets, the fork handler. Loading puts everything in place or raises and leaves
    no name behind.
  \<^item> \<open>Ssh2_Bindings\<close>: the methods of the Qore classes (\<open>.qpp\<close>) that check or convert their
    arguments, the constructors, and the deletion of a client; which integers are accepted, and
    what the narrowing from 64 to 32 bits makes of them.
  \<^item> This theory: the histories of one client, made of any sequence of calls, and the invariants
    that hold along all of them.

  \<^bold>\<open>Loops.\<close> A loop that depends on the network is a \<open>partial_function\<close> in the option type: not
  returning is the value \<open>None\<close>, and no fuel is needed. That an operation returns is proved
  under \<open>settling\<close> (a measure on the world that falls with every successful wait); where the
  code does not return, that is proved too. Byte counts and sizes are 64-bit words, ports
  32-bit words.

  \<^bold>\<open>Not modelled.\<close> The methods in the \<open>.qpp\<close> files that only pass their arguments on to an
  operation of the model; the performance counters and the warning queue of the Qore socket,
  which the client only passes on; the reference counts of the module's own objects (that the
  last reference is released is an argument of \<open>object_destructor\<close>); the texts of exceptions,
  except those of SFTP errors; the Qore-language modules under \<open>src/qlib/\<close>. Of the poll operation, the controller that waits for the descriptors is
  Qore's: a run has any change of the outside world between two calls.
\<close>

section \<open>Histories of a client\<close>

text \<open>
  The calls a program can make on one client object and its channels. Every call has its own
  exception sink.
\<close>

datatype sftp_call =
    IsAlive int
  | Mkdir string int int
  | Rmdir string int
  | Rename string string int
  | Unlink string int
  | Chmod string int int
  | Chown string int int int
  | Stat string int
  | Lstat string int
  | Symlink string string int
  | Readlink string int
  | Statvfs string int
  | Chdir "string option" int
  | ListDir "string option" int
  | ListFull "string option" int
  | GetFile string int
  | GetTextFile string int
  | RetrieveFile string string int int
  | GetStream string int
  | PutFile string string int int
  | TransferFile string string int int
  | PutStream string int int

datatype call =
    Configure setting
  | Connect int
  | Disconnect bool int
  | CloseIo
  | OpenSession int
  | OpenTcpip string int string int int
  | OpenStreamLocal string string int int
  | ForwardListen string int int int
  | Accept nat int
  | ScpGetChannel string int
  | ScpPutChannel string nat int int int int
  | ScpGet string int
  | ScpPut string nat int int int int
  | Request nat chan_req string "int \<Rightarrow> bool" int
  | ReadAll nat int int
  | ReadSize nat "64 word" int int
  | ReadBuffer nat nat int int
  | Write nat string int int
  | DeleteChannel nat
  | CancelListener nat
  | DeleteListener nat
  | GetHostKey
  | AddKnownHost "string option" int
  | SupportedAlgorithms int
  | ExitSignal nat
  | TraceLevel int
  | Sftp sftp_call

definition drop_result :: "('r \<times> 's) option \<Rightarrow> 's option" where
  "drop_result m = map_option snd m"

fun perform_sftp :: "('w, 'm) cenv \<Rightarrow> sftp_call \<Rightarrow> ('w, 'm) cst \<Rightarrow> ('w, 'm) cst option" where
  "perform_sftp E (IsAlive tmo) s = drop_result (sftpIsAliveEx E tmo s)"
| "perform_sftp E (Mkdir d mode tmo) s = drop_result (sftpMkdir E d mode tmo s)"
| "perform_sftp E (Rmdir d tmo) s = drop_result (sftpRmdir E d tmo s)"
| "perform_sftp E (Rename a b tmo) s = drop_result (sftpRename E a b tmo s)"
| "perform_sftp E (Unlink f tmo) s = drop_result (sftpUnlink E f tmo s)"
| "perform_sftp E (Chmod f mode tmo) s = drop_result (sftpChmod E f mode tmo s)"
| "perform_sftp E (Chown f uid gid tmo) s = drop_result (sftpChown E f uid gid tmo s)"
| "perform_sftp E (Stat f tmo) s = drop_result (sftpGetAttributes E f tmo s)"
| "perform_sftp E (Lstat f tmo) s = drop_result (sftpLGetAttributes E f tmo s)"
| "perform_sftp E (Symlink a b tmo) s = drop_result (sftpSymlink E a b tmo s)"
| "perform_sftp E (Readlink f tmo) s = drop_result (sftpReadlink E f tmo s)"
| "perform_sftp E (Statvfs f tmo) s = drop_result (sftpStatvfs E f tmo s)"
| "perform_sftp E (Chdir d tmo) s = drop_result (sftpChdir E d tmo s)"
| "perform_sftp E (ListDir d tmo) s = drop_result (sftpList E d tmo s)"
| "perform_sftp E (ListFull d tmo) s = drop_result (sftpListFull E d tmo s)"
| "perform_sftp E (GetFile f tmo) s = drop_result (sftpGetFile E f tmo s)"
| "perform_sftp E (GetTextFile f tmo) s = drop_result (sftpGetTextFile E f tmo s)"
| "perform_sftp E (RetrieveFile a b tmo mode) s = drop_result (sftpRetrieveFile E a b tmo mode s)"
| "perform_sftp E (GetStream f tmo) s = drop_result (sftpGet E f tmo s)"
| "perform_sftp E (PutFile d f mode tmo) s = drop_result (sftpPutFile E d f mode tmo s)"
| "perform_sftp E (TransferFile a b mode tmo) s = drop_result (sftpTransferFile E a b mode tmo s)"
| "perform_sftp E (PutStream f mode tmo) s = drop_result (sftpPut E f mode tmo s)"

text \<open>\<open>connect()\<close> is virtual, and only an SFTP client has the SFTP operations.\<close>

fun perform_call :: "('w, 'm) cenv \<Rightarrow> call \<Rightarrow> ('w, 'm) cst \<Rightarrow> ('w, 'm) cst option" where
  "perform_call E (Configure c) s = Some (snd (apply_setting E c s))"
| "perform_call E (Connect tmo) s = drop_result (if is_sftp s then sftpConnect E tmo s else sshConnect E tmo s)"
| "perform_call E (Disconnect force tmo) s = drop_result (disconnect E force tmo True s)"
| "perform_call E CloseIo s = Some (closeIo s)"
| "perform_call E (OpenSession tmo) s = drop_result (openSessionChannel E tmo s)"
| "perform_call E (OpenTcpip h p sh sp tmo) s = drop_result (openDirectTcpipChannel E h p sh sp tmo s)"
| "perform_call E (OpenStreamLocal pa sh sp tmo) s = drop_result (openDirectStreamLocalChannel E pa sh sp tmo s)"
| "perform_call E (ForwardListen h p q tmo) s = drop_result (forwardListen E h p q tmo s)"
| "perform_call E (Accept l tmo) s = drop_result (listener_accept E l tmo s)"
| "perform_call E (ScpGetChannel pa tmo) s = drop_result (scpGetChannel E pa tmo s)"
| "perform_call E (ScpPutChannel pa n mo mt at tmo) s = drop_result (scpPutChannel E pa n mo mt at tmo s)"
| "perform_call E (ScpGet pa tmo) s = drop_result (scpGet E pa tmo s)"
| "perform_call E (ScpPut pa n mo mt at tmo) s = drop_result (scpPut E pa n mo mt at tmo s)"
| "perform_call E (Request c req err bad tmo) s = drop_result (channel_op E c req err bad tmo s)"
| "perform_call E (ReadAll c stream tmo) s = drop_result (channel_read_all E c stream tmo s)"
| "perform_call E (ReadSize c n stream tmo) s = drop_result (channel_read_size E c n stream tmo s)"
| "perform_call E (ReadBuffer c n stream tmo) s = drop_result (channel_read_buffer E c n stream tmo s)"
| "perform_call E (Write c d stream tmo) s = drop_result (channel_write_all E c d stream tmo s)"
| "perform_call E (DeleteChannel c) s = Some (channel_destructor E c s)"
| "perform_call E (CancelListener l) s = Some (listener_cancel E l s)"
| "perform_call E (DeleteListener l) s = Some (listener_destructor E l s)"
| "perform_call E GetHostKey s = drop_result (Some (getHostKeyLocked E s))"
| "perform_call E (AddKnownHost h p) s = Some (snd (addKnownHostLocked E h p s))"
| "perform_call E (SupportedAlgorithms m) s = drop_result (Some (getSupportedAlgorithms E m s))"
| "perform_call E (ExitSignal c) s = drop_result (Some (getExitSignal E c s))"
| "perform_call E (TraceLevel n) s = drop_result (Some (setTraceLevelLocked E n s))"
| "perform_call E (Sftp c) s = (if is_sftp s then perform_sftp E c s else None)"

inductive client_reachable :: "('w, unit) cenv \<Rightarrow> 'w client \<Rightarrow> bool" for E where
  new: "defaults_reachable d \<Longrightarrow> client_reachable E (SSH2Client_new E d sftp host port w)"
| new_url: "defaults_reachable d \<Longrightarrow> client_reachable E (SSH2Client_new_url E d sftp url port w)"
| call: "client_reachable E s \<Longrightarrow> perform_call E c (s\<lparr>xsink := []\<rparr>) = Some t \<Longrightarrow> client_reachable E t"

definition client_ok :: "('w, 'm) cst \<Rightarrow> bool" where
  "client_ok s \<longleftrightarrow> conn_inv s \<and> config_valid s \<and> \<not> agent_live s \<and> \<not> connect_in_progress s"

lemma client_ok_kept: "kept s t \<Longrightarrow> client_ok s \<Longrightarrow> client_ok t"
  by (auto simp: kept_def client_ok_def config_valid_def settings_def policies_def)

lemma drop_resultE:
  assumes "drop_result m = Some t"
  obtains r where "m = Some (r, t)"
  using assms by (auto simp: drop_result_def)

lemma client_ok_keeps: "keeps f \<Longrightarrow> drop_result (f s) = Some t \<Longrightarrow> client_ok s \<Longrightarrow> client_ok t"
  by (auto elim!: drop_resultE intro: client_ok_kept keepsD)

lemma client_ok_sink [simp]: "client_ok (s\<lparr>xsink := e\<rparr>) = client_ok s"
  by (simp add: client_ok_def conn_inv_def config_valid_def)

lemma client_ok_setting:
  assumes "client_ok s"
  shows "client_ok (snd (apply_setting E c s))"
proof -
  have "connection (snd (apply_setting E c s)) = connection s" by (rule setting.keeps_connection)
  with assms setting.keeps_valid [of s E c] show ?thesis
    by (auto simp: client_ok_def conn_inv_def connection_def)
qed

lemma client_ok_connect:
  assumes "client_ok s" "xsink s = []" "callbacks_neutral E" "sshConnect E tmo s = Some (rc, t)"
  shows "client_ok t"
proof -
  let ?s = "s\<lparr>connect_in_progress := True\<rparr>"
  from assms(1,4) obtain u where c: "sshConnectUnlocked E tmo ?s = Some (rc, u)"
    and t: "t = u\<lparr>connect_in_progress := False\<rparr>"
    by (auto simp: client_ok_def sshConnect_def Option.bind_eq_Some_conv)
  have i: "conn_inv ?s" using assms(1) by (simp add: client_ok_def conn_inv_def)
  have "connect_outcome ?s rc u"
    using post_D [OF sshConnectUnlocked_post [OF i] c] assms(1,2,3) by (simp add: client_ok_def)
  with assms(1) show ?thesis unfolding t
    by (auto simp: connect_outcome_def client_ok_def conn_inv_def config_valid_def settings_def policies_def)
qed

lemma client_ok_op:
  assumes "op_keeps E f" "callbacks_neutral E" "client_ok s" "is_sftp s" "xsink s = []" "drop_result (f s) = Some t"
  shows "client_ok t"
proof -
  have "ready s" using assms(3,4,5) by (simp add: ready_def client_ok_def)
  with assms(1,2,6) have "kept s t" by (auto simp: op_keeps_def elim!: drop_resultE dest: post_D)
  then show ?thesis using assms(3) by (rule client_ok_kept)
qed

lemmas sftp_ops = alive.keeps_op mkdir.keeps_op rmdir.keeps_op rename.keeps_op unlink.keeps_op chmod.keeps_op
  chown.keeps_op getattributes.keeps_op lgetattributes.keeps_op symlink.keeps_op readlink.keeps_op statvfs.keeps_op
  chdir.keeps_op sftplist.keeps_op listfull.keeps_op getfile.keeps_op gettextfile.keeps_op retrievefile.keeps_op
  getstream.keeps_op putfile.keeps_op transferfile.keeps_op putstream.keeps_op

lemma client_ok_sftp:
  assumes "callbacks_neutral E" "client_ok s" "is_sftp s" "xsink s = []" "perform_sftp E c s = Some t"
  shows "client_ok t"
  using assms(5) by (cases c) (auto dest!: sftp_ops [THEN client_ok_op, OF assms(1-4)])

lemma kept_disconnect: "disconnect E force tmo x s = Some (rc, t) \<Longrightarrow> kept s t"
  by (auto simp: disconnect_def checkPollOpUnlocked_def split: if_splits
      dest!: post_D [OF disconnectUnlocked_post] intro: kept_disc)

lemma kept_closeIo: "kept s (closeIo s)"
  by (auto simp: closeIo_def kept_def conn_inv_def settings_def policies_def)

lemma kept_addresses: "check_addresses E host as s = (rc, t) \<Longrightarrow> kept s t"
  by (induction as) (auto split: if_splits)

lemma kept_sandbox_checks:
  "ssh2_check_tunnel_destination E host port s = (rc, t) \<Longrightarrow> kept s t"
  "ssh2_check_unix_socket_access E path b s = (rc, t) \<Longrightarrow> kept s t"
  by (auto simp: ssh2_check_tunnel_destination_def split: if_splits prod.splits option.splits list.splits
        dest!: kept_call kept_addresses intro: kept_trans kept_raise)
    (auto simp: ssh2_check_unix_socket_access_def ssh2_check_fs_access_def split: if_splits prod.splits)

lemma keeps_tunnel_ops:
  "keeps (openDirectTcpipChannel E h p sh sp tmo)"
  "keeps (openDirectStreamLocalChannel E pa sh sp tmo)"
  by (rule keepsI, auto simp: openDirectTcpipChannel_def split: prod.splits if_splits
      dest: kept_sandbox_checks(1) intro: kept_trans keepsD [OF open_channel.op_keeps])
    (rule keepsI, auto simp: openDirectStreamLocalChannel_def split: prod.splits if_splits
      dest: kept_sandbox_checks(2) intro: kept_trans keepsD [OF open_channel.op_keeps])

lemma keeps_open_ops:
  "keeps (openSessionChannel E tmo)" "keeps (forwardListen E h q n tmo)" "keeps (scpGetChannel E pa tmo)"
  "keeps (scpPutChannel E pa sz mo mt at tmo)"
  unfolding openSessionChannel_def forwardListen_def scpGetChannel_def scpPutChannel_def
  by (rule open_channel.op_keeps open_listener.op_keeps)+

lemmas client_keeps = keeps_tunnel_ops keeps_open_ops accept.op_keeps scp_get.op_keeps scp_put.op_keeps
  request.op_keeps read_all.op_keeps read_size.op_keeps read_into.op_keeps write_all.op_keeps
  host_key.op_keeps algorithms.op_keeps exit_signal.op_keeps trace_level.op_keeps

lemmas client_ok_ops = client_keeps [THEN client_ok_keeps]

lemma client_ok_call:
  assumes "client_ok s" "xsink s = []" "callbacks_neutral E" "perform_call E c s = Some t"
  shows "client_ok t"
proof (cases c)
  case (Configure x)
  with assms show ?thesis by (auto intro: client_ok_setting)
next
  case (Connect tmo)
  show ?thesis
  proof (cases "is_sftp s")
    case True
    with assms Connect have "drop_result (sftpConnect E tmo s) = Some t" by simp
    then show ?thesis by (rule client_ok_op [OF sftpconnect.keeps_op assms(3,1) True assms(2)])
  next
    case False
    with assms Connect show ?thesis by (auto elim!: drop_resultE intro: client_ok_connect)
  qed
next
  case (Sftp x)
  with assms show ?thesis by (auto split: if_splits intro: client_ok_sftp)
next
  case (AddKnownHost h p)
  have "\<not> nh_live s" using assms(1) by (simp add: client_ok_def conn_inv_def)
  with addKnownHost_core [of s E h p] assms(2,4) AddKnownHost have "core t = core s" by simp
  then show ?thesis by (rule client_ok_kept [OF kept_core assms(1)])
next
  case (Disconnect force tmo)
  with assms show ?thesis by (auto elim!: drop_resultE intro: client_ok_kept [OF kept_disconnect])
qed (use assms in \<open>auto dest!: client_ok_ops intro: client_ok_kept [OF kept_closeIo]
      client_ok_kept [OF kept_channel_destructor] client_ok_kept [OF kept_listener_ops(1)]
      client_ok_kept [OF kept_listener_ops(2)]\<close>)

lemma setKeysIntern_connection: "connection (setKeysIntern E s) = connection s"
  by (simp add: connection_def setKeysIntern_def Let_def split: option.split prod.split)

lemma setKnownHostsIntern_connection: "connection (setKnownHostsIntern E d s) = connection s"
  by (simp add: connection_def setKnownHostsIntern_def Let_def split: option.split prod.split)

lemma new_client_ok:
  fixes E :: "('w, unit) cenv"
  assumes "defaults_reachable d"
  shows "client_ok (SSH2Client_new E d sftp host port w)" "client_ok (SSH2Client_new_url E d sftp url port w)"
proof -
  have c: "connection (setKnownHostsIntern E d (setKeysIntern E s)) = connection s" for s :: "'w client"
    by (simp add: setKnownHostsIntern_connection setKeysIntern_connection)
  have k: "config_valid (SSH2Client_new E d sftp host port w)" "config_valid (SSH2Client_new_url E d sftp url port w)"
    by (rule new_client_valid [OF assms, THEN conjunct1]) (rule new_client_valid [OF assms, THEN conjunct2])
  show "client_ok (SSH2Client_new E d sftp host port w)"
    using k(1) c [of "initial_client d sftp host port w"]
    by (simp add: client_ok_def conn_inv_def connection_def SSH2Client_new_def initial_client_def)
  show "client_ok (SSH2Client_new_url E d sftp url port w)"
    using k(2) c unfolding SSH2Client_new_url_def Let_def
    by (simp add: client_ok_def conn_inv_def connection_def initial_client_def)
qed

lemma client_ok_reachable:
  assumes "client_reachable E s" "callbacks_neutral E"
  shows "client_ok s"
  using assms(1)
proof induction
  case (call s c t)
  show ?case by (rule client_ok_call [OF _ _ assms(2) call.hyps(2)]) (simp_all add: call.IH)
qed (simp_all add: new_client_ok)

lemma distinct_count_list: "distinct xs \<Longrightarrow> count_list xs x = (if x \<in> set xs then 1 else 0)"
  by (induction xs) auto

text \<open>
  C5 (invariant). After every history of calls on a client that returned, from its
  construction on and with whatever server, files, stores and providers, the connection
  invariant and the validity of the configuration hold, no connection attempt is left in
  progress and no agent handle is left open, if the Qore code of a store or provider does not
  call back into the same client.
\<close>

theorem reachable_client_ok:
  assumes "client_reachable E s" "callbacks_neutral E"
  shows "conn_inv s \<and> config_valid s \<and> \<not> agent_live s \<and> \<not> connect_in_progress s"
  using client_ok_reachable [OF assms] by (simp add: client_ok_def)

theorem reachable_client_ok_witness:
  "\<exists>s. client_reachable tenv s \<and> perform_call tenv (Connect 100) (s\<lparr>xsink := []\<rparr>) \<noteq> None \<and> conn_inv s"
proof -
  let ?d = "ssh2_init_host_key_defaults None None None ssh2_defaults_init"
  let ?c = "SSH2Client_new tenv ?d False ''h'' 22 \<lparr>pending = 0, log = []\<rparr>"
  have r: "client_reachable tenv ?c" by (intro client_reachable.new defaults_reachable.loaded)
  have "map_option (\<lambda>_. ()) (perform_call tenv (Connect 100) (?c\<lparr>xsink := []\<rparr>)) = Some ()" by code_simp
  moreover have "conn_inv ?c" using reachable_client_ok [OF r callbacks_neutral_env0] by blast
  ultimately show ?thesis using r by (intro exI [of _ ?c]) auto
qed

text \<open>
  Along every history the registry of channels is exact: a channel object is
  registered exactly once if and only if it is open, and an object without a session is never
  open.
\<close>

lemma reachable_registry_exact:
  assumes "client_reachable E s" "callbacks_neutral E"
  shows "count_list (channel_set s) c = (if chan_open s c then 1 else 0) \<and> (chan_open s c \<longrightarrow> ssh_session s)"
proof -
  have "conn_inv s" using client_ok_reachable [OF assms] by (simp add: client_ok_def)
  then show ?thesis
    by (auto simp: conn_inv_def distinct_count_list)
qed

lemma reachable_registry_exact_example:
  "\<exists>s. client_reachable tenv s \<and> chan_open s 0 \<and> count_list (channel_set s) 0 = 1"
proof -
  let ?d = "ssh2_init_host_key_defaults None None None ssh2_defaults_init"
  let ?c = "(SSH2Client_new tenv ?d False ''h'' 22 \<lparr>pending = 0, log = []\<rparr>)"
  let ?p = "snd (apply_setting tenv (Password ''pw'') (?c\<lparr>xsink := []\<rparr>))"
  have "client_reachable tenv ?c" by (intro client_reachable.new defaults_reachable.loaded)
  then have r: "client_reachable tenv ?p"
    by (rule client_reachable.call [where c = "Configure (Password ''pw'')"]) simp
  have "Option.bind (perform_call tenv (Connect 100) (?p\<lparr>xsink := []\<rparr>))
      (\<lambda>s. map_option (\<lambda>t. chan_open t 0) (perform_call tenv (OpenSession 100) (s\<lparr>xsink := []\<rparr>))) = Some True"
    by code_simp
  then obtain s t where "perform_call tenv (Connect 100) (?p\<lparr>xsink := []\<rparr>) = Some s"
    "perform_call tenv (OpenSession 100) (s\<lparr>xsink := []\<rparr>) = Some t" and o: "chan_open t 0"
    by (auto simp: Option.bind_eq_Some_conv)
  with r have "client_reachable tenv t" by (blast intro: client_reachable.call)
  with reachable_registry_exact [OF this callbacks_neutral_env0, of 0] o show ?thesis by auto
qed

end
